theory Spec2Isabelle
  imports Complex_Main "HOL-Library.Word" "HOL-Library.Product_Lexorder"
begin

unbundle bit_operations_syntax

section \<open>Mesh and skin compilation (user\_mesh.cc)\<close>

text \<open>
  A shallow embedding of \<^verbatim>\<open>src/user/user_mesh.cc\<close>: the classes \<^verbatim>\<open>mjCMesh\<close> and
  \<^verbatim>\<open>mjCSkin\<close> as records, their member functions as functions from the object to
  the updated object, and every way of not returning normally as a value of
  type \<open>failure\<close>.

  Numbers. A C \<^verbatim>\<open>int\<close> is an \<open>int\<close>; where a loader multiplies a count read
  from a file, the overflow of the 32-bit product is written out as undefined
  behaviour. A
  \<^verbatim>\<open>float\<close> or \<^verbatim>\<open>double\<close> is the real number it denotes. The OBJ loader
  stores a computed difference in a \<^verbatim>\<open>std::vector<float>\<close>: that value is
  rounded to single precision (\<open>float32_round\<close>), and so are the sums and
  quotients of the skin weights. The other arithmetic, of the geometry in
  \<^verbatim>\<open>Process\<close> and \<^verbatim>\<open>MakeNormal\<close>, is exact in the model. The values that are not numbers (NaN, infinities) are modelled where
  the code tests for them, in the STL loader, which decodes the IEEE bit
  pattern.
\<close>

subsection \<open>Failures\<close>

datatype failure =
    mjCError string      \<comment> \<open>\<^verbatim>\<open>throw mjCError(this, ...)\<close>: the structured error\<close>
  | mju_error string     \<comment> \<open>\<^verbatim>\<open>mju_error(...)\<close>: the engine's fatal error, does not return\<close>
  | Undefined string     \<comment> \<open>behaviour the C++ standard leaves undefined\<close>
  | Diverges             \<comment> \<open>a loop that does not end\<close>

type_synonym 'a result = "failure + 'a"

definition bind :: "'a result \<Rightarrow> ('a \<Rightarrow> 'b result) \<Rightarrow> 'b result" where
  "bind r f = (case r of Inl e \<Rightarrow> Inl e | Inr x \<Rightarrow> f x)"

definition load :: "'a list \<Rightarrow> int \<Rightarrow> 'a result" where
  "load a i = (if 0 \<le> i \<and> i < int (length a) then Inr (a ! nat i)
               else Inl (Undefined ''read out of bounds''))"

definition store :: "'a list \<Rightarrow> int \<Rightarrow> 'a \<Rightarrow> 'a list result" where
  "store a i v = (if 0 \<le> i \<and> i < int (length a) then Inr (a[nat i := v])
                  else Inl (Undefined ''write out of bounds''))"

subsection \<open>Constants and numeric primitives of the engine\<close>

text \<open>
  Modelled from the spec: \<^verbatim>\<open>mjMINVAL\<close> is defined in \<^verbatim>\<open>mujoco/mjmodel.h\<close>,
  which is not part of the sources; the spec calls it a small positive
  threshold. The value below is the one of the public header; the proofs use
  only that it is positive.
\<close>

definition mjMINVAL :: real where
  "mjMINVAL = 1 / 10 ^ 15"

text \<open>
  Modelled from the spec: the 3-vector primitives \<^verbatim>\<open>mju_cross\<close>,
  \<^verbatim>\<open>mju_norm3\<close> and \<^verbatim>\<open>mjuu_dot3\<close> (cross product, Euclidean length, dot
  product) live in the engine's utility files, which are not part of the
  sources.
\<close>

type_synonym vec3 = "real \<times> real \<times> real"

fun mju_cross :: "vec3 \<Rightarrow> vec3 \<Rightarrow> vec3" where
  "mju_cross (a0, a1, a2) (b0, b1, b2) =
     (a1 * b2 - a2 * b1, a2 * b0 - a0 * b2, a0 * b1 - a1 * b0)"

fun mjuu_dot3 :: "vec3 \<Rightarrow> vec3 \<Rightarrow> real" where
  "mjuu_dot3 (a0, a1, a2) (b0, b1, b2) = a0 * b0 + a1 * b1 + a2 * b2"

fun mju_norm3 :: "vec3 \<Rightarrow> real" where
  "mju_norm3 (a0, a1, a2) = sqrt (a0 * a0 + a1 * a1 + a2 * a2)"

text \<open>\<^verbatim>\<open>_triangle\<close>: area, unit normal and centre of a triangle.\<close>

definition triangle :: "vec3 \<Rightarrow> vec3 \<Rightarrow> vec3 \<Rightarrow> real \<times> vec3 \<times> vec3" where
  "triangle v1 v2 v3 =
     (case (v1, v2, v3) of ((x1, y1, z1), (x2, y2, z2), (x3, y3, z3)) \<Rightarrow>
        let center = ((x1 + x2 + x3) / 3, (y1 + y2 + y3) / 3, (z1 + z2 + z3) / 3);
            b = (x2 - x1, y2 - y1, z2 - z1);
            c = (x3 - x1, y3 - y1, z3 - z1);
            normal = mju_cross b c;
            len = mju_norm3 normal
        in if len < mjMINVAL then (0, normal, center)
           else (case normal of (n0, n1, n2) \<Rightarrow>
                   (len / 2, (n0 / len, n1 / len, n2 / len), center)))"

subsection \<open>The mesh object\<close>

text \<open>
  The fields of \<^verbatim>\<open>mjCMesh\<close> that the member functions of this file use. A
  pointer to an array is an optional list: \<open>None\<close> is the null pointer.
\<close>

datatype mjtMeshType = mjVOLUME_MESH | mjSHELL_MESH

record mjCMesh =
  name :: string
  meshfile :: string   \<comment> \<open>the field \<^verbatim>\<open>file\<close>\<close>
  refpos :: vec3
  refquat :: "real \<times> real \<times> real \<times> real"
  scale :: vec3
  smoothnormal :: bool
  uservert :: "real list"
  usernormal :: "real list"
  usertexcoord :: "real list"
  userface :: "int list"
  userfacenormal :: "int list"
  userfacetexcoord :: "int list"
  useredge :: "(int \<times> int) list"
  pos_surface :: vec3
  pos_volume :: vec3
  quat_surface :: "real \<times> real \<times> real \<times> real"
  quat_volume :: "real \<times> real \<times> real \<times> real"
  boxsz_surface :: vec3
  boxsz_volume :: vec3
  aabb :: "real list"
  surface :: real
  volume :: real
  nvert :: int
  nnormal :: int
  ntexcoord :: int
  nface :: int
  szgraph :: int
  vert :: "real list option"
  normal :: "real list option"
  texcoord :: "real list option"
  face :: "int list option"
  facenormal :: "int list option"
  facetexcoord :: "int list option"
  graph :: "int list option"
  needhull :: bool
  invalidorientation :: "int \<times> int"
  validarea :: bool
  validvolume :: bool
  valideigenvalue :: bool
  validinequality :: bool
  processed :: bool

text \<open>
  The constructor (without a default to copy from). It does not initialise
  \<^verbatim>\<open>surface\<close> and \<^verbatim>\<open>volume\<close>; what they hold is a parameter here.
\<close>

definition new_mjCMesh :: "string \<Rightarrow> real \<Rightarrow> real \<Rightarrow> mjCMesh" where
  "new_mjCMesh nm surface0 volume0 =
     \<lparr> name = nm, meshfile = [], refpos = (0, 0, 0), refquat = (1, 0, 0, 0), scale = (1, 1, 1),
       smoothnormal = False,
       uservert = [], usernormal = [], usertexcoord = [], userface = [],
       userfacenormal = [], userfacetexcoord = [], useredge = [],
       pos_surface = (0, 0, 0), pos_volume = (0, 0, 0),
       quat_surface = (1, 0, 0, 0), quat_volume = (1, 0, 0, 0),
       boxsz_surface = (0, 0, 0), boxsz_volume = (0, 0, 0),
       aabb = [10 ^ 10, 10 ^ 10, 10 ^ 10, - (10 ^ 10), - (10 ^ 10), - (10 ^ 10)],
       surface = surface0, volume = volume0,
       nvert = 0, nnormal = 0, ntexcoord = 0, nface = 0, szgraph = 0,
       vert = None, normal = None, texcoord = None, face = None, facenormal = None,
       facetexcoord = None, graph = None, needhull = False,
       invalidorientation = (- 1, - 1),
       validarea = True, validvolume = True, valideigenvalue = True,
       validinequality = True, processed = False \<rparr>"

subsection \<open>CheckMesh and the accessors\<close>

definition err_orientation :: "mjCMesh \<Rightarrow> failure" where
  "err_orientation m = mjCError ''faces of mesh have inconsistent orientation''"

definition err_area :: failure where
  "err_area = mjCError ''mesh surface area is too small''"

definition err_volume :: failure where
  "err_volume = mjCError ''mesh volume is too small''"

definition err_eigenvalue :: failure where
  "err_eigenvalue = mjCError ''eigenvalue of mesh inertia must be positive''"

definition err_inequality :: failure where
  "err_inequality = mjCError ''eigenvalues of mesh inertia violate A + B >= C''"

definition CheckMesh :: "mjCMesh \<Rightarrow> unit result" where
  "CheckMesh m =
     (if \<not> processed m then Inr ()
      else if fst (invalidorientation m) \<ge> 0 \<or> snd (invalidorientation m) \<ge> 0
        then Inl (err_orientation m)
      else if \<not> validarea m then Inl err_area
      else if \<not> validvolume m then Inl err_volume
      else if \<not> valideigenvalue m then Inl err_eigenvalue
      else if \<not> validinequality m then Inl err_inequality
      else Inr ())"



subsection \<open>The convex hull graph\<close>

text \<open>
  The hull engine (Qhull) is outside the sources. What \<^verbatim>\<open>MakeGraph\<close> reads of
  its state after \<^verbatim>\<open>qh_qhull\<close>, \<^verbatim>\<open>qh_triangulate\<close> and
  \<^verbatim>\<open>qh_vertexneighbors\<close> is a record: the counters, the vertex list
  (\<^verbatim>\<open>FORALLvertices\<close>) and the facet list (\<^verbatim>\<open>FORALLfacets\<close>). A vertex
  appears as its point id (\<^verbatim>\<open>qh_pointid\<close>). The engine itself is a parameter:
  from the coordinates and the number of points it gives either the exit code
  of its \<^verbatim>\<open>longjmp\<close> (never 0) or its state.
\<close>

record facetT =
  vertices :: "int list"
  toporient :: bool

record vertexT =
  point :: int
  neighbors :: "facetT list"

record qhT =
  num_vertices :: int
  num_facets :: int
  vertex_list :: "vertexT list"
  facet_list :: "facetT list"

text \<open>
  The state of the loops that fill the graph: the flag \<^verbatim>\<open>ok\<close>, the cursor
  \<^verbatim>\<open>adr\<close> and the array \<^verbatim>\<open>graph\<close>. The four sub-arrays are offsets into
  \<^verbatim>\<open>graph\<close>; an index outside the allocated block is \<open>Undefined\<close>. A
  fresh block is modelled as filled with 0.
\<close>

definition mju_malloc :: "int \<Rightarrow> int list" where
  "mju_malloc n = replicate (nat n) 0"

definition edge_localid :: "int \<Rightarrow> int \<Rightarrow> int" where
  "edge_localid numvert j = 2 + 2 * numvert + j"

definition face_globalid :: "int \<Rightarrow> int \<Rightarrow> int \<Rightarrow> int" where
  "face_globalid numvert numface j = 2 + 3 * numvert + 3 * numface + j"

text \<open>
  The search \<^verbatim>\<open>for (j=start; j<adr; j++) if (pid1==edge_localid[j]) break;\<close>
  followed by \<^verbatim>\<open>j>=adr\<close>: true when \<^verbatim>\<open>pid1\<close> is not yet recorded.
\<close>

definition not_recorded :: "int list \<Rightarrow> int \<Rightarrow> int \<Rightarrow> int \<Rightarrow> int \<Rightarrow> bool" where
  "not_recorded g numvert start adr pid1 =
     (pid1 \<notin> set (take (nat (adr - start)) (drop (nat (edge_localid numvert start)) g)))"

text \<open>
  The loop over the vertices of one facet. The state is
  \<open>(cnt, ok, adr, graph)\<close>; an id out of range clears \<^verbatim>\<open>ok\<close> and leaves
  the loop (\<^verbatim>\<open>break\<close>).
\<close>

fun facet_vertices :: "int \<Rightarrow> int \<Rightarrow> int \<Rightarrow> int \<Rightarrow> int list \<Rightarrow>
    int \<times> bool \<times> int \<times> int list \<Rightarrow> (int \<times> bool \<times> int \<times> int list) result" where
  "facet_vertices nv numvert pid start [] st = Inr st"
| "facet_vertices nv numvert pid start (pid1 # rest) (cnt, ok, adr, g) =
     (if pid1 < 0 \<or> pid1 \<ge> nv then Inr (cnt + 1, False, adr, g)
      else if pid \<noteq> pid1 \<and> not_recorded g numvert start adr pid1 then
        bind (store g (edge_localid numvert adr) pid1)
          (\<lambda>g'. facet_vertices nv numvert pid start rest (cnt + 1, ok, adr + 1, g'))
      else facet_vertices nv numvert pid start rest (cnt + 1, ok, adr, g))"

text \<open>
  The loop over the neighbouring facets of one vertex; after each facet the
  count of its vertices is checked (\<^verbatim>\<open>SHOULD NOT OCCUR\<close>).
\<close>

fun vertex_facets :: "int \<Rightarrow> int \<Rightarrow> int \<Rightarrow> int \<Rightarrow> facetT list \<Rightarrow>
    bool \<times> int \<times> int list \<Rightarrow> (bool \<times> int \<times> int list) result" where
  "vertex_facets nv numvert pid start [] st = Inr st"
| "vertex_facets nv numvert pid start (facet # rest) (ok, adr, g) =
     bind (facet_vertices nv numvert pid start (vertices facet) (0, ok, adr, g))
       (\<lambda>(cnt, ok', adr', g').
          if cnt \<noteq> 3 then Inl (mju_error ''Qhull did not return triangle'')
          else vertex_facets nv numvert pid start rest (ok', adr', g'))"

text \<open>
  \<^verbatim>\<open>FORALLvertices\<close>. The state is \<open>(i, ok, adr, graph)\<close>; a vertex whose id
  is out of range clears \<^verbatim>\<open>ok\<close> and ends the loop.
\<close>

fun fill_vertices :: "int \<Rightarrow> int \<Rightarrow> vertexT list \<Rightarrow>
    int \<times> bool \<times> int \<times> int list \<Rightarrow> (bool \<times> int \<times> int list) result" where
  "fill_vertices nv numvert [] (i, ok, adr, g) = Inr (ok, adr, g)"
| "fill_vertices nv numvert (vertex # rest) (i, ok, adr, g) =
     (let pid = point vertex in
      if pid < 0 \<or> pid \<ge> nv then Inr (False, adr, g)
      else
        bind (store g (2 + i) adr) (\<lambda>g1.
        bind (store g1 (2 + numvert + i) pid) (\<lambda>g2.
        bind (vertex_facets nv numvert pid adr (neighbors vertex) (ok, adr, g2))
          (\<lambda>(ok', adr', g3).
        bind (store g3 (edge_localid numvert adr') (- 1)) (\<lambda>g4.
        fill_vertices nv numvert rest (i + 1, ok', adr' + 1, g4))))))"

text \<open>
  \<^verbatim>\<open>FORALLfacets\<close>: the triangles, with the first two corners exchanged
  when \<^verbatim>\<open>toporient\<close> is set.
\<close>

fun copy_triangle :: "int \<Rightarrow> int \<Rightarrow> int \<Rightarrow> int list \<Rightarrow> int list \<Rightarrow> nat \<Rightarrow> int list \<Rightarrow>
    int list result" where
  "copy_triangle numvert numface adr ind [] ii g = Inr g"
| "copy_triangle numvert numface adr ind (pid1 # rest) ii g =
     (if ii \<ge> 3 then Inl (mju_error ''Qhull did not return triangle'')
      else bind (store g (face_globalid numvert numface (adr + ind ! ii)) pid1)
             (copy_triangle numvert numface adr ind rest (ii + 1)))"

fun fill_facets :: "int \<Rightarrow> int \<Rightarrow> facetT list \<Rightarrow> int \<Rightarrow> int list \<Rightarrow> int list result" where
  "fill_facets numvert numface [] adr g = Inr g"
| "fill_facets numvert numface (facet # rest) adr g =
     bind (copy_triangle numvert numface adr
             (if toporient facet then [1, 0, 2] else [0, 1, 2]) (vertices facet) 0 g)
       (\<lambda>g'. fill_facets numvert numface rest (adr + 3) g')"

text \<open>
  The last loop replaces global ids by local ids in the edge data. It runs
  on the local pointers \<^verbatim>\<open>edge_localid\<close> and \<^verbatim>\<open>vert_globalid\<close>, also after
  the block they point into has been freed; \<open>freed\<close> says so, and every
  access is then \<open>Undefined\<close>.
\<close>

definition find_local :: "int list \<Rightarrow> int \<Rightarrow> int \<Rightarrow> int option" where
  "find_local g numvert gid =
     (case filter (\<lambda>adr. g ! nat (2 + numvert + adr) = gid) [0..numvert - 1] of
        [] \<Rightarrow> None | adr # _ \<Rightarrow> Some adr)"

fun replace_ids :: "bool \<Rightarrow> int \<Rightarrow> int list \<Rightarrow> int list \<Rightarrow> int list result" where
  "replace_ids freed numvert [] g = Inr g"
| "replace_ids freed numvert (i # rest) g =
     (if freed then Inl (Undefined ''read of freed graph'')
      else bind (load g (edge_localid numvert i)) (\<lambda>e.
        if e \<ge> 0 then
          (case find_local g numvert e of
             Some adr \<Rightarrow> bind (store g (edge_localid numvert i) adr) (replace_ids freed numvert rest)
           | None \<Rightarrow> Inl (mju_error ''Vertex id not found in convex hull''))
        else replace_ids freed numvert rest g))"

text \<open>
  The body of \<^verbatim>\<open>MakeGraph\<close> after a successful run of the engine, up to
  and including the block \<^verbatim>\<open>bad graph: delete\<close>. The result is the mesh, the
  array the local pointers refer to, whether it has been freed, and the
  warnings issued.
\<close>

definition warn_graph :: string where
  "warn_graph = ''Could not construct convex hull graph''"

definition build_graph :: "mjCMesh \<Rightarrow> qhT \<Rightarrow> (mjCMesh \<times> int list \<times> bool \<times> string list) result" where
  "build_graph m qh =
     (let numvert = num_vertices qh; numface = num_facets qh;
          sz = 2 + 3 * numvert + 6 * numface;
          g0 = mju_malloc sz in
      bind (store g0 0 numvert) (\<lambda>g1.
      bind (store g1 1 numface) (\<lambda>g2.
      bind (fill_vertices (nvert m) numvert (vertex_list qh) (0, True, 0, g2)) (\<lambda>(ok, adr, g3).
      if adr \<noteq> numvert + 3 * numface then Inl (mju_error ''Wrong size in convex hull graph'')
      else
      bind (fill_facets numvert numface (facet_list qh) 0 g3) (\<lambda>g4.
      if \<not> ok then Inr (m\<lparr>szgraph := 0, graph := None\<rparr>, g4, True, [warn_graph])
      else Inr (m\<lparr>szgraph := sz, graph := Some g4\<rparr>, g4, False, []))))))"

text \<open>
  \<^verbatim>\<open>MakeGraph\<close>. The result is the mesh and the warnings issued. In the
  handler of the engine's \<^verbatim>\<open>longjmp\<close> the structured error is thrown.
\<close>

definition MakeGraph :: "(real list \<Rightarrow> int \<Rightarrow> int + qhT) \<Rightarrow> mjCMesh \<Rightarrow> (mjCMesh \<times> string list) result" where
  "MakeGraph engine m =
     (if nvert m < 4 then Inr (m, [])
      else case vert m of
        None \<Rightarrow> Inl (Undefined ''read of null vert'')
      | Some v \<Rightarrow>
         (if int (length v) < 3 * nvert m then Inl (Undefined ''read out of bounds'')
          else case engine (take (nat (3 * nvert m)) v) (nvert m) of
            Inl exitcode \<Rightarrow> Inl (mjCError ''qhull error'')
          | Inr qh \<Rightarrow>
              bind (build_graph m qh) (\<lambda>(m', g, freed, warnings).
              bind (replace_ids freed (num_vertices qh)
                      [0..num_vertices qh + 3 * num_facets qh - 1] g) (\<lambda>g'.
              Inr (if freed then m' else m'\<lparr>graph := Some g'\<rparr>, warnings)))))"

text \<open>\<^verbatim>\<open>CopyGraph\<close>: the faces of the hull become the faces of the mesh.\<close>

definition CopyGraph :: "mjCMesh \<Rightarrow> mjCMesh result" where
  "CopyGraph m =
     (case face m of
        Some f \<Rightarrow> Inr m
      | None \<Rightarrow>
         (case graph m of
            None \<Rightarrow> Inl (Undefined ''read of null graph'')
          | Some g \<Rightarrow>
              bind (load g 0) (\<lambda>numvert.
              bind (load g 1) (\<lambda>nf.
              if int (length g) < 2 + 3 * numvert + 6 * nf \<or> numvert < 0 \<or> nf < 0
              then Inl (Undefined ''read out of bounds'')
              else Inr (m\<lparr>nface := nf,
                          face := Some (take (nat (3 * nf))
                                    (drop (nat (2 + 3 * numvert + 3 * nf)) g))\<rparr>)))))"

subsection \<open>The collaborators outside the sources\<close>

text \<open>
  What the mesh compiler takes from the model (\<^verbatim>\<open>mjCModel\<close>,
  \<^verbatim>\<open>def->geom.density\<close>) and from the libraries it calls, none of which are
  in the sources, is a parameter: a record of the model's options and of the
  functions called.
  \<^item> \<open>files\<close>: the buffer found for a file name, in the virtual file system
    or on disk (\<^verbatim>\<open>mjuu_makefullname\<close>, \<^verbatim>\<open>mj_findFileVFS\<close>,
    \<^verbatim>\<open>mju_fileToMemory\<close>); \<open>None\<close> when there is none.
  \<^item> \<open>ObjReader\<close>: the result of \<^verbatim>\<open>tinyobj::ObjReader\<close> on a file name.
  \<^item> \<open>mjQUICKSORT\<close>: the sorting macro, from a comparison and an array.
  \<^item> \<open>qhull\<close>: the hull engine.
  \<^item> the numeric routines \<^verbatim>\<open>mju_normalize3\<close>, \<^verbatim>\<open>mju_normalize4\<close>,
    \<^verbatim>\<open>mju_quat2Mat\<close>, \<^verbatim>\<open>mju_rotVecMatT\<close>, \<^verbatim>\<open>mju_eig3\<close>,
    \<^verbatim>\<open>mjuu_quat2mat\<close>, \<^verbatim>\<open>mjuu_mulvecmat\<close>.
  \<^item> \<open>FindObject\<close>: the id of the body or material of a name in the model, or
    \<open>None\<close> for the null pointer.
\<close>

type_synonym byte = "8 word"
type_synonym quat = "real \<times> real \<times> real \<times> real"

record index_t =
  vertex_index :: int
  normal_index :: int
  texcoord_index :: int

record mesh_t =
  indices :: "index_t list"
  num_face_vertices :: "int list"

record ObjReader =
  Valid :: bool
  attrib_vertices :: "real list"
  attrib_normals :: "real list"
  attrib_texcoords :: "real list"
  GetShapes :: "mesh_t list"

datatype mjtObj = mjOBJ_BODY | mjOBJ_MATERIAL

record env =
  strippath :: bool
  convexhull :: bool
  exactmeshinertia :: bool
  density :: real
  mjuu_strippath :: "string \<Rightarrow> string"
  mjuu_getext :: "string \<Rightarrow> string"
  files :: "string \<Rightarrow> byte list option"
  ParseFromFile :: "string \<Rightarrow> ObjReader"
  mjQUICKSORT :: "(int \<Rightarrow> int \<Rightarrow> int) \<Rightarrow> int list \<Rightarrow> int list"
  qhull :: "real list \<Rightarrow> int \<Rightarrow> int + qhT"
  mju_normalize3 :: "vec3 \<Rightarrow> vec3 \<times> real"
  mju_normalize4 :: "quat \<Rightarrow> quat"
  mju_quat2Mat :: "quat \<Rightarrow> real list"
  mju_rotVecMatT :: "vec3 \<Rightarrow> real list \<Rightarrow> vec3"
  mju_eig3 :: "real list \<Rightarrow> vec3 \<times> real list \<times> quat"
  mjuu_quat2mat :: "quat \<Rightarrow> real list"
  mjuu_mulvecmat :: "vec3 \<Rightarrow> real list \<Rightarrow> vec3"
  FindObject :: "mjtObj \<Rightarrow> string \<Rightarrow> int option"

subsection \<open>Reading binary data\<close>

text \<open>
  The host is little-endian. \<open>u32_at\<close> is the unsigned 32-bit value at a
  byte offset, \<open>s32\<close> its reading as a C \<^verbatim>\<open>int\<close>, and \<open>float_val\<close> its
  reading as an IEEE 754 single: sign, 8 bits of exponent, 23 bits of
  fraction. An exponent of 255 is an infinity (fraction 0) or a NaN.
\<close>

definition u32_at :: "byte list \<Rightarrow> nat \<Rightarrow> nat" where
  "u32_at buf off =
     unat (buf ! off) + 256 * unat (buf ! (off + 1)) + 65536 * unat (buf ! (off + 2))
       + 16777216 * unat (buf ! (off + 3))"

definition s32 :: "nat \<Rightarrow> int" where
  "s32 n = (if n < 2 ^ 31 then int n else int n - 2 ^ 32)"

definition float_exponent :: "nat \<Rightarrow> nat" where
  "float_exponent w = (w div 2 ^ 23) mod 256"

definition float_fraction :: "nat \<Rightarrow> nat" where
  "float_fraction w = w mod 2 ^ 23"

definition float_isnan :: "nat \<Rightarrow> bool" where
  "float_isnan w = (float_exponent w = 255 \<and> float_fraction w \<noteq> 0)"

definition float_isinf :: "nat \<Rightarrow> bool" where
  "float_isinf w = (float_exponent w = 255 \<and> float_fraction w = 0)"

definition float_val :: "nat \<Rightarrow> real" where
  "float_val w =
     (let e = float_exponent w; f = float_fraction w;
          mag = (if e = 0 then real f / 2 ^ 149
                 else if e < 150 then real (2 ^ 23 + f) / 2 ^ (150 - e)
                 else real (2 ^ 23 + f) * 2 ^ (e - 150))
      in if w div 2 ^ 31 mod 2 = 1 then - mag else mag)"

text \<open>Three consecutive floats of an array, as \<^verbatim>\<open>vert+3*i\<close> is read.\<close>

definition load3 :: "real list \<Rightarrow> int \<Rightarrow> vec3 result" where
  "load3 a i =
     (if 0 \<le> i \<and> 3 * i + 2 < int (length a)
      then Inr (a ! nat (3 * i), a ! nat (3 * i + 1), a ! nat (3 * i + 2))
      else Inl (Undefined ''read out of bounds''))"

definition store3 :: "real list \<Rightarrow> int \<Rightarrow> vec3 \<Rightarrow> real list result" where
  "store3 a i v =
     (if 0 \<le> i \<and> 3 * i + 2 < int (length a)
      then Inr (case v of (x, y, z) \<Rightarrow>
                  a[nat (3 * i) := x, nat (3 * i + 1) := y, nat (3 * i + 2) := z])
      else Inl (Undefined ''write out of bounds''))"

subsection \<open>Single precision arithmetic\<close>

text \<open>
  The value of a \<^verbatim>\<open>float\<close> operation is the exact result rounded to the
  nearest IEEE 754 single, ties to the even significand (the default rounding
  mode, with \<^verbatim>\<open>FLT_EVAL_METHOD\<close> 0). \<open>float32_exponent x\<close> is the exponent
  \<open>e\<close> of the binade of \<open>x\<close>, the greatest \<open>e\<close> from \<open>-126\<close> to \<open>127\<close> with
  \<open>2^e \<le> \<bar>x\<bar>\<close>, and \<open>-126\<close> for the subnormal numbers; the singles of
  that binade are the multiples of \<open>2^(e - 23)\<close>. A result beyond the
  greatest single is an infinity, which is outside this model.
\<close>

definition pow2 :: "int \<Rightarrow> real" where
  "pow2 e = (if 0 \<le> e then 2 ^ nat e else 1 / 2 ^ nat (- e))"

fun float32_search :: "nat \<Rightarrow> real \<Rightarrow> int" where
  "float32_search 0 a = - 126"
| "float32_search (Suc n) a =
     (if pow2 (int (Suc n) - 126) \<le> a then int (Suc n) - 126 else float32_search n a)"

definition float32_exponent :: "real \<Rightarrow> int" where
  "float32_exponent x = float32_search 253 \<bar>x\<bar>"

definition round_even :: "real \<Rightarrow> int" where
  "round_even q =
     (let f = \<lfloor>q\<rfloor> in
      if q - of_int f < 1 / 2 then f
      else if q - of_int f > 1 / 2 then f + 1
      else if even f then f else f + 1)"

definition float32_round :: "real \<Rightarrow> real" where
  "float32_round x =
     (let u = pow2 (float32_exponent x - 23) in of_int (round_even (x / u)) * u)"

subsection \<open>Handedness\<close>

text \<open>\<^verbatim>\<open>bool righthand = (scale[0]*scale[1]*scale[2] > 0)\<close>\<close>

definition righthand :: "mjCMesh \<Rightarrow> bool" where
  "righthand m = (case scale m of (s0, s1, s2) \<Rightarrow> s0 * s1 * s2 > 0)"

subsection \<open>RemoveRepeated\<close>

text \<open>\<^verbatim>\<open>vertcompare\<close>: the order of two vertex indices by a one-dimensional key.\<close>

definition vertkey :: "real list \<Rightarrow> int \<Rightarrow> real" where
  "vertkey v i = v ! nat (3 * i) + (1 / 100) * v ! nat (1 + 3 * i) + (1 / 10000) * v ! nat (2 + 3 * i)"

definition vertcompare :: "real list \<Rightarrow> int \<Rightarrow> int \<Rightarrow> int" where
  "vertcompare v el1 el2 =
     (if vertkey v el1 < vertkey v el2 then - 1
      else if vertkey v el1 = vertkey v el2 then 0 else 1)"

text \<open>
  The scan of the sorted indices: \<^verbatim>\<open>redirect[index[i]] = index[i-1]\<close> where
  the two vertices are equal. The state is \<open>(redirect, repeated)\<close>.
\<close>

fun find_repeated :: "real list \<Rightarrow> int list \<Rightarrow> int list \<Rightarrow> int list \<times> int \<Rightarrow>
    (int list \<times> int) result" where
  "find_repeated v index [] st = Inr st"
| "find_repeated v index (i # rest) (redirect, repeated) =
     bind (load index i) (\<lambda>a.
     bind (load index (i - 1)) (\<lambda>b.
     bind (load3 v a) (\<lambda>va.
     bind (load3 v b) (\<lambda>vb.
       if va = vb then
         bind (store redirect a b) (\<lambda>redirect'.
           find_repeated v index rest (redirect', repeated + 1))
       else find_repeated v index rest (redirect, repeated)))))"

text \<open>
  \<^verbatim>\<open>while (redirect[j]!=j) j = redirect[j];\<close> The loop ends only at a fixed
  point, which a chain of indices below \<open>n\<close> reaches within \<open>n\<close> steps or
  never; with \<open>n + 1\<close> steps of fuel, running out of fuel is the loop that
  does not end.
\<close>

fun follow_redirect :: "nat \<Rightarrow> int list \<Rightarrow> int \<Rightarrow> int result" where
  "follow_redirect 0 redirect j = Inl Diverges"
| "follow_redirect (Suc fuel) redirect j =
     bind (load redirect j) (\<lambda>r.
       if r \<noteq> j then follow_redirect fuel redirect r else Inr j)"

fun track_redirect :: "int list \<Rightarrow> int list \<Rightarrow> int list result" where
  "track_redirect [] redirect = Inr redirect"
| "track_redirect (i # rest) redirect =
     bind (follow_redirect (Suc (length redirect)) redirect i) (\<lambda>j.
     bind (store redirect i j) (track_redirect rest))"

text \<open>The compression of the vertices; the state is \<open>(j, index, vert)\<close>.\<close>

fun compress_vert :: "int list \<Rightarrow> int list \<Rightarrow> int \<times> int list \<times> real list \<Rightarrow>
    (int \<times> int list \<times> real list) result" where
  "compress_vert redirect [] st = Inr st"
| "compress_vert redirect (i # rest) (j, index, v) =
     bind (load redirect i) (\<lambda>r.
       if r = i then
         bind (store index i j) (\<lambda>index'.
         bind (load3 v i) (\<lambda>vi.
         bind (store3 v j vi) (\<lambda>v'.
           compress_vert redirect rest (j + 1, index', v'))))
       else
         bind (store index i (- 1)) (\<lambda>index'.
           compress_vert redirect rest (j, index', v)))"

fun redirect_faces :: "int list \<Rightarrow> int list \<Rightarrow> int \<Rightarrow> int list \<Rightarrow> int list \<Rightarrow> int list result" where
  "redirect_faces redirect index bound [] f = Inr f"
| "redirect_faces redirect index bound (i # rest) f =
     bind (load f i) (\<lambda>old.
     bind (load redirect old) (\<lambda>r.
     bind (load index r) (\<lambda>new.
     bind (store f i new) (\<lambda>f'.
       if new < 0 \<or> new \<ge> bound then Inl (mjCError ''error removing vertices from mesh'')
       else redirect_faces redirect index bound rest f'))))"

definition RemoveRepeated :: "env \<Rightarrow> mjCMesh \<Rightarrow> mjCMesh result" where
  "RemoveRepeated env m =
     (case (vert m, face m) of
        (Some v, Some f) \<Rightarrow>
          if int (length v) < 3 * nvert m then Inl (Undefined ''read out of bounds'')
          else
          let n = nvert m;
              index = mjQUICKSORT env (vertcompare v) [0..n - 1];
              redirect = [0..n - 1] in
          bind (find_repeated v index [1..n - 1] (redirect, 0)) (\<lambda>(redirect1, repeated).
            if repeated \<noteq> 0 then
              bind (track_redirect [0..n - 1] redirect1) (\<lambda>redirect2.
              bind (compress_vert redirect2 [0..n - 1] (0, index, v)) (\<lambda>(j, index', v').
              bind (redirect_faces redirect2 index' (n - repeated) [0..3 * nface m - 1] f)
                (\<lambda>f'.
                  Inr (m\<lparr>nvert := n - repeated,
                         vert := Some (take (nat (3 * (n - repeated))) v'),
                         face := Some f'\<rparr>))))
            else Inr m)
      | _ \<Rightarrow> Inl (Undefined ''read of null pointer''))"

subsection \<open>The STL loader\<close>

text \<open>
  The checks on the three coordinates of one vertex, given as their bit
  patterns: first \<^verbatim>\<open>isnan\<close> or \<^verbatim>\<open>isinf\<close>, then the bound \<open>2^30\<close>.
\<close>

fun stl_check :: "nat list \<Rightarrow> unit result" where
  "stl_check [] = Inr ()"
| "stl_check (w # ws) =
     (if float_isnan w \<or> float_isinf w
        then Inl (mjCError ''STL file contains invalid vertices.'')
      else if \<bar>float_val w\<bar> > 2 ^ 30
        then Inl (mjCError ''vertex coordinates in STL file exceed maximum bounds'')
      else stl_check ws)"

definition stl_words :: "byte list \<Rightarrow> nat \<Rightarrow> nat \<Rightarrow> nat list" where
  "stl_words buffer i j = map (\<lambda>k. u32_at buffer (84 + 50 * i + 12 * (j + 1) + 4 * k)) [0, 1, 2]"

text \<open>
  One corner \<open>j\<close> of triangle \<open>i\<close>; the state is \<open>(nvert, face, vert)\<close>. The
  vertex is stored at the end; its index goes to corner \<open>j\<close> of the face, or
  to corner \<open>3 - j\<close> when the scale is left-handed and \<open>j\<close> is not 0.
\<close>

definition stl_corner :: "bool \<Rightarrow> byte list \<Rightarrow> nat \<Rightarrow> nat \<Rightarrow> int \<times> int list \<times> real list \<Rightarrow>
    (int \<times> int list \<times> real list) result" where
  "stl_corner rh buffer i j st =
     (case st of (nv, f, v) \<Rightarrow>
        let ws = stl_words buffer i j in
        bind (stl_check ws) (\<lambda>_.
        bind (store f (if rh \<or> j = 0 then int (3 * i + j) else int (3 * i + 3 - j)) nv) (\<lambda>f'.
        bind (store3 v nv (float_val (ws ! 0), float_val (ws ! 1), float_val (ws ! 2))) (\<lambda>v'.
          Inr (nv + 1, f', v')))))"

fun stl_corners :: "bool \<Rightarrow> byte list \<Rightarrow> nat \<Rightarrow> nat list \<Rightarrow> int \<times> int list \<times> real list \<Rightarrow>
    (int \<times> int list \<times> real list) result" where
  "stl_corners rh buffer i [] st = Inr st"
| "stl_corners rh buffer i (j # js) st =
     bind (stl_corner rh buffer i j st) (stl_corners rh buffer i js)"

fun stl_faces :: "bool \<Rightarrow> byte list \<Rightarrow> nat list \<Rightarrow> int \<times> int list \<times> real list \<Rightarrow>
    (int \<times> int list \<times> real list) result" where
  "stl_faces rh buffer [] st = Inr st"
| "stl_faces rh buffer (i # is) st =
     bind (stl_corners rh buffer i [0, 1, 2] st) (stl_faces rh buffer is)"

text \<open>
  The loader up to the call of \<^verbatim>\<open>RemoveRepeated\<close>: the checks of the
  buffer and the naive copy of the vertices.
\<close>

definition stl_read :: "env \<Rightarrow> mjCMesh \<Rightarrow> mjCMesh result" where
  "stl_read env m =
     (case files env (meshfile m) of
        None \<Rightarrow> Inl (mjCError ''could not open STL file'')
      | Some buffer \<Rightarrow>
          let buffer_sz = int (length buffer) in
          if buffer_sz = 0 then Inl (mjCError ''STL file is empty'')
          else if buffer_sz < 84 then Inl (mjCError ''invalid header in STL file'')
          else
            let nf = s32 (u32_at buffer 80) in
            if nf < 1 \<or> nf > 200000
              then Inl (mjCError ''number of faces should be between 1 and 200000 in STL file'')
            else if nf * 50 \<noteq> buffer_sz - 84
              then Inl (mjCError ''STL file has wrong size'')
            else
              bind (stl_faces (righthand m) buffer [0..<nat nf]
                      (nvert m, mju_malloc (3 * nf), replicate (nat (9 * nf)) 0))
                (\<lambda>(nv, f, v).
                   Inr (m\<lparr>nface := nf, nvert := nv, face := Some f, vert := Some v\<rparr>)))"

definition LoadSTL :: "env \<Rightarrow> mjCMesh \<Rightarrow> mjCMesh result" where
  "LoadSTL env m = bind (stl_read env m) (RemoveRepeated env)"

subsection \<open>The MSH loader\<close>

text \<open>
  Products such as \<^verbatim>\<open>3*nvert\<close> are computed in 32-bit signed integers
  before they are converted to \<^verbatim>\<open>size_t\<close>; an overflow there is undefined.
\<close>

definition INT_MAX :: int where
  "INT_MAX = 2 ^ 31 - 1"

text \<open>
  \<^verbatim>\<open>memcpy\<close> of \<open>n\<close> 32-bit words at byte offset \<open>off\<close> of the buffer. Reading
  past the end of the buffer is \<open>Undefined\<close>.
\<close>

definition copy_words :: "byte list \<Rightarrow> int \<Rightarrow> int \<Rightarrow> nat list result" where
  "copy_words buffer off n =
     (if 0 \<le> off \<and> 0 \<le> n \<and> off + 4 * n \<le> int (length buffer)
      then Inr (map (\<lambda>k. u32_at buffer (nat off + 4 * k)) [0..<nat n])
      else Inl (Undefined ''read out of bounds''))"

text \<open>The exchange of the second and third index of every face.\<close>

fun swap_faces :: "int list \<Rightarrow> int list \<Rightarrow> int list result" where
  "swap_faces [] f = Inr f"
| "swap_faces (i # rest) f =
     bind (load f (3 * i + 1)) (\<lambda>tmp.
     bind (load f (3 * i + 2)) (\<lambda>x.
     bind (store f (3 * i + 1) x) (\<lambda>f1.
     bind (store f1 (3 * i + 2) tmp) (swap_faces rest))))"

text \<open>
  The header: four \<^verbatim>\<open>int\<close>, checked one against the other and against
  the size of the buffer. The result is \<open>(nvert, nnormal, ntexcoord, nface)\<close>.
\<close>

definition msh_header :: "byte list \<Rightarrow> (int \<times> int \<times> int \<times> int) result" where
  "msh_header buffer =
     (let buffer_sz = int (length buffer) in
      if buffer_sz = 0 then Inl (mjCError ''MSH file is empty'')
      else if buffer_sz < 16 then Inl (mjCError ''missing header in MSH file'')
      else
        let nv = s32 (u32_at buffer 0); nn = s32 (u32_at buffer 4);
            nt = s32 (u32_at buffer 8); nf = s32 (u32_at buffer 12) in
        if nv < 4 \<or> nf < 0 \<or> nn < 0 \<or> nt < 0 \<or> (nn > 0 \<and> nn \<noteq> nv) \<or> (nt > 0 \<and> nt \<noteq> nv)
          then Inl (mjCError ''invalid sizes in MSH file'')
        else if 3 * nv > INT_MAX \<or> 3 * nf > INT_MAX
          then Inl (Undefined ''signed integer overflow'')
        else if buffer_sz \<noteq> 16 + 3 * nv * 4 + 3 * nn * 4 + 2 * nt * 4 + 3 * nf * 4
          then Inl (mjCError ''unexpected file size in MSH file'')
        else Inr (nv, nn, nt, nf))"

text \<open>
  The copies, block by block. The state is the mesh and the byte offset of
  \<^verbatim>\<open>fdata\<close> in the buffer; the offset is not advanced after the faces.
\<close>

definition msh_vert :: "byte list \<Rightarrow> int \<Rightarrow> mjCMesh \<Rightarrow> (mjCMesh \<times> int) result" where
  "msh_vert buffer nv m =
     bind (copy_words buffer 16 (3 * nv)) (\<lambda>wv.
       Inr (m\<lparr>vert := Some (map float_val wv)\<rparr>, 16 + 4 * (3 * nv)))"

definition msh_normal :: "byte list \<Rightarrow> int \<Rightarrow> int \<Rightarrow> mjCMesh \<times> int \<Rightarrow> (mjCMesh \<times> int) result" where
  "msh_normal buffer nv nn st =
     (case st of (m, fdata) \<Rightarrow>
        if nn \<noteq> 0 then
          bind (copy_words buffer fdata (3 * nv)) (\<lambda>wn.
            Inr (m\<lparr>normal := Some (map float_val wn)\<rparr>, fdata + 4 * (3 * nv)))
        else Inr (m, fdata))"

definition msh_texcoord :: "byte list \<Rightarrow> int \<Rightarrow> int \<Rightarrow> mjCMesh \<times> int \<Rightarrow> (mjCMesh \<times> int) result" where
  "msh_texcoord buffer nv nt st =
     (case st of (m, fdata) \<Rightarrow>
        if nt \<noteq> 0 then
          bind (copy_words buffer fdata (2 * nv)) (\<lambda>wt.
            Inr (m\<lparr>texcoord := Some (map float_val wt)\<rparr>, fdata + 4 * (2 * nv)))
        else Inr (m, fdata))"

definition msh_face :: "byte list \<Rightarrow> int \<Rightarrow> mjCMesh \<times> int \<Rightarrow> (mjCMesh \<times> int) result" where
  "msh_face buffer nf st =
     (case st of (m, fdata) \<Rightarrow>
        if nf \<noteq> 0 then
          bind (copy_words buffer fdata (3 * nf)) (\<lambda>wf.
            Inr (m\<lparr>face := Some (map s32 wf), facenormal := Some (map s32 wf)\<rparr>, fdata))
        else Inr (m, fdata))"

definition msh_facetexcoord :: "byte list \<Rightarrow> int \<Rightarrow> mjCMesh \<times> int \<Rightarrow> mjCMesh result" where
  "msh_facetexcoord buffer nf st =
     (case st of (m, fdata) \<Rightarrow>
        if nf \<noteq> 0 \<and> texcoord m \<noteq> None then
          bind (copy_words buffer fdata (3 * nf)) (\<lambda>wf.
            Inr (m\<lparr>facetexcoord := Some (map s32 wf)\<rparr>))
        else Inr m)"

text \<open>\<^verbatim>\<open>rearange face data if left-handed scaling\<close>\<close>

definition msh_lefthanded :: "bool \<Rightarrow> int \<Rightarrow> mjCMesh \<Rightarrow> mjCMesh result" where
  "msh_lefthanded rh nf m =
     (if nf \<noteq> 0 \<and> \<not> rh then
        (case face m of
           None \<Rightarrow> Inl (Undefined ''read of null pointer'')
         | Some f \<Rightarrow> bind (swap_faces [0..nf - 1] f) (\<lambda>f'. Inr (m\<lparr>face := Some f'\<rparr>)))
      else Inr m)"

definition LoadMSH :: "env \<Rightarrow> mjCMesh \<Rightarrow> mjCMesh result" where
  "LoadMSH env m =
     (case files env (meshfile m) of
        None \<Rightarrow> Inl (mjCError ''could not open MSH file'')
      | Some buffer \<Rightarrow>
          bind (msh_header buffer) (\<lambda>(nv, nn, nt, nf).
          bind (msh_vert buffer nv (m\<lparr>nvert := nv, nnormal := nn, ntexcoord := nt, nface := nf\<rparr>))
            (\<lambda>s1.
          bind (msh_normal buffer nv nn s1) (\<lambda>s2.
          bind (msh_texcoord buffer nv nt s2) (\<lambda>s3.
          bind (msh_face buffer nf s3) (\<lambda>s4.
          bind (msh_facetexcoord buffer nf s4) (msh_lefthanded (righthand m) nf)))))))"

subsection \<open>The OBJ loader\<close>

text \<open>
  The loop over the faces of the first shape. Each face has three or four
  vertices; a quad gives two triangles. The arguments are what remains of
  \<^verbatim>\<open>num_face_vertices\<close> (from \<^verbatim>\<open>face\<close>) and of \<^verbatim>\<open>indices\<close> (from
  \<^verbatim>\<open>idx\<close>).
\<close>

fun obj_faces :: "bool \<Rightarrow> int list \<Rightarrow> index_t list \<Rightarrow> index_t list result" where
  "obj_faces rh nfvs [] = Inr []"
| "obj_faces rh [] (x # xs) = Inl (Undefined ''read out of bounds'')"
| "obj_faces rh (nfacevert # nfvs) (x # xs) =
     (let ids = x # xs in
      if nfacevert < 3 \<or> nfacevert > 4
        then Inl (mjCError ''only tri or quad meshes are supported for OBJ'')
      else if int (length ids) < nfacevert then Inl (Undefined ''read out of bounds'')
      else
        bind (obj_faces rh nfvs (drop (nat nfacevert) ids)) (\<lambda>later.
          Inr ([ids ! 0, ids ! (if rh then 1 else 2), ids ! (if rh then 2 else 1)]
               @ (if nfacevert = 4
                  then [ids ! 0, ids ! (if rh then 2 else 3), ids ! (if rh then 3 else 2)]
                  else [])
               @ later)))"

text \<open>The edges of the triangles whose area is more than \<open>sqrt mjMINVAL\<close>.\<close>

definition edges_of :: "int \<Rightarrow> int \<Rightarrow> int \<Rightarrow> (int \<times> int) list" where
  "edges_of v0 v1 v2 = [(v0, v1), (v1, v2), (v2, v0)]"

fun obj_edges :: "real list \<Rightarrow> index_t list \<Rightarrow> (int \<times> int) list \<Rightarrow> (int \<times> int) list result" where
  "obj_edges uv (a # b # c # rest) es =
     bind (load3 uv (vertex_index a)) (\<lambda>v0.
     bind (load3 uv (vertex_index b)) (\<lambda>v1.
     bind (load3 uv (vertex_index c)) (\<lambda>v2.
       if fst (triangle v0 v1 v2) > sqrt mjMINVAL
       then obj_edges uv rest (es @ edges_of (vertex_index a) (vertex_index b) (vertex_index c))
       else obj_edges uv rest es)))"
| "obj_edges uv rest es = Inr es"

text \<open>
  \<^verbatim>\<open>for (int i=1; i<usertexcoord.size()/2; i++)
    usertexcoord[2*i+1] = 1-usertexcoord[2*i+1];\<close>
  The vector holds \<^verbatim>\<open>float\<close>: the difference is a \<^verbatim>\<open>float\<close> subtraction.
\<close>

definition flip_texcoord :: "real list \<Rightarrow> real list" where
  "flip_texcoord tc =
     fold (\<lambda>i t. t[2 * i + 1 := float32_round (1 - t ! (2 * i + 1))]) [1..<length tc div 2] tc"

definition LoadOBJ :: "env \<Rightarrow> mjCMesh \<Rightarrow> mjCMesh result" where
  "LoadOBJ env m =
     (let objReader = ParseFromFile env (meshfile m) in
      if \<not> Valid objReader then Inl (mjCError ''could not parse OBJ file'')
      else
        let m1 = m\<lparr>uservert := attrib_vertices objReader,
                   usernormal := attrib_normals objReader,
                   usertexcoord := attrib_texcoords objReader\<rparr> in
        bind (case GetShapes objReader of
                [] \<Rightarrow> Inr m1
              | shape # _ \<Rightarrow>
                  bind (obj_faces (righthand m) (num_face_vertices shape) (indices shape))
                    (\<lambda>face_indices.
                  let m2 = m1\<lparr>userface := userface m1 @ map vertex_index face_indices,
                             userfacenormal :=
                               (if usernormal m1 \<noteq> []
                                then userfacenormal m1 @ map normal_index face_indices
                                else userfacenormal m1),
                             userfacetexcoord :=
                               (if usertexcoord m1 \<noteq> []
                                then userfacetexcoord m1 @ map texcoord_index face_indices
                                else userfacetexcoord m1)\<rparr> in
                  bind (obj_edges (uservert m1) face_indices (useredge m1)) (\<lambda>es.
                    Inr (m2\<lparr>useredge := es\<rparr>))))
          (\<lambda>m3. Inr (m3\<lparr>usertexcoord := flip_texcoord (usertexcoord m3)\<rparr>)))"

subsection \<open>Compile: loading and staging\<close>

text \<open>\<^verbatim>\<open>strcasecmp\<close> is 0 when the two strings are equal up to the case of letters.\<close>

definition to_lower :: "char \<Rightarrow> char" where
  "to_lower c = (if 65 \<le> (of_char c :: nat) \<and> (of_char c :: nat) \<le> 90
                 then char_of ((of_char c :: nat) + 32) else c)"

definition strcasecmp :: "string \<Rightarrow> string \<Rightarrow> bool" where
  "strcasecmp a b = (map to_lower a \<noteq> map to_lower b)"

definition load_file :: "env \<Rightarrow> mjCMesh \<Rightarrow> mjCMesh result" where
  "load_file env m =
     (if meshfile m \<noteq> [] then
        let m' = (if strippath env then m\<lparr>meshfile := mjuu_strippath env (meshfile m)\<rparr> else m);
            ext = mjuu_getext env (meshfile m') in
        if \<not> strcasecmp ext ''.stl'' then LoadSTL env m'
        else if \<not> strcasecmp ext ''.obj'' then LoadOBJ env m'
        else if \<not> strcasecmp ext ''.msh'' then LoadMSH env m'
        else Inl (mjCError ''Unknown mesh file type'')
      else Inr m)"

text \<open>
  \<^verbatim>\<open>VecToArray(vector, !file.empty())\<close> copies the vector and clears it when
  the data came from a file; \<open>cleared m xs\<close> is the vector afterwards.
\<close>

definition cleared :: "mjCMesh \<Rightarrow> 'a list \<Rightarrow> 'a list" where
  "cleared m xs = (if meshfile m \<noteq> [] then [] else xs)"

definition copy_uservert :: "mjCMesh \<Rightarrow> mjCMesh result" where
  "copy_uservert m =
     (if uservert m \<noteq> [] then
        if vert m \<noteq> None then Inl (mjCError ''repeated vertex specification'')
        else if length (uservert m) < 12 then Inl (mjCError ''at least 4 verices required'')
        else if length (uservert m) mod 3 \<noteq> 0
          then Inl (mjCError ''vertex data must be a multiple of 3'')
        else Inr (m\<lparr>nvert := int (length (uservert m)) div 3, vert := Some (uservert m),
                    uservert := cleared m (uservert m)\<rparr>)
      else Inr m)"

definition copy_usernormal :: "mjCMesh \<Rightarrow> mjCMesh result" where
  "copy_usernormal m =
     (if usernormal m \<noteq> [] then
        if normal m \<noteq> None then Inl (mjCError ''repeated normal specification'')
        else if length (usernormal m) mod 3 \<noteq> 0
          then Inl (mjCError ''normal data must be a multiple of 3'')
        else Inr (m\<lparr>nnormal := int (length (usernormal m)) div 3, normal := Some (usernormal m),
                    usernormal := cleared m (usernormal m)\<rparr>)
      else Inr m)"

definition copy_usertexcoord :: "mjCMesh \<Rightarrow> mjCMesh result" where
  "copy_usertexcoord m =
     (if usertexcoord m \<noteq> [] then
        if texcoord m \<noteq> None then Inl (mjCError ''repeated texcoord specification'')
        else if length (usertexcoord m) mod 2 \<noteq> 0
          then Inl (mjCError ''texcoord must be a multiple of 2'')
        else Inr (m\<lparr>ntexcoord := int (length (usertexcoord m)) div 2,
                    texcoord := Some (usertexcoord m),
                    usertexcoord := cleared m (usertexcoord m)\<rparr>)
      else Inr m)"

text \<open>
  The half-edges of the faces given in XML. The loop reads \<^verbatim>\<open>userface\<close>
  after \<^verbatim>\<open>VecToArray\<close>, that is, the cleared vector when there is a file.
\<close>

fun face_edges :: "real list \<Rightarrow> int list \<Rightarrow> int list \<Rightarrow> (int \<times> int) list \<Rightarrow>
    (int \<times> int) list result" where
  "face_edges v uf [] es = Inr es"
| "face_edges v uf (i # rest) es =
     bind (load uf (3 * i)) (\<lambda>v0.
     bind (load uf (3 * i + 1)) (\<lambda>v1.
     bind (load uf (3 * i + 2)) (\<lambda>v2.
     bind (load3 v v0) (\<lambda>p0.
     bind (load3 v v1) (\<lambda>p1.
     bind (load3 v v2) (\<lambda>p2.
       if fst (triangle p0 p1 p2) > sqrt mjMINVAL
       then face_edges v uf rest (es @ edges_of v0 v1 v2)
       else face_edges v uf rest es))))))"

definition copy_userface :: "mjCMesh \<Rightarrow> mjCMesh result" where
  "copy_userface m =
     (if userface m \<noteq> [] then
        if face m \<noteq> None then Inl (mjCError ''repeated face specification'')
        else if length (userface m) mod 3 \<noteq> 0
          then Inl (mjCError ''face data must be a multiple of 3'')
        else
          let m1 = m\<lparr>nface := int (length (userface m)) div 3, face := Some (userface m),
                     userface := cleared m (userface m)\<rparr> in
          if list_ex (\<lambda>vertex_index. vertex_index \<ge> nvert m1 \<or> vertex_index < 0) (userface m1)
            then Inl (mjCError ''found index in userface that exceeds uservert size.'')
          else if useredge m1 = [] then
            (case vert m1 of
               None \<Rightarrow> if nface m1 > 0 then Inl (Undefined ''read of null pointer'') else Inr m1
             | Some v \<Rightarrow>
                 bind (face_edges v (userface m1) [0..nface m1 - 1] [])
                   (\<lambda>es. Inr (m1\<lparr>useredge := es\<rparr>)))
          else Inr m1
      else Inr m)"

text \<open>
  The check for inconsistent face orientations: \<^verbatim>\<open>std::sort\<close> of the pairs
  (lexicographic) and \<^verbatim>\<open>std::adjacent_find\<close>.
\<close>

fun adjacent_find :: "'a list \<Rightarrow> 'a option" where
  "adjacent_find (x # y # rest) = (if x = y then Some x else adjacent_find (y # rest))"
| "adjacent_find rest = None"

definition check_orientation :: "mjCMesh \<Rightarrow> mjCMesh" where
  "check_orientation m =
     (if useredge m \<noteq> [] then
        let es = sort (useredge m) in
        case adjacent_find es of
          Some (a, b) \<Rightarrow> m\<lparr>useredge := es, invalidorientation := (a + 1, b + 1)\<rparr>
        | None \<Rightarrow> m\<lparr>useredge := es\<rparr>
      else m)"

definition stage :: "env \<Rightarrow> mjCMesh \<Rightarrow> mjCMesh result" where
  "stage env m =
     bind (load_file env m) (\<lambda>m1.
     bind (copy_uservert m1) (\<lambda>m2.
     bind (copy_usernormal m2) (\<lambda>m3.
     bind (copy_usertexcoord m3) (\<lambda>m4.
     copy_userface m4))))"

subsection \<open>MakeNormal\<close>

definition vadd :: "vec3 \<Rightarrow> vec3 \<Rightarrow> vec3" where
  "vadd a b = (case (a, b) of ((a0, a1, a2), (b0, b1, b2)) \<Rightarrow> (a0 + b0, a1 + b1, a2 + b2))"

definition vsub :: "vec3 \<Rightarrow> vec3 \<Rightarrow> vec3" where
  "vsub a b = (case (a, b) of ((a0, a1, a2), (b0, b1, b2)) \<Rightarrow> (a0 - b0, a1 - b1, a2 - b2))"

definition smul :: "real \<Rightarrow> vec3 \<Rightarrow> vec3" where
  "smul c a = (case a of (a0, a1, a2) \<Rightarrow> (c * a0, c * a1, c * a2))"

text \<open>\<open>f\<close> on each of the first \<open>n\<close> triples of an array.\<close>

fun map_vec3 :: "(vec3 \<Rightarrow> vec3) \<Rightarrow> nat \<Rightarrow> real list \<Rightarrow> real list" where
  "map_vec3 f (Suc n) (x # y # z # rest) =
     (case f (x, y, z) of (a, b, c) \<Rightarrow> a # b # c # map_vec3 f n rest)"
| "map_vec3 f n rest = rest"

text \<open>The three vertex ids of face \<open>i\<close> and the unit normal and area of the face.\<close>

definition face_ids :: "int list \<Rightarrow> int \<Rightarrow> (int \<times> int \<times> int) result" where
  "face_ids f i =
     bind (load f (3 * i)) (\<lambda>i0.
     bind (load f (3 * i + 1)) (\<lambda>i1.
     bind (load f (3 * i + 2)) (\<lambda>i2. Inr (i0, i1, i2))))"

definition face_normal :: "env \<Rightarrow> real list \<Rightarrow> int \<times> int \<times> int \<Rightarrow> (vec3 \<times> real) result" where
  "face_normal env v ids =
     (case ids of (i0, i1, i2) \<Rightarrow>
        bind (load3 v i0) (\<lambda>p0.
        bind (load3 v i1) (\<lambda>p1.
        bind (load3 v i2) (\<lambda>p2.
          Inr (mju_normalize3 env (mju_cross (vsub p1 p0) (vsub p2 p0)))))))"

definition add_at :: "real list \<Rightarrow> int \<Rightarrow> vec3 \<Rightarrow> real list result" where
  "add_at a i d = bind (load3 a i) (\<lambda>old. store3 a i (vadd old d))"

text \<open>The first loop over the faces; the state is \<open>(normal, facenormal)\<close>.\<close>

fun accumulate_normals :: "env \<Rightarrow> real list \<Rightarrow> int list \<Rightarrow> int list \<Rightarrow>
    real list \<times> int list \<Rightarrow> (real list \<times> int list) result" where
  "accumulate_normals env v f [] st = Inr st"
| "accumulate_normals env v f (i # rest) (nrml, fn) =
     bind (face_ids f i) (\<lambda>(i0, i1, i2).
     bind (face_normal env v (i0, i1, i2)) (\<lambda>(nrm, area).
     bind (add_at nrml i0 (smul area nrm)) (\<lambda>n0.
     bind (store fn (3 * i) i0) (\<lambda>fn0.
     bind (add_at n0 i1 (smul area nrm)) (\<lambda>n1.
     bind (store fn0 (3 * i + 1) i1) (\<lambda>fn1.
     bind (add_at n1 i2 (smul area nrm)) (\<lambda>n2.
     bind (store fn1 (3 * i + 2) i2) (\<lambda>fn2.
       accumulate_normals env v f rest (n2, fn2)))))))))"

text \<open>The second loop, for \<^verbatim>\<open>!smoothnormal\<close>; the state is \<open>nremove\<close>.\<close>

definition remove_corner :: "env \<Rightarrow> real list \<Rightarrow> vec3 \<Rightarrow> real \<Rightarrow> int \<Rightarrow> real list \<Rightarrow>
    real list result" where
  "remove_corner env nrml nrm area vid nremove =
     bind (load3 nrml vid) (\<lambda>vn.
       if mjuu_dot3 nrm (fst (mju_normalize3 env vn)) < 8 / 10
       then add_at nremove vid (smul area nrm)
       else Inr nremove)"

fun remove_normals :: "env \<Rightarrow> real list \<Rightarrow> int list \<Rightarrow> real list \<Rightarrow> int list \<Rightarrow>
    real list \<Rightarrow> real list result" where
  "remove_normals env v f nrml [] nremove = Inr nremove"
| "remove_normals env v f nrml (i # rest) nremove =
     bind (face_ids f i) (\<lambda>(i0, i1, i2).
     bind (face_normal env v (i0, i1, i2)) (\<lambda>(nrm, area).
     bind (remove_corner env nrml nrm area i0 nremove) (\<lambda>r0.
     bind (remove_corner env nrml nrm area i1 r0) (\<lambda>r1.
     bind (remove_corner env nrml nrm area i2 r1) (\<lambda>r2.
       remove_normals env v f nrml rest r2)))))"

definition unit_normal :: "vec3 \<Rightarrow> vec3" where
  "unit_normal n =
     (case n of (n0, n1, n2) \<Rightarrow>
        let len = sqrt (n0 * n0 + n1 * n1 + n2 * n2) in
        if len > mjMINVAL then (n0 / len, n1 / len, n2 / len) else (0, 0, 1))"

text \<open>
  \<^verbatim>\<open>MakeNormal\<close>. \<^verbatim>\<open>Compile\<close> calls it after \<^verbatim>\<open>CopyGraph\<close>, with
  \<^verbatim>\<open>vert\<close> and \<^verbatim>\<open>face\<close> not null.
\<close>

definition MakeNormal :: "env \<Rightarrow> mjCMesh \<Rightarrow> mjCMesh result" where
  "MakeNormal env m =
     (case normal m of
        Some n \<Rightarrow> Inr m
      | None \<Rightarrow>
        (case (vert m, face m) of
           (Some v, Some f) \<Rightarrow>
             let nn = nvert m;
                 normal0 = replicate (nat (3 * nn)) 0;
                 fn0 = (case facenormal m of
                          None \<Rightarrow> mju_malloc (3 * nface m) | Some fn \<Rightarrow> fn) in
             bind (accumulate_normals env v f [0..nface m - 1] (normal0, fn0)) (\<lambda>(normal1, fn1).
             bind (if \<not> smoothnormal m then
                     bind (remove_normals env v f normal1 [0..nface m - 1]
                             (replicate (nat (3 * nn)) 0)) (\<lambda>nremove.
                       Inr (map2 (-) normal1 nremove))
                   else Inr normal1) (\<lambda>normal2.
               Inr (m\<lparr>nnormal := nn, normal := Some (map_vec3 unit_normal (nat nn) normal2),
                      facenormal := Some fn1\<rparr>)))
         | _ \<Rightarrow> Inl (Undefined ''read of null pointer'')))"

subsection \<open>Process\<close>

text \<open>
  The first part for the volume type: translation by \<^verbatim>\<open>refpos\<close>, rotation
  by \<^verbatim>\<open>refquat\<close>, scaling, and normalisation of the normals. Each step is
  skipped when its parameter is the identity.
\<close>

definition translate_vert :: "mjCMesh \<Rightarrow> real list \<Rightarrow> real list" where
  "translate_vert m v =
     (if refpos m \<noteq> (0, 0, 0) then map_vec3 (\<lambda>p. vsub p (refpos m)) (nat (nvert m)) v else v)"

definition rotate_array :: "env \<Rightarrow> mjCMesh \<Rightarrow> int \<Rightarrow> real list \<Rightarrow> real list" where
  "rotate_array env m n a =
     (if refquat m \<noteq> (1, 0, 0, 0)
      then map_vec3 (\<lambda>p. mju_rotVecMatT env p (mju_quat2Mat env (mju_normalize4 env (refquat m))))
             (nat n) a
      else a)"

definition scale_array :: "mjCMesh \<Rightarrow> int \<Rightarrow> real list \<Rightarrow> real list" where
  "scale_array m n a =
     (if scale m \<noteq> (1, 1, 1)
      then map_vec3 (\<lambda>(x, y, z). case scale m of (s0, s1, s2) \<Rightarrow> (x * s0, y * s1, z * s2)) (nat n) a
      else a)"

definition renormalize :: "vec3 \<Rightarrow> vec3" where
  "renormalize n =
     (case n of (n0, n1, n2) \<Rightarrow>
        let len = n0 * n0 + n1 * n1 + n2 * n2 in
        if len > mjMINVAL then (n0 * (1 / sqrt len), n1 * (1 / sqrt len), n2 * (1 / sqrt len))
        else (0, 0, 1))"

definition prepass_vert :: "env \<Rightarrow> mjCMesh \<Rightarrow> real list \<Rightarrow> real list" where
  "prepass_vert env m v =
     scale_array m (nvert m) (rotate_array env m (nvert m) (translate_vert m v))"

definition prepass_normal :: "env \<Rightarrow> mjCMesh \<Rightarrow> real list \<Rightarrow> real list" where
  "prepass_normal env m n =
     map_vec3 renormalize (nat (nnormal m))
       (scale_array m (nnormal m) (rotate_array env m (nnormal m) n))"

text \<open>Area, normal and centre of face \<open>i\<close>.\<close>

definition face_triangle :: "real list \<Rightarrow> int list \<Rightarrow> int \<Rightarrow> (real \<times> vec3 \<times> vec3) result" where
  "face_triangle v f i =
     bind (face_ids f i) (\<lambda>(i0, i1, i2).
     bind (load3 v i0) (\<lambda>p0.
     bind (load3 v i1) (\<lambda>p1.
     bind (load3 v i2) (\<lambda>p2. Inr (triangle p0 p1 p2)))))"

text \<open>
  The centroid of the faces, with the check of the vertex indices; the state
  is \<open>(facecen, area)\<close>.
\<close>

fun face_centroid :: "int \<Rightarrow> real list \<Rightarrow> int list \<Rightarrow> int list \<Rightarrow> vec3 \<times> real \<Rightarrow>
    (vec3 \<times> real) result" where
  "face_centroid nv v f [] st = Inr st"
| "face_centroid nv v f (i # rest) (facecen, area) =
     bind (face_ids f i) (\<lambda>(i0, i1, i2).
       if i0 < 0 \<or> i0 \<ge> nv \<or> i1 < 0 \<or> i1 \<ge> nv \<or> i2 < 0 \<or> i2 \<ge> nv
         then Inl (mjCError ''vertex index out of range'')
       else
         bind (face_triangle v f i) (\<lambda>(a, nrm, cen).
           face_centroid nv v f rest (vadd facecen (smul a cen), area + a)))"

text \<open>
  The volume and the centre of mass from the pyramids; the state is
  \<open>(volume, CoM)\<close>.
\<close>

definition pyramid_vol :: "env \<Rightarrow> mjtMeshType \<Rightarrow> vec3 \<Rightarrow> real \<times> vec3 \<times> vec3 \<Rightarrow> real" where
  "pyramid_vol env type facecen t =
     (case t of (a, nrm, cen) \<Rightarrow>
        let vol = (if type = mjSHELL_MESH then a else mjuu_dot3 (vsub cen facecen) nrm * a / 3)
        in if \<not> exactmeshinertia env then \<bar>vol\<bar> else vol)"

fun face_volume :: "env \<Rightarrow> mjtMeshType \<Rightarrow> vec3 \<Rightarrow> real list \<Rightarrow> int list \<Rightarrow> int list \<Rightarrow>
    real \<times> vec3 \<Rightarrow> (real \<times> vec3) result" where
  "face_volume env type facecen v f [] st = Inr st"
| "face_volume env type facecen v f (i # rest) (vol, CoM) =
     bind (face_triangle v f i) (\<lambda>t.
       face_volume env type facecen v f rest
         (vol + pyramid_vol env type facecen t,
          vadd CoM (smul (pyramid_vol env type facecen t)
                      (vadd (smul (3 / 4) (snd (snd t))) (smul (1 / 4) facecen)))))"

text \<open>
  The products of inertia; the state is \<open>(volume, P)\<close>. \<open>comp p a\<close> is
  \<^verbatim>\<open>p[a]\<close> and \<open>kpairs\<close> the table \<^verbatim>\<open>k\<close>.
\<close>

fun comp :: "vec3 \<Rightarrow> nat \<Rightarrow> real" where
  "comp (x, y, z) a = (if a = 0 then x else if a = 1 then y else z)"

definition kpairs :: "(nat \<times> nat) list" where
  "kpairs = [(0, 0), (1, 1), (2, 2), (0, 1), (0, 2), (1, 2)]"

definition product_term :: "vec3 \<Rightarrow> vec3 \<Rightarrow> vec3 \<Rightarrow> nat \<times> nat \<Rightarrow> real" where
  "product_term D E F k =
     (case k of (a, b) \<Rightarrow>
        2 * (comp D a * comp D b + comp E a * comp E b + comp F a * comp F b)
        + comp D a * comp E b + comp D b * comp E a
        + comp D a * comp F b + comp D b * comp F a
        + comp E a * comp F b + comp E b * comp F a)"

definition inertia_vol :: "env \<Rightarrow> mjtMeshType \<Rightarrow> real \<times> vec3 \<times> vec3 \<Rightarrow> real" where
  "inertia_vol env type t =
     (case t of (a, nrm, cen) \<Rightarrow>
        let vol = (if type = mjSHELL_MESH then a else mjuu_dot3 cen nrm * a / 3)
        in if \<not> exactmeshinertia env then \<bar>vol\<bar> else vol)"

fun face_inertia :: "env \<Rightarrow> mjtMeshType \<Rightarrow> real list \<Rightarrow> int list \<Rightarrow> int list \<Rightarrow>
    real \<times> real list \<Rightarrow> (real \<times> real list) result" where
  "face_inertia env type v f [] st = Inr st"
| "face_inertia env type v f (i # rest) (vol, P) =
     bind (face_ids f i) (\<lambda>(i0, i1, i2).
     bind (load3 v i0) (\<lambda>D.
     bind (load3 v i1) (\<lambda>E.
     bind (load3 v i2) (\<lambda>F.
       let w = inertia_vol env type (triangle D E F) in
       face_inertia env type v f rest
         (vol + w,
          map2 (\<lambda>p k. p + density env * w / (if type = mjSHELL_MESH then 12 else 20)
                              * product_term D E F k) P kpairs)))))"

text \<open>The bounding box: \<^verbatim>\<open>aabb[j] = mjMIN(...)\<close>, \<^verbatim>\<open>aabb[j+3] = mjMAX(...)\<close>.\<close>

definition grow_aabb :: "vec3 \<Rightarrow> real list \<Rightarrow> real list" where
  "grow_aabb res bb =
     (case res of (x, y, z) \<Rightarrow>
        [min (bb ! 0) x, min (bb ! 1) y, min (bb ! 2) z,
         max (bb ! 3) x, max (bb ! 4) y, max (bb ! 5) z])"

fun fold_vec3 :: "(vec3 \<Rightarrow> 'a \<Rightarrow> 'a) \<Rightarrow> nat \<Rightarrow> real list \<Rightarrow> 'a \<Rightarrow> 'a" where
  "fold_vec3 g (Suc n) (x # y # z # rest) acc = fold_vec3 g n rest (g (x, y, z) acc)"
| "fold_vec3 g n rest acc = acc"

definition set_volume :: "mjtMeshType \<Rightarrow> real \<Rightarrow> mjCMesh \<Rightarrow> mjCMesh" where
  "set_volume type x m = (if type = mjSHELL_MESH then m\<lparr>surface := x\<rparr> else m\<lparr>volume := x\<rparr>)"

definition set_pos :: "mjtMeshType \<Rightarrow> vec3 \<Rightarrow> mjCMesh \<Rightarrow> mjCMesh" where
  "set_pos type x m = (if type = mjSHELL_MESH then m\<lparr>pos_surface := x\<rparr> else m\<lparr>pos_volume := x\<rparr>)"

definition set_boxsz :: "mjtMeshType \<Rightarrow> vec3 \<Rightarrow> mjCMesh \<Rightarrow> mjCMesh" where
  "set_boxsz type x m =
     (if type = mjSHELL_MESH then m\<lparr>boxsz_surface := x\<rparr> else m\<lparr>boxsz_volume := x\<rparr>)"

text \<open>
  The body of the loop over the two types, from \<^verbatim>\<open>compute CoM and volume\<close>
  on. The second component of the result says that \<^verbatim>\<open>Process\<close> has
  returned. \<^verbatim>\<open>GetVolumeRef\<close> and \<^verbatim>\<open>GetInertiaBoxPtr\<close> call \<^verbatim>\<open>CheckMesh\<close>
  each time; what it reads does not change before \<^verbatim>\<open>Process\<close> returns, so
  it is called once here.
\<close>

definition process_type :: "env \<Rightarrow> mjtMeshType \<Rightarrow> vec3 \<Rightarrow> mjCMesh \<Rightarrow> (mjCMesh \<times> bool) result" where
  "process_type env type facecen m =
     (case (vert m, normal m, face m) of
        (Some v, Some n, Some f) \<Rightarrow>
          bind (CheckMesh m) (\<lambda>_.
          bind (face_volume env type facecen v f [0..nface m - 1] (0, (0, 0, 0))) (\<lambda>(vol, CoM).
            if vol < mjMINVAL then Inr ((set_volume type vol m)\<lparr>validvolume := False\<rparr>, True)
            else
              let CoM' = smul (1 / vol) CoM;
                  v2 = (if type = mjVOLUME_MESH
                        then map_vec3 (\<lambda>p. vsub p CoM') (nat (nvert m)) v else v) in
              bind (face_inertia env type v2 f [0..nface m - 1] (0, replicate 6 0)) (\<lambda>(vol2, P).
                let m3 = (set_volume type vol2 (set_pos type CoM' m))\<lparr>vert := Some v2\<rparr>;
                    full = [P ! 1 + P ! 2, - (P ! 3), - (P ! 4),
                            - (P ! 3), P ! 0 + P ! 2, - (P ! 5),
                            - (P ! 4), - (P ! 5), P ! 0 + P ! 1] in
                case mju_eig3 env full of ((e0, e1, e2), eigvec, (q0, q1, q2, q3)) \<Rightarrow>
                  if e2 \<le> 0 then Inr (m3\<lparr>valideigenvalue := False\<rparr>, True)
                  else if e0 + e1 < e2 \<or> e0 + e2 < e1 \<or> e1 + e2 < e0
                    then Inr (m3\<lparr>validinequality := False\<rparr>, True)
                  else
                    let mass = vol2 * density env;
                        m4 = set_boxsz type
                               (sqrt (6 * (e1 + e2 - e0) / mass) / 2,
                                sqrt (6 * (e0 + e2 - e1) / mass) / 2,
                                sqrt (6 * (e0 + e1 - e2) / mass) / 2) m3 in
                    if type = mjVOLUME_MESH then
                      let mat = mjuu_quat2mat env (q0, - q1, - q2, - q3);
                          rot = (\<lambda>p. mjuu_mulvecmat env p mat);
                          v3 = map_vec3 rot (nat (nvert m)) v2 in
                      Inr (m4\<lparr>quat_volume := (q0, q1, q2, q3),
                              vert := Some v3,
                              aabb := fold_vec3 (\<lambda>p. grow_aabb (rot p)) (nat (nvert m)) v2 (aabb m),
                              normal := Some (map_vec3 rot (nat (nnormal m)) n)\<rparr>, False)
                    else Inr (m4\<lparr>quat_surface := quat_volume m4\<rparr>, False))))
      | _ \<Rightarrow> Inl (Undefined ''read of null pointer''))"

text \<open>
  \<^verbatim>\<open>Process\<close>. \<^verbatim>\<open>Compile\<close> calls it with \<^verbatim>\<open>vert\<close>, \<^verbatim>\<open>normal\<close> and
  \<^verbatim>\<open>face\<close> not null; the arrays hold \<open>3 * nvert\<close> and \<open>3 * nnormal\<close> floats,
  and shorter ones are reported as \<open>Undefined\<close> at once.
\<close>

definition Process :: "env \<Rightarrow> mjCMesh \<Rightarrow> mjCMesh result" where
  "Process env m =
     (case (vert m, normal m, face m) of
        (Some v, Some n, Some f) \<Rightarrow>
          if int (length v) < 3 * nvert m \<or> int (length n) < 3 * nnormal m
            then Inl (Undefined ''read out of bounds'')
          else
            let v1 = prepass_vert env m v;
                m1 = m\<lparr>vert := Some v1, normal := Some (prepass_normal env m n)\<rparr> in
            bind (face_centroid (nvert m) v1 f [0..nface m - 1] ((0, 0, 0), 0)) (\<lambda>(facecen, area).
              if area < mjMINVAL then Inr (m1\<lparr>validarea := False\<rparr>)
              else
                bind (process_type env mjVOLUME_MESH (smul (1 / area) facecen) m1) (\<lambda>(m2, returned).
                  if returned then Inr m2
                  else bind (process_type env mjSHELL_MESH (0, 0, 0) m2) (\<lambda>(m3, _). Inr m3)))
      | _ \<Rightarrow> Inl (Undefined ''read of null pointer''))"

subsection \<open>Compile\<close>

definition copy_userfacenormal :: "mjCMesh \<Rightarrow> mjCMesh result" where
  "copy_userfacenormal m =
     (if userfacenormal m \<noteq> [] then
        if facenormal m \<noteq> None then Inl (mjCError ''repeated facenormal specification'')
        else if int (length (userfacenormal m)) \<noteq> 3 * nface m
          then Inl (mjCError ''face data must have the same size as face normal data'')
        else Inr (m\<lparr>facenormal := Some (userfacenormal m),
                    userfacenormal := cleared m (userfacenormal m)\<rparr>)
      else Inr m)"

definition copy_userfacetexcoord :: "mjCMesh \<Rightarrow> mjCMesh result" where
  "copy_userfacetexcoord m =
     (if userfacetexcoord m \<noteq> [] then
        if facetexcoord m \<noteq> None then Inl (mjCError ''repeated facetexcoord specification'')
        else Inr (m\<lparr>facetexcoord := Some (userfacetexcoord m),
                    userfacetexcoord := cleared m (userfacetexcoord m)\<rparr>)
      else Inr m)"

definition default_facenormal :: "mjCMesh \<Rightarrow> mjCMesh result" where
  "default_facenormal m =
     (if facenormal m = None then
        (case face m of
           None \<Rightarrow> Inl (Undefined ''read of null pointer'')
         | Some f \<Rightarrow>
             if int (length f) < 3 * nface m then Inl (Undefined ''read out of bounds'')
             else Inr (m\<lparr>facenormal := Some (take (nat (3 * nface m)) f)\<rparr>))
      else Inr m)"

text \<open>
  The steps of \<^verbatim>\<open>Compile\<close> after the check of the orientation. The warnings
  of \<^verbatim>\<open>MakeGraph\<close> go to the log and are not part of the result.
\<close>

definition finish :: "env \<Rightarrow> mjCMesh \<Rightarrow> mjCMesh result" where
  "finish env m =
     (if vert m = None then Inl (mjCError ''no vertices'')
      else
        bind (if (convexhull env \<and> needhull m) \<or> face m = None
              then bind (MakeGraph (qhull env) m) (\<lambda>(m', warnings). Inr m')
              else Inr m) (\<lambda>m1.
        bind (if face m1 = None then CopyGraph m1 else Inr m1) (\<lambda>m2.
        bind (if normal m2 = None then MakeNormal env m2 else Inr m2) (\<lambda>m3.
        bind (copy_userfacenormal m3) (\<lambda>m4.
        bind (copy_userfacetexcoord m4) (\<lambda>m5.
        bind (default_facenormal m5) (\<lambda>m6.
        bind (Process env m6) (\<lambda>m7.
          Inr (m7\<lparr>processed := True\<rparr>)))))))))"

definition Compile :: "env \<Rightarrow> mjCMesh \<Rightarrow> mjCMesh result" where
  "Compile env m = bind (stage env m) (\<lambda>m1. finish env (check_orientation m1))"

subsection \<open>The skin object\<close>


subsection \<open>The SKN loader\<close>






subsection \<open>The skin compiler\<close>










subsection \<open>An environment for examples\<close>

text \<open>
  The examples below run the functions in an environment without files, in
  which the hull engine fails and the numeric routines are the simplest ones
  of their type. Each example overrides the components it is about.
\<close>

definition plain_env :: env where
  "plain_env =
     \<lparr> strippath = False, convexhull = False, exactmeshinertia = False, density = 1000,
       mjuu_strippath = (\<lambda>s. s), mjuu_getext = (\<lambda>s. drop (length s - 4) s),
       files = (\<lambda>s. None),
       ParseFromFile = (\<lambda>s. \<lparr> Valid = False, attrib_vertices = [], attrib_normals = [],
                                attrib_texcoords = [], GetShapes = [] \<rparr>),
       mjQUICKSORT = (\<lambda>cmp xs. xs),
       qhull = (\<lambda>data n. Inl 1),
       mju_normalize3 = (\<lambda>v. (v, 1)),
       mju_normalize4 = (\<lambda>q. q),
       mju_quat2Mat = (\<lambda>q. [1, 0, 0, 0, 1, 0, 0, 0, 1]),
       mju_rotVecMatT = (\<lambda>v mat. v),
       mju_eig3 = (\<lambda>mat. ((mat ! 0, mat ! 4, mat ! 8), [1, 0, 0, 0, 1, 0, 0, 0, 1], (1, 0, 0, 0))),
       mjuu_quat2mat = (\<lambda>q. [1, 0, 0, 0, 1, 0, 0, 0, 1]),
       mjuu_mulvecmat = (\<lambda>v mat. v),
       FindObject = (\<lambda>t s. None) \<rparr>"

text \<open>An OBJ file with three texture coordinates and no shape.\<close>

definition obj_texcoords :: ObjReader where
  "obj_texcoords =
     \<lparr> Valid = True, attrib_vertices = [], attrib_normals = [],
       attrib_texcoords = [1 / 4, 1 / 4, 1 / 2, 1 / 4, 3 / 4, 1], GetShapes = [] \<rparr>"

text \<open>
  An OBJ file with two texture coordinates and no shape; the second \<open>v\<close> is
  the single nearest to one tenth, \<^verbatim>\<open>0x3DCCCCCD\<close>.
\<close>

definition obj_tenth :: ObjReader where
  "obj_tenth =
     \<lparr> Valid = True, attrib_vertices = [], attrib_normals = [],
       attrib_texcoords = [0, 0, 0, 13421773 / 134217728], GetShapes = [] \<rparr>"

subsection \<open>Predicates and examples used in the properties\<close>

text \<open>Edges between vertex indices that are not negative.\<close>

definition edges_ok :: "(int \<times> int) list \<Rightarrow> bool" where
  "edges_ok es = (\<forall>e \<in> set es. 0 \<le> fst e \<and> 0 \<le> snd e)"

text \<open>
  The texture coordinates are absent, or \<^verbatim>\<open>texcoord\<close> holds \<^verbatim>\<open>ntexcoord\<close> pairs.
\<close>

definition tex_ok :: "mjCMesh \<Rightarrow> bool" where
  "tex_ok m = ((texcoord m = None \<and> ntexcoord m = 0) \<or>
               (\<exists>tc. texcoord m = Some tc \<and> int (length tc) = 2 * ntexcoord m))"

text \<open>
  A mesh given by arrays: four vertices and the same triangle twice, so that
  each of its directed edges occurs twice; then the mesh after staging and
  after \<^verbatim>\<open>Compile\<close>.
\<close>

definition dup_mesh :: mjCMesh where
  "dup_mesh = (new_mjCMesh ''m'' 0 0)
     \<lparr>uservert := [0, 0, 0, 1, 0, 0, 0, 1, 0, 0, 0, 1],
      usernormal := [0, 0, 1, 0, 0, 1, 0, 0, 1, 0, 0, 1],
      userface := [0, 1, 2, 0, 1, 2]\<rparr>"

definition dup_staged :: mjCMesh where
  "dup_staged = dup_mesh
     \<lparr>nvert := 4, vert := Some [0, 0, 0, 1, 0, 0, 0, 1, 0, 0, 0, 1],
      nnormal := 4, normal := Some [0, 0, 1, 0, 0, 1, 0, 0, 1, 0, 0, 1],
      nface := 2, face := Some [0, 1, 2, 0, 1, 2],
      useredge := [(0, 1), (1, 2), (2, 0), (0, 1), (1, 2), (2, 0)]\<rparr>"

definition dup_compiled :: mjCMesh where
  "dup_compiled = dup_staged
     \<lparr>useredge := [(0, 1), (0, 1), (1, 2), (1, 2), (2, 0), (2, 0)],
      invalidorientation := (1, 2), facenormal := Some [0, 1, 2, 0, 1, 2],
      volume := 0, validvolume := False, processed := True\<rparr>"

text \<open>
  A mesh given by arrays: four vertices, one triangle and one pair of texture
  coordinates; then the mesh after staging and after \<^verbatim>\<open>Compile\<close>.
\<close>

definition tex_mesh :: mjCMesh where
  "tex_mesh = (new_mjCMesh ''m'' 0 0)
     \<lparr>uservert := [0, 0, 0, 1, 0, 0, 0, 1, 0, 0, 0, 1],
      usernormal := [0, 0, 1, 0, 0, 1, 0, 0, 1, 0, 0, 1],
      usertexcoord := [1 / 2, 1 / 2],
      userface := [0, 1, 2]\<rparr>"

definition tex_staged :: mjCMesh where
  "tex_staged = tex_mesh
     \<lparr>nvert := 4, vert := Some [0, 0, 0, 1, 0, 0, 0, 1, 0, 0, 0, 1],
      nnormal := 4, normal := Some [0, 0, 1, 0, 0, 1, 0, 0, 1, 0, 0, 1],
      ntexcoord := 1, texcoord := Some [1 / 2, 1 / 2],
      nface := 1, face := Some [0, 1, 2],
      useredge := [(0, 1), (1, 2), (2, 0)]\<rparr>"

definition tex_compiled :: mjCMesh where
  "tex_compiled = tex_staged
     \<lparr>facenormal := Some [0, 1, 2], volume := 0, validvolume := False, processed := True\<rparr>"

text \<open>
  The extension of the file name, as \<^verbatim>\<open>Compile\<close> reads it to choose the
  loader: after \<^verbatim>\<open>mjuu_strippath\<close> when the model strips paths.
\<close>

definition file_ext :: "env \<Rightarrow> mjCMesh \<Rightarrow> string" where
  "file_ext env m =
     mjuu_getext env (if strippath env then mjuu_strippath env (meshfile m) else meshfile m)"

text \<open>Two meshes with the same geometry, as far as \<^verbatim>\<open>Process\<close> reads it at its start.\<close>

definition same_geom :: "mjCMesh \<Rightarrow> mjCMesh \<Rightarrow> bool" where
  "same_geom m' m =
     (vert m' = vert m \<and> face m' = face m \<and> nface m' = nface m \<and> nvert m' = nvert m \<and>
      refpos m' = refpos m \<and> refquat m' = refquat m \<and> scale m' = scale m \<and>
      validarea m' = validarea m)"

text \<open>
  The exchange of the second and third element of every triple of a list:
  the faces of a mesh stored with the opposite orientation.
\<close>

fun swap23 :: "'a list \<Rightarrow> 'a list" where
  "swap23 (a # b # c # rest) = a # c # b # swap23 rest"
| "swap23 rest = rest"

text \<open>
  The coordinates of an STL buffer with \<open>n\<close> triangles, as 32-bit patterns
  in the order of the file: triangle by triangle, corner by corner.
\<close>

definition stl_coords :: "byte list \<Rightarrow> nat \<Rightarrow> nat list" where
  "stl_coords buffer n = concat (map (\<lambda>i. concat (map (stl_words buffer i) [0, 1, 2])) [0..<n])"

text \<open>
  A coordinate that the STL loader accepts: a number (not a NaN, not an
  infinity) of absolute value at most \<open>2^30\<close>.
\<close>

definition stl_coord_ok :: "nat \<Rightarrow> bool" where
  "stl_coord_ok w = (\<not> float_isnan w \<and> \<not> float_isinf w \<and> \<bar>float_val w\<bar> \<le> 2 ^ 30)"

text \<open>
  The faces of \<open>n\<close> triangles whose corners are numbered as they are read,
  in the order read or with the second and third corner exchanged.
\<close>

definition stl_ids :: "bool \<Rightarrow> nat \<Rightarrow> int list" where
  "stl_ids rh n = (if rh then map int [0..<3 * n] else swap23 (map int [0..<3 * n]))"

text \<open>
  The two errors that the STL loader raises for a coordinate.
\<close>

definition stl_error :: "'a result \<Rightarrow> bool" where
  "stl_error r = (r = Inl (mjCError ''STL file contains invalid vertices.'') \<or>
                  r = Inl (mjCError ''vertex coordinates in STL file exceed maximum bounds''))"

text \<open>
  An STL file of one triangle with the corners \<open>(0,0,0)\<close>, \<open>(1,0,0)\<close>,
  \<open>(0,1,0)\<close>: 80 bytes of header, the count, the normal, the corners
  (\<^verbatim>\<open>00 00 80 3F\<close> is 1.0) and two bytes of attribute.
\<close>

definition stl_one :: "byte list" where
  "stl_one = replicate 80 0 @ [1, 0, 0, 0] @ replicate 12 0 @
     replicate 12 0 @
     ([0, 0, 128, 63] @ replicate 8 0) @
     (replicate 4 0 @ [0, 0, 128, 63] @ replicate 4 0) @
     [0, 0]"

text \<open>
  An MSH file of four vertices \<open>(0,0,0)\<close>, \<open>(1,0,0)\<close>, \<open>(0,1,0)\<close>,
  \<open>(0,0,1)\<close> and one face \<open>(0, 1, 2)\<close>, without normals and texture
  coordinates: 76 bytes. Then the environments that hold the files, a mesh
  with a left-handed scale and a mesh with a scale of product zero.
\<close>

definition msh_one :: "byte list" where
  "msh_one = [4, 0, 0, 0] @ [0, 0, 0, 0] @ [0, 0, 0, 0] @ [1, 0, 0, 0] @
     replicate 12 0 @
     ([0, 0, 128, 63] @ replicate 8 0) @
     (replicate 4 0 @ [0, 0, 128, 63] @ replicate 4 0) @
     (replicate 8 0 @ [0, 0, 128, 63]) @
     [0, 0, 0, 0] @ [1, 0, 0, 0] @ [2, 0, 0, 0]"

definition msh_env :: env where
  "msh_env = plain_env\<lparr>files := (\<lambda>s. Some msh_one)\<rparr>"

definition left_mesh :: mjCMesh where
  "left_mesh = (new_mjCMesh ''m'' 0 0)\<lparr>meshfile := ''m.msh'', scale := (- 1, 1, 1)\<rparr>"

text \<open>
  An OBJ file of four vertices and one shape with the triangle \<open>(0, 1, 2)\<close>.
\<close>

definition obj_triangle :: ObjReader where
  "obj_triangle =
     \<lparr> Valid = True, attrib_vertices = [0, 0, 0, 1, 0, 0, 0, 1, 0, 0, 0, 1], attrib_normals = [],
       attrib_texcoords = [],
       GetShapes = [\<lparr> indices = [\<lparr> vertex_index = 0, normal_index = - 1, texcoord_index = - 1 \<rparr>,
                                  \<lparr> vertex_index = 1, normal_index = - 1, texcoord_index = - 1 \<rparr>,
                                  \<lparr> vertex_index = 2, normal_index = - 1, texcoord_index = - 1 \<rparr>],
                      num_face_vertices = [3] \<rparr>] \<rparr>"

definition obj_env :: env where
  "obj_env = plain_env\<lparr>ParseFromFile := (\<lambda>s. obj_triangle)\<rparr>"

definition stl_env :: env where
  "stl_env = plain_env\<lparr>files := (\<lambda>s. Some stl_one)\<rparr>"

definition zero_mesh :: mjCMesh where
  "zero_mesh = (new_mjCMesh ''m'' 0 0)\<lparr>scale := (0, 1, 1)\<rparr>"






text \<open>
  A point id within \<open>[0, nvert)\<close>; the value that \<^verbatim>\<open>cnt\<close> has after the scan
  of the vertices of a facet, which stops at the first id out of range; the
  hull states all of whose ids are in range; and the vertices that
  \<^verbatim>\<open>FORALLvertices\<close> visits, up to the first one whose id is out of range.
\<close>

definition good_id :: "int \<Rightarrow> int \<Rightarrow> bool" where
  "good_id nv p = (0 \<le> p \<and> p < nv)"


definition facets_ok :: "int \<Rightarrow> facetT list \<Rightarrow> bool" where
  "facets_ok nv fs = list_all (\<lambda>f. list_all (good_id nv) (vertices f)) fs"

definition ids_ok :: "int \<Rightarrow> vertexT list \<Rightarrow> bool" where
  "ids_ok nv vl = list_all (\<lambda>v. good_id nv (point v) \<and> facets_ok nv (neighbors v)) vl"


text \<open>
  A mesh of four vertices and two states of the hull engine for it: one
  whose facet has four vertices, and a tetrahedron one facet of which names
  the point 7 as its third vertex, with the array that \<^verbatim>\<open>MakeGraph\<close> fills
  for it.
\<close>

definition hull_mesh :: mjCMesh where
  "hull_mesh = (new_mjCMesh ''m'' 0 0)\<lparr>nvert := 4, vert := Some [0, 0, 0, 1, 0, 0, 0, 1, 0, 0, 0, 1]\<rparr>"


definition qh_stray :: qhT where
  "qh_stray =
     \<lparr> num_vertices = 4, num_facets = 4,
       vertex_list =
         [\<lparr> point = 0, neighbors = [\<lparr> vertices = [0, 1, 2], toporient = False \<rparr>,
                                    \<lparr> vertices = [0, 1, 7], toporient = False \<rparr>,
                                    \<lparr> vertices = [0, 2, 3], toporient = False \<rparr>] \<rparr>,
          \<lparr> point = 1, neighbors = [\<lparr> vertices = [0, 1, 2], toporient = False \<rparr>,
                                    \<lparr> vertices = [0, 1, 7], toporient = False \<rparr>,
                                    \<lparr> vertices = [1, 2, 3], toporient = False \<rparr>] \<rparr>,
          \<lparr> point = 2, neighbors = [\<lparr> vertices = [0, 1, 2], toporient = False \<rparr>,
                                    \<lparr> vertices = [0, 2, 3], toporient = False \<rparr>,
                                    \<lparr> vertices = [1, 2, 3], toporient = False \<rparr>] \<rparr>,
          \<lparr> point = 3, neighbors = [\<lparr> vertices = [0, 1, 7], toporient = False \<rparr>,
                                    \<lparr> vertices = [0, 2, 3], toporient = False \<rparr>,
                                    \<lparr> vertices = [1, 2, 3], toporient = False \<rparr>] \<rparr>],
       facet_list = [\<lparr> vertices = [0, 1, 2], toporient = False \<rparr>,
                     \<lparr> vertices = [0, 1, 7], toporient = False \<rparr>,
                     \<lparr> vertices = [0, 2, 3], toporient = False \<rparr>,
                     \<lparr> vertices = [1, 2, 3], toporient = False \<rparr>] \<rparr>"





text \<open>
  An MSH file of four vertices with their normals \<open>(0,0,1)\<close> and texture
  coordinates \<open>(1/2, 1/2)\<close> (\<^verbatim>\<open>00 00 00 3F\<close> is 0.5) and one face
  \<open>(0, 1, 2)\<close>: 156 bytes; then a mesh that names the file, after staging
  and after \<^verbatim>\<open>Compile\<close>.
\<close>

definition msh_tex :: "byte list" where
  "msh_tex = [4, 0, 0, 0] @ [4, 0, 0, 0] @ [4, 0, 0, 0] @ [1, 0, 0, 0] @
     replicate 12 0 @
     ([0, 0, 128, 63] @ replicate 8 0) @
     (replicate 4 0 @ [0, 0, 128, 63] @ replicate 4 0) @
     (replicate 8 0 @ [0, 0, 128, 63]) @
     (replicate 8 0 @ [0, 0, 128, 63]) @ (replicate 8 0 @ [0, 0, 128, 63]) @
     (replicate 8 0 @ [0, 0, 128, 63]) @ (replicate 8 0 @ [0, 0, 128, 63]) @
     [0, 0, 0, 63] @ [0, 0, 0, 63] @ [0, 0, 0, 63] @ [0, 0, 0, 63] @
     [0, 0, 0, 63] @ [0, 0, 0, 63] @ [0, 0, 0, 63] @ [0, 0, 0, 63] @
     [0, 0, 0, 0] @ [1, 0, 0, 0] @ [2, 0, 0, 0]"

definition msh_tex_env :: env where
  "msh_tex_env = plain_env\<lparr>files := (\<lambda>s. Some msh_tex)\<rparr>"

definition msh_mesh :: mjCMesh where
  "msh_mesh = (new_mjCMesh ''m'' 0 0)\<lparr>meshfile := ''m.msh''\<rparr>"

definition msh_staged :: mjCMesh where
  "msh_staged = msh_mesh
     \<lparr>nvert := 4, nnormal := 4, ntexcoord := 4, nface := 1,
      vert := Some [0, 0, 0, 1, 0, 0, 0, 1, 0, 0, 0, 1],
      normal := Some [0, 0, 1, 0, 0, 1, 0, 0, 1, 0, 0, 1],
      texcoord := Some [1 / 2, 1 / 2, 1 / 2, 1 / 2, 1 / 2, 1 / 2, 1 / 2, 1 / 2],
      face := Some [0, 1, 2], facenormal := Some [0, 1, 2], facetexcoord := Some [0, 1, 2]\<rparr>"

definition msh_compiled :: mjCMesh where
  "msh_compiled = msh_staged\<lparr>volume := 0, validvolume := False, processed := True\<rparr>"

section \<open>Properties\<close>

subsection \<open>Small meshes have no hull graph\<close>

text \<open>
  C10. \<^verbatim>\<open>MakeGraph\<close> on a mesh with fewer than four vertices returns at once:
  whatever the hull engine would do, the mesh comes back unchanged (so a null
  \<^verbatim>\<open>graph\<close> stays null and \<^verbatim>\<open>szgraph\<close> stays 0), nothing is raised and no
  warning is issued.
\<close>

theorem MakeGraph_small_mesh:
  "nvert m < 4 \<Longrightarrow> MakeGraph engine m = Inr (m, [])"
  by (simp add: MakeGraph_def)

theorem MakeGraph_small_mesh_witness:
  "nvert ((new_mjCMesh ''m'' 0 0)\<lparr>nvert := 3\<rparr>) < 4 \<and>
   MakeGraph (\<lambda>data n. Inl 1) ((new_mjCMesh ''m'' 0 0)\<lparr>nvert := 3\<rparr>)
     = Inr ((new_mjCMesh ''m'' 0 0)\<lparr>nvert := 3\<rparr>, []) \<and>
   graph ((new_mjCMesh ''m'' 0 0)\<lparr>nvert := 3\<rparr>) = None \<and>
   szgraph ((new_mjCMesh ''m'' 0 0)\<lparr>nvert := 3\<rparr>) = 0"
  using MakeGraph_small_mesh [of "(new_mjCMesh ''m'' 0 0)\<lparr>nvert := 3\<rparr>" "\<lambda>data n. Inl 1"]
  by (simp add: new_mjCMesh_def)

subsection \<open>The texture coordinates of an OBJ file\<close>

lemma float32_search_numeral:
  "float32_search (numeral k) a =
     (if pow2 (int (numeral k) - 126) \<le> a then int (numeral k) - 126
      else float32_search (pred_numeral k) a)"
  by (simp add: numeral_eq_Suc)

lemmas float32_eval = float32_round_def float32_exponent_def float32_search_numeral pow2_def
  round_even_def Let_def

lemma round_even_int [simp]: "round_even (of_int k) = k"
  by (simp add: round_even_def)

lemma pow2_pos [simp]: "0 < pow2 e"
  by (simp add: pow2_def)

lemma pow2_nz [simp]: "pow2 e \<noteq> 0"
  using pow2_pos [of e] by linarith

text \<open>Rounding keeps a number if and only if it is a single of its binade.\<close>

lemma float32_round_exact:
  "float32_round x = x \<longleftrightarrow> (\<exists>k::int. x = of_int k * pow2 (float32_exponent x - 23))"
proof
  assume "float32_round x = x"
  then show "\<exists>k::int. x = of_int k * pow2 (float32_exponent x - 23)"
    unfolding float32_round_def Let_def by metis
next
  assume "\<exists>k::int. x = of_int k * pow2 (float32_exponent x - 23)"
  then obtain k :: int where k: "x = of_int k * pow2 (float32_exponent x - 23)" by blast
  have "x / pow2 (float32_exponent x - 23) = of_int k"
    by (subst k) simp
  then show "float32_round x = x"
    unfolding float32_round_def Let_def using k by simp
qed

lemma flip_fold:
  "b \<le> length tc div 2 \<Longrightarrow>
   length (fold (\<lambda>i t. t[Suc (2 * i) := g (t ! Suc (2 * i))]) [a..<b] tc) = length tc \<and>
   (\<forall>k. fold (\<lambda>i t. t[Suc (2 * i) := g (t ! Suc (2 * i))]) [a..<b] tc ! k =
     (if odd k \<and> a \<le> k div 2 \<and> k div 2 < b then g (tc ! k) else tc ! k))"
proof (induction b)
  case 0
  then show ?case by simp
next
  case (Suc b)
  define F where "F = fold (\<lambda>i t. t[Suc (2 * i) := g (t ! Suc (2 * i))]) [a..<b] tc"
  show ?case
  proof (cases "a \<le> b")
    case False
    then show ?thesis by auto
  next
    case True
    have ih: "length F = length tc"
      "\<And>k. F ! k = (if odd k \<and> a \<le> k div 2 \<and> k div 2 < b then g (tc ! k) else tc ! k)"
      using Suc unfolding F_def by auto
    have bnd: "Suc (2 * b) < length tc" using Suc.prems by auto
    have step: "fold (\<lambda>i t. t[Suc (2 * i) := g (t ! Suc (2 * i))]) [a..<Suc b] tc
                = F[Suc (2 * b) := g (F ! Suc (2 * b))]"
      using True by (simp add: F_def)
    have "\<And>k. (F[Suc (2 * b) := g (F ! Suc (2 * b))]) ! k =
        (if odd k \<and> a \<le> k div 2 \<and> k div 2 < Suc b then g (tc ! k) else tc ! k)"
    proof -
      fix k
      show "(F[Suc (2 * b) := g (F ! Suc (2 * b))]) ! k =
        (if odd k \<and> a \<le> k div 2 \<and> k div 2 < Suc b then g (tc ! k) else tc ! k)"
      proof (cases "k = Suc (2 * b)")
        case True
        then show ?thesis using bnd ih \<open>a \<le> b\<close> by simp
      next
        case False
        then have "odd k \<longrightarrow> k div 2 \<noteq> b" by (auto elim: oddE)
        then show ?thesis using False ih by (auto simp add: less_Suc_eq)
      qed
    qed
    then show ?thesis using step ih by simp
  qed
qed

lemma flip_texcoord_nth:
  "length (flip_texcoord tc) = length tc \<and>
   (\<forall>k. flip_texcoord tc ! k =
     (if odd k \<and> 1 \<le> k div 2 \<and> k div 2 < length tc div 2 then float32_round (1 - tc ! k)
      else tc ! k))"
  using flip_fold [where b = "length tc div 2" and tc = tc and a = 1
      and g = "\<lambda>x. float32_round (1 - x)"]
  by (simp add: flip_texcoord_def)

lemma LoadOBJ_usertexcoord:
  "LoadOBJ env m = Inr m' \<Longrightarrow>
   usertexcoord m' = flip_texcoord (attrib_texcoords (ParseFromFile env (meshfile m)))"
  by (auto simp: LoadOBJ_def bind_def Let_def split: if_splits list.splits sum.splits)

text \<open>
  C8 (as amended). After a successful OBJ load the stored texture
  coordinates are those of the file, pair by pair, except that for every pair
  of index \<open>i \<ge> 1\<close> the second component \<open>v\<close> is replaced by the single
  nearest to \<open>1 - v\<close> (ties to even); the pair of index 0 is stored as read,
  and so is every first component. The stored value is \<open>1 - v\<close> itself if
  and only if \<open>1 - v\<close> is a single, that is, a multiple of the unit of its
  binade.
\<close>

theorem LoadOBJ_texcoord_flip:
  assumes "LoadOBJ env m = Inr m'"
  shows "length (usertexcoord m') = length (attrib_texcoords (ParseFromFile env (meshfile m))) \<and>
    (\<forall>i. 2 * i + 1 < length (attrib_texcoords (ParseFromFile env (meshfile m))) \<longrightarrow>
       usertexcoord m' ! (2 * i) = attrib_texcoords (ParseFromFile env (meshfile m)) ! (2 * i) \<and>
       usertexcoord m' ! (2 * i + 1) =
         (if 1 \<le> i
          then float32_round (1 - attrib_texcoords (ParseFromFile env (meshfile m)) ! (2 * i + 1))
          else attrib_texcoords (ParseFromFile env (meshfile m)) ! (2 * i + 1)) \<and>
       (1 \<le> i \<longrightarrow>
          (usertexcoord m' ! (2 * i + 1) =
             1 - attrib_texcoords (ParseFromFile env (meshfile m)) ! (2 * i + 1)) =
          (\<exists>k::int. 1 - attrib_texcoords (ParseFromFile env (meshfile m)) ! (2 * i + 1) =
             of_int k * pow2 (float32_exponent
               (1 - attrib_texcoords (ParseFromFile env (meshfile m)) ! (2 * i + 1)) - 23))))"
proof -
  let ?tc = "attrib_texcoords (ParseFromFile env (meshfile m))"
  have eq: "usertexcoord m' = flip_texcoord ?tc"
    using assms by (rule LoadOBJ_usertexcoord)
  have len: "length (flip_texcoord ?tc) = length ?tc"
    and nth: "\<And>k. flip_texcoord ?tc ! k =
      (if odd k \<and> 1 \<le> k div 2 \<and> k div 2 < length ?tc div 2 then float32_round (1 - ?tc ! k)
       else ?tc ! k)"
    using flip_texcoord_nth [of ?tc] by auto
  have "\<And>i. 2 * i + 1 < length ?tc \<Longrightarrow>
       flip_texcoord ?tc ! (2 * i) = ?tc ! (2 * i) \<and>
       flip_texcoord ?tc ! (2 * i + 1) =
         (if 1 \<le> i then float32_round (1 - ?tc ! (2 * i + 1)) else ?tc ! (2 * i + 1)) \<and>
       (1 \<le> i \<longrightarrow>
          (flip_texcoord ?tc ! (2 * i + 1) = 1 - ?tc ! (2 * i + 1)) =
          (\<exists>k::int. 1 - ?tc ! (2 * i + 1) =
             of_int k * pow2 (float32_exponent (1 - ?tc ! (2 * i + 1)) - 23)))"
  proof -
    fix i assume b: "2 * i + 1 < length ?tc"
    then have "i < length ?tc div 2" by linarith
    then have v: "flip_texcoord ?tc ! (2 * i) = ?tc ! (2 * i)"
      "flip_texcoord ?tc ! (2 * i + 1) =
         (if 1 \<le> i then float32_round (1 - ?tc ! (2 * i + 1)) else ?tc ! (2 * i + 1))"
      by (simp_all add: nth)
    have "1 \<le> i \<longrightarrow>
          (flip_texcoord ?tc ! (2 * i + 1) = 1 - ?tc ! (2 * i + 1)) =
          (\<exists>k::int. 1 - ?tc ! (2 * i + 1) =
             of_int k * pow2 (float32_exponent (1 - ?tc ! (2 * i + 1)) - 23))"
      using v(2) float32_round_exact [of "1 - ?tc ! (2 * i + 1)"] by simp
    then show "flip_texcoord ?tc ! (2 * i) = ?tc ! (2 * i) \<and>
       flip_texcoord ?tc ! (2 * i + 1) =
         (if 1 \<le> i then float32_round (1 - ?tc ! (2 * i + 1)) else ?tc ! (2 * i + 1)) \<and>
       (1 \<le> i \<longrightarrow>
          (flip_texcoord ?tc ! (2 * i + 1) = 1 - ?tc ! (2 * i + 1)) =
          (\<exists>k::int. 1 - ?tc ! (2 * i + 1) =
             of_int k * pow2 (float32_exponent (1 - ?tc ! (2 * i + 1)) - 23)))"
      using v by blast
  qed
  then show ?thesis unfolding eq using len by blast
qed

lemma float32_round_examples:
  "float32_round (3 / 4) = 3 / 4" "float32_round 0 = 0"
  "float32_round (120795955 / 134217728) = 7549747 / 8388608"
  by (simp_all add: float32_eval)

lemma obj_texcoords_load:
  "LoadOBJ (plain_env\<lparr>ParseFromFile := (\<lambda>s. obj_texcoords)\<rparr>) (new_mjCMesh ''m'' 0 0)
     = Inr ((new_mjCMesh ''m'' 0 0)\<lparr>usertexcoord := [1 / 4, 1 / 4, 1 / 2, 3 / 4, 3 / 4, 0]\<rparr>)"
  by (simp add: LoadOBJ_def plain_env_def obj_texcoords_def bind_def new_mjCMesh_def
      flip_texcoord_def float32_round_examples)

lemma obj_tenth_load:
  "LoadOBJ (plain_env\<lparr>ParseFromFile := (\<lambda>s. obj_tenth)\<rparr>) (new_mjCMesh ''m'' 0 0)
     = Inr ((new_mjCMesh ''m'' 0 0)\<lparr>usertexcoord := [0, 0, 0, 7549747 / 8388608]\<rparr>)"
  by (simp add: LoadOBJ_def plain_env_def obj_tenth_def bind_def new_mjCMesh_def
      flip_texcoord_def float32_round_examples)

theorem LoadOBJ_texcoord_flip_witness:
  "LoadOBJ (plain_env\<lparr>ParseFromFile := (\<lambda>s. obj_texcoords)\<rparr>) (new_mjCMesh ''m'' 0 0)
     = Inr ((new_mjCMesh ''m'' 0 0)\<lparr>usertexcoord := [1 / 4, 1 / 4, 1 / 2, 3 / 4, 3 / 4, 0]\<rparr>) \<and>
   attrib_texcoords obj_texcoords = [1 / 4, 1 / 4, 1 / 2, 1 / 4, 3 / 4, 1] \<and>
   usertexcoord ((new_mjCMesh ''m'' 0 0)\<lparr>usertexcoord := [1 / 4, 1 / 4, 1 / 2, 3 / 4, 3 / 4, 0]\<rparr>) ! 1
     = attrib_texcoords obj_texcoords ! 1 \<and>
   usertexcoord ((new_mjCMesh ''m'' 0 0)\<lparr>usertexcoord := [1 / 4, 1 / 4, 1 / 2, 3 / 4, 3 / 4, 0]\<rparr>) ! 3
     = float32_round (1 - attrib_texcoords obj_texcoords ! 3) \<and>
   usertexcoord ((new_mjCMesh ''m'' 0 0)\<lparr>usertexcoord := [1 / 4, 1 / 4, 1 / 2, 3 / 4, 3 / 4, 0]\<rparr>) ! 5
     = float32_round (1 - attrib_texcoords obj_texcoords ! 5) \<and>
   float32_round (1 - attrib_texcoords obj_texcoords ! 3) = 3 / 4 \<and>
   float32_round (1 - attrib_texcoords obj_texcoords ! 5) = 0"
proof -
  note h = obj_texcoords_load
  have tc: "attrib_texcoords obj_texcoords = [1 / 4, 1 / 4, 1 / 2, 1 / 4, 3 / 4, 1]"
    by (simp add: obj_texcoords_def)
  note r = float32_round_examples(1,2)
  from LoadOBJ_texcoord_flip [OF h] have
    "\<forall>i. 2 * i + 1 < 6 \<longrightarrow>
       usertexcoord ((new_mjCMesh ''m'' 0 0)\<lparr>usertexcoord := [1 / 4, 1 / 4, 1 / 2, 3 / 4, 3 / 4, 0]\<rparr>) ! (2 * i + 1) =
         (if 1 \<le> i then float32_round (1 - attrib_texcoords obj_texcoords ! (2 * i + 1))
          else attrib_texcoords obj_texcoords ! (2 * i + 1))"
    by (simp add: tc)
  from this [rule_format, of 0] this [rule_format, of 1] this [rule_format, of 2]
  show ?thesis using h tc r by simp
qed

text \<open>
  The claim as stated fails: for \<open>v\<close> the single nearest to one tenth, the
  difference \<open>1 - v\<close> is not a single, and the value stored is the single
  next to it.
\<close>

theorem LoadOBJ_texcoord_flip_counterexample:
  "LoadOBJ (plain_env\<lparr>ParseFromFile := (\<lambda>s. obj_tenth)\<rparr>) (new_mjCMesh ''m'' 0 0)
     = Inr ((new_mjCMesh ''m'' 0 0)\<lparr>usertexcoord := [0, 0, 0, 7549747 / 8388608]\<rparr>) \<and>
   attrib_texcoords obj_tenth ! 3 = 13421773 / 134217728 \<and>
   usertexcoord ((new_mjCMesh ''m'' 0 0)\<lparr>usertexcoord := [0, 0, 0, 7549747 / 8388608]\<rparr>) ! 3
     \<noteq> 1 - attrib_texcoords obj_tenth ! 3"
  by (simp add: obj_tenth_load) (simp add: obj_tenth_def)

subsection \<open>The check of the face orientations\<close>

lemma adjacent_find_sorted_None:
  fixes xs :: "('a::linorder) list"
  shows "sorted xs \<Longrightarrow> (adjacent_find xs = None) = distinct xs"
proof (induction xs rule: adjacent_find.induct)
  case (1 x y rest)
  then show ?case by (cases "x = y") auto
qed simp_all

lemma adjacent_find_sorted_Some:
  fixes xs :: "('a::linorder) list"
  shows "sorted xs \<Longrightarrow> adjacent_find xs = Some z \<Longrightarrow>
    2 \<le> count_list xs z \<and> (\<forall>y. 2 \<le> count_list xs y \<longrightarrow> z \<le> y)"
proof (induction xs rule: adjacent_find.induct)
  case (1 x y rest)
  show ?case
  proof (cases "x = y")
    case True
    then have z: "z = x" using 1 by simp
    have "\<And>y'. 2 \<le> count_list (x # y # rest) y' \<Longrightarrow> x \<le> y'"
    proof -
      fix y' assume "2 \<le> count_list (x # y # rest) y'"
      then have "y' \<in> set (x # y # rest)" by (metis count_list_0_iff not_numeral_le_zero)
      then show "x \<le> y'" using "1.prems"(1) by auto
    qed
    then show ?thesis using z True by simp
  next
    case False
    then have af: "adjacent_find (y # rest) = Some z" using 1 by simp
    have s: "sorted (y # rest)" using "1.prems"(1) by simp
    have ih: "2 \<le> count_list (y # rest) z" "\<And>y'. 2 \<le> count_list (y # rest) y' \<Longrightarrow> z \<le> y'"
      using "1.IH" [OF False s af] by auto
    have xnot: "x \<notin> set (y # rest)" using "1.prems"(1) False by auto
    then have cx: "count_list (y # rest) x = 0" by (metis count_list_0_iff)
    have "\<And>y'. 2 \<le> count_list (x # y # rest) y' \<Longrightarrow> z \<le> y'"
    proof -
      fix y' assume a: "2 \<le> count_list (x # y # rest) y'"
      show "z \<le> y'"
      proof (cases "y' = x")
        case True
        then show ?thesis using a cx by simp
      next
        case False
        then show ?thesis using a ih(2) [of y'] by simp
      qed
    qed
    moreover have "2 \<le> count_list (x # y # rest) z" using ih(1) by simp
    ultimately show ?thesis by blast
  qed
qed simp_all

lemma count_list_insort:
  "count_list (insort x xs) y = count_list (x # xs) y"
  by (induction xs) auto

lemma count_list_sort: "count_list (sort xs) y = count_list xs y"
  by (induction xs) (simp_all add: count_list_insort)

lemma distinct_count_list: "distinct xs = (\<forall>e. count_list xs e < 2)"
proof (induction xs)
  case Nil
  then show ?case by simp
next
  case (Cons a xs)
  show ?case
  proof
    assume d: "distinct (a # xs)"
    then have "count_list xs a = 0" by (simp add: count_list_0_iff)
    then show "\<forall>e. count_list (a # xs) e < 2" using d Cons by auto
  next
    assume c: "\<forall>e. count_list (a # xs) e < 2"
    then have "count_list xs a = 0" using c [rule_format, of a] by simp
    then have "a \<notin> set xs" by (simp add: count_list_0_iff)
    moreover have "\<forall>e. count_list xs e < 2"
    proof
      fix e show "count_list xs e < 2" using c [rule_format, of e] by (simp split: if_splits)
    qed
    ultimately show "distinct (a # xs)" using Cons by simp
  qed
qed

lemma check_orientation_distinct:
  "\<forall>e. count_list (useredge s) e < 2 \<Longrightarrow>
   invalidorientation (check_orientation s) = invalidorientation s"
proof -
  assume a: "\<forall>e. count_list (useredge s) e < 2"
  then have "distinct (useredge s)" using distinct_count_list [of "useredge s"] by blast
  then have "distinct (sort (useredge s))" by simp
  then have "adjacent_find (sort (useredge s)) = None"
    by (simp add: adjacent_find_sorted_None)
  then show ?thesis by (simp add: check_orientation_def Let_def)
qed

lemma check_orientation_duplicate:
  assumes "2 \<le> count_list (useredge s) e"
  shows "\<exists>a b. 2 \<le> count_list (useredge s) (a, b) \<and>
           (\<forall>e'. 2 \<le> count_list (useredge s) e' \<longrightarrow> (a, b) \<le> e') \<and>
           invalidorientation (check_orientation s) = (a + 1, b + 1)"
proof -
  have ne: "useredge s \<noteq> []" using assms by auto
  have "\<not> distinct (useredge s)"
    using assms distinct_count_list [of "useredge s"] by (metis not_le)
  then have "\<not> distinct (sort (useredge s))" by simp
  then obtain z where z: "adjacent_find (sort (useredge s)) = Some z"
    using adjacent_find_sorted_None [of "sort (useredge s)"] by auto
  obtain a b where ab: "z = (a, b)" by (cases z)
  have "2 \<le> count_list (sort (useredge s)) z \<and> (\<forall>y. 2 \<le> count_list (sort (useredge s)) y \<longrightarrow> z \<le> y)"
    using adjacent_find_sorted_Some [OF _ z] by simp
  then have "2 \<le> count_list (useredge s) (a, b) \<and>
           (\<forall>e'. 2 \<le> count_list (useredge s) e' \<longrightarrow> (a, b) \<le> e')"
    by (simp add: count_list_sort ab)
  moreover have "invalidorientation (check_orientation s) = (a + 1, b + 1)"
    using ne z ab by (simp add: check_orientation_def Let_def)
  ultimately show ?thesis by blast
qed

lemma bind_Inr_iff: "bind r f = Inr y \<longleftrightarrow> (\<exists>x. r = Inr x \<and> f x = Inr y)"
  by (cases r) (simp_all add: bind_def)

lemma bind_Inl [simp]: "bind (Inl e) f = Inl e" by (simp add: bind_def)
lemma bind_Inr [simp]: "bind (Inr x) f = f x" by (simp add: bind_def)

lemma map_sum_bind:
  "map_sum id g (bind r f) = bind r (\<lambda>x. map_sum id g (f x))"
  by (cases r) simp_all

lemma map_sum_if:
  "map_sum id g (if c then a else b) = (if c then map_sum id g a else map_sum id g b)"
  by simp

lemma map_sum_option:
  "map_sum id g (case x of None \<Rightarrow> a | Some y \<Rightarrow> b y) =
   (case x of None \<Rightarrow> map_sum id g a | Some y \<Rightarrow> map_sum id g (b y))"
  by (cases x) simp_all

lemmas ms = map_sum_bind map_sum_if map_sum_option

lemma io_commute:
  "(szgraph_update f1 m)\<lparr>invalidorientation := p\<rparr> = szgraph_update f1 (m\<lparr>invalidorientation := p\<rparr>)"
  "(graph_update f2 m)\<lparr>invalidorientation := p\<rparr> = graph_update f2 (m\<lparr>invalidorientation := p\<rparr>)"
  "(nface_update f3 m)\<lparr>invalidorientation := p\<rparr> = nface_update f3 (m\<lparr>invalidorientation := p\<rparr>)"
  "(face_update f4 m)\<lparr>invalidorientation := p\<rparr> = face_update f4 (m\<lparr>invalidorientation := p\<rparr>)"
  "(nnormal_update f5 m)\<lparr>invalidorientation := p\<rparr> = nnormal_update f5 (m\<lparr>invalidorientation := p\<rparr>)"
  "(normal_update f6 m)\<lparr>invalidorientation := p\<rparr> = normal_update f6 (m\<lparr>invalidorientation := p\<rparr>)"
  "(facenormal_update f7 m)\<lparr>invalidorientation := p\<rparr> = facenormal_update f7 (m\<lparr>invalidorientation := p\<rparr>)"
  "(userfacenormal_update f8 m)\<lparr>invalidorientation := p\<rparr> = userfacenormal_update f8 (m\<lparr>invalidorientation := p\<rparr>)"
  "(facetexcoord_update f9 m)\<lparr>invalidorientation := p\<rparr> = facetexcoord_update f9 (m\<lparr>invalidorientation := p\<rparr>)"
  "(userfacetexcoord_update f10 m)\<lparr>invalidorientation := p\<rparr> = userfacetexcoord_update f10 (m\<lparr>invalidorientation := p\<rparr>)"
  "(vert_update f11 m)\<lparr>invalidorientation := p\<rparr> = vert_update f11 (m\<lparr>invalidorientation := p\<rparr>)"
  "(validarea_update f12 m)\<lparr>invalidorientation := p\<rparr> = validarea_update f12 (m\<lparr>invalidorientation := p\<rparr>)"
  "(validvolume_update f13 m)\<lparr>invalidorientation := p\<rparr> = validvolume_update f13 (m\<lparr>invalidorientation := p\<rparr>)"
  "(valideigenvalue_update f14 m)\<lparr>invalidorientation := p\<rparr> = valideigenvalue_update f14 (m\<lparr>invalidorientation := p\<rparr>)"
  "(validinequality_update f15 m)\<lparr>invalidorientation := p\<rparr> = validinequality_update f15 (m\<lparr>invalidorientation := p\<rparr>)"
  "(surface_update f16 m)\<lparr>invalidorientation := p\<rparr> = surface_update f16 (m\<lparr>invalidorientation := p\<rparr>)"
  "(volume_update f17 m)\<lparr>invalidorientation := p\<rparr> = volume_update f17 (m\<lparr>invalidorientation := p\<rparr>)"
  "(pos_surface_update f18 m)\<lparr>invalidorientation := p\<rparr> = pos_surface_update f18 (m\<lparr>invalidorientation := p\<rparr>)"
  "(pos_volume_update f19 m)\<lparr>invalidorientation := p\<rparr> = pos_volume_update f19 (m\<lparr>invalidorientation := p\<rparr>)"
  "(boxsz_surface_update f20 m)\<lparr>invalidorientation := p\<rparr> = boxsz_surface_update f20 (m\<lparr>invalidorientation := p\<rparr>)"
  "(boxsz_volume_update f21 m)\<lparr>invalidorientation := p\<rparr> = boxsz_volume_update f21 (m\<lparr>invalidorientation := p\<rparr>)"
  "(quat_volume_update f22 m)\<lparr>invalidorientation := p\<rparr> = quat_volume_update f22 (m\<lparr>invalidorientation := p\<rparr>)"
  "(quat_surface_update f23 m)\<lparr>invalidorientation := p\<rparr> = quat_surface_update f23 (m\<lparr>invalidorientation := p\<rparr>)"
  "(aabb_update f24 m)\<lparr>invalidorientation := p\<rparr> = aabb_update f24 (m\<lparr>invalidorientation := p\<rparr>)"
  "(processed_update f25 m)\<lparr>invalidorientation := p\<rparr> = processed_update f25 (m\<lparr>invalidorientation := p\<rparr>)"
  by (cases m, simp)+

lemma bind_map_sum: "bind (map_sum id g r) f = bind r (\<lambda>x. f (g x))"
  by (cases r) simp_all

lemma build_graph_io:
  "build_graph (m\<lparr>invalidorientation := p\<rparr>) qh =
   map_sum id (\<lambda>(m', g, fr, w). (m'\<lparr>invalidorientation := p\<rparr>, g, fr, w)) (build_graph m qh)"
  by (simp add: io_commute build_graph_def Let_def ms split_def cong: if_cong)

lemma MakeGraph_io:
  "MakeGraph q (m\<lparr>invalidorientation := p\<rparr>) =
   map_sum id (\<lambda>(m', w). (m'\<lparr>invalidorientation := p\<rparr>, w)) (MakeGraph q m)"
  by (simp add: MakeGraph_def build_graph_io ms split_def bind_map_sum io_commute if_distrib [of "invalidorientation_update f" for f]
      split: option.splits sum.splits cong: if_cong)

lemma CopyGraph_io:
  "CopyGraph (m\<lparr>invalidorientation := p\<rparr>) =
   map_sum id (\<lambda>m'. m'\<lparr>invalidorientation := p\<rparr>) (CopyGraph m)"
  by (simp add: io_commute CopyGraph_def ms split: option.splits cong: if_cong)

lemma MakeNormal_io:
  "MakeNormal env (m\<lparr>invalidorientation := p\<rparr>) =
   map_sum id (\<lambda>m'. m'\<lparr>invalidorientation := p\<rparr>) (MakeNormal env m)"
  by (simp add: io_commute MakeNormal_def ms Let_def split_def split: option.splits cong: if_cong)

lemma copy_userfacenormal_io:
  "copy_userfacenormal (m\<lparr>invalidorientation := p\<rparr>) =
   map_sum id (\<lambda>m'. m'\<lparr>invalidorientation := p\<rparr>) (copy_userfacenormal m)"
  by (simp add: io_commute copy_userfacenormal_def cleared_def)

lemma copy_userfacetexcoord_io:
  "copy_userfacetexcoord (m\<lparr>invalidorientation := p\<rparr>) =
   map_sum id (\<lambda>m'. m'\<lparr>invalidorientation := p\<rparr>) (copy_userfacetexcoord m)"
  by (simp add: io_commute copy_userfacetexcoord_def cleared_def)

lemma default_facenormal_io:
  "default_facenormal (m\<lparr>invalidorientation := p\<rparr>) =
   map_sum id (\<lambda>m'. m'\<lparr>invalidorientation := p\<rparr>) (default_facenormal m)"
  by (simp add: io_commute default_facenormal_def split: option.splits cong: if_cong)

lemma process_type_io:
  "\<not> processed m \<Longrightarrow> process_type env type fc (m\<lparr>invalidorientation := p\<rparr>) =
   map_sum id (\<lambda>(m', r). (m'\<lparr>invalidorientation := p\<rparr>, r)) (process_type env type fc m)"
  by (cases type) (simp_all add: io_commute process_type_def CheckMesh_def ms Let_def split_def
      set_volume_def set_pos_def set_boxsz_def  split: option.splits cong: if_cong)

lemma process_type_processed:
  "process_type env type fc m = Inr (m', r) \<Longrightarrow> processed m' = processed m"
  apply (cases type)
   apply (simp_all add: process_type_def bind_def Let_def split_def
      set_volume_def set_pos_def set_boxsz_def split: option.splits sum.splits if_splits)
         apply auto
  done

lemma prepass_io:
  "prepass_vert env (m\<lparr>invalidorientation := p\<rparr>) = prepass_vert env m"
  "prepass_normal env (m\<lparr>invalidorientation := p\<rparr>) = prepass_normal env m"
  by (simp_all add: fun_eq_iff prepass_vert_def prepass_normal_def translate_vert_def
      rotate_array_def scale_array_def)

lemma Process_io:
  assumes np: "\<not> processed m"
  shows "Process env (m\<lparr>invalidorientation := p\<rparr>) =
   map_sum id (\<lambda>m'. m'\<lparr>invalidorientation := p\<rparr>) (Process env m)"
proof (cases "\<exists>v n f. vert m = Some v \<and> normal m = Some n \<and> face m = Some f")
  case False
  then show ?thesis by (auto simp: Process_def split: option.splits)
next
  case True
  then obtain v n f where vnf: "vert m = Some v" "normal m = Some n" "face m = Some f" by blast
  define m1 where "m1 = m\<lparr>vert := Some (prepass_vert env m v), normal := Some (prepass_normal env m n)\<rparr>"
  define rest where "rest = (\<lambda>x (fa :: vec3 \<times> real).
     bind (process_type env mjVOLUME_MESH (smul (1 / snd fa) (fst fa)) x) (\<lambda>(m2, returned).
       if returned then Inr m2
       else bind (process_type env mjSHELL_MESH (0, 0, 0) m2) (\<lambda>(m3, _). Inr m3)))"
  have np1: "\<not> processed m1" using np by (simp add: m1_def)
  have P: "Process env m =
    (if int (length v) < 3 * nvert m \<or> int (length n) < 3 * nnormal m
     then Inl (Undefined ''read out of bounds'')
     else bind (face_centroid (nvert m) (prepass_vert env m v) f [0..nface m - 1] ((0, 0, 0), 0))
       (\<lambda>fa. if snd fa < mjMINVAL then Inr (m1\<lparr>validarea := False\<rparr>) else rest m1 fa))"
    by (simp add: Process_def vnf m1_def rest_def Let_def split_def cong: if_cong)
  have P': "Process env (m\<lparr>invalidorientation := p\<rparr>) =
    (if int (length v) < 3 * nvert m \<or> int (length n) < 3 * nnormal m
     then Inl (Undefined ''read out of bounds'')
     else bind (face_centroid (nvert m) (prepass_vert env m v) f [0..nface m - 1] ((0, 0, 0), 0))
       (\<lambda>fa. if snd fa < mjMINVAL then Inr (m1\<lparr>validarea := False, invalidorientation := p\<rparr>)
              else rest (m1\<lparr>invalidorientation := p\<rparr>) fa))"
    by (simp add: Process_def vnf m1_def rest_def Let_def split_def prepass_io io_commute cong: if_cong)
  have R: "\<And>fa. rest (m1\<lparr>invalidorientation := p\<rparr>) fa =
      map_sum id (\<lambda>m'. m'\<lparr>invalidorientation := p\<rparr>) (rest m1 fa)"
  proof -
    fix fa
    show "rest (m1\<lparr>invalidorientation := p\<rparr>) fa =
      map_sum id (\<lambda>m'. m'\<lparr>invalidorientation := p\<rparr>) (rest m1 fa)"
    proof (cases "process_type env mjVOLUME_MESH (smul (1 / snd fa) (fst fa)) m1")
      case (Inl e)
      then show ?thesis by (simp add: rest_def process_type_io [OF np1])
    next
      case (Inr mr)
      obtain m2 r where mr: "mr = (m2, r)" by (cases mr)
      have "\<not> processed m2" using Inr mr process_type_processed np1 by fastforce
      then show ?thesis
        using Inr mr
        by (simp add: rest_def process_type_io [OF np1] process_type_io [of m2] ms bind_map_sum
            split_def)
    qed
  qed
  show ?thesis
    by (simp add: P P' R ms cong: if_cong)
qed

lemma Process_processed:
  "Process env m = Inr m' \<Longrightarrow> processed m' = processed m"
  apply (simp add: Process_def bind_def Let_def split_def split: option.splits sum.splits if_splits)
     apply (auto dest!: process_type_processed)
  done

lemma build_graph_processed:
  "build_graph m qh = Inr (m', g, fr, w) \<Longrightarrow> processed m' = processed m"
  apply (simp add: build_graph_def bind_def Let_def split_def split: sum.splits if_splits)
   apply auto
  done

lemma MakeGraph_processed:
  "MakeGraph q m = Inr (m', w) \<Longrightarrow> processed m' = processed m"
  apply (simp add: MakeGraph_def bind_def Let_def split_def split: option.splits sum.splits if_splits)
  apply (auto dest!: build_graph_processed)
  done

lemma CopyGraph_processed:
  "CopyGraph m = Inr m' \<Longrightarrow> processed m' = processed m"
  apply (simp add: CopyGraph_def bind_def split: option.splits sum.splits if_splits)
  apply auto
  done

lemma MakeNormal_processed:
  "MakeNormal env m = Inr m' \<Longrightarrow> processed m' = processed m"
  apply (simp add: MakeNormal_def bind_def Let_def split_def split: option.splits sum.splits if_splits)
  apply auto
  done

lemma copy_userfacenormal_processed:
  "copy_userfacenormal m = Inr m' \<Longrightarrow> processed m' = processed m"
  by (auto simp add: copy_userfacenormal_def split: if_splits)

lemma copy_userfacetexcoord_processed:
  "copy_userfacetexcoord m = Inr m' \<Longrightarrow> processed m' = processed m"
  by (auto simp add: copy_userfacetexcoord_def split: if_splits)

lemma default_facenormal_processed:
  "default_facenormal m = Inr m' \<Longrightarrow> processed m' = processed m"
  by (auto simp add: default_facenormal_def split: if_splits option.splits)

lemma compose_io:
  assumes "f (m\<lparr>invalidorientation := p\<rparr>) = map_sum id (\<lambda>m'. m'\<lparr>invalidorientation := p\<rparr>) (f m)"
    and "\<And>m'. f m = Inr m' \<Longrightarrow> \<not> processed m'"
    and "\<And>m'. \<not> processed m' \<Longrightarrow>
           k (m'\<lparr>invalidorientation := p\<rparr>) = map_sum id (\<lambda>m'. m'\<lparr>invalidorientation := p\<rparr>) (k m')"
  shows "bind (f (m\<lparr>invalidorientation := p\<rparr>)) k =
         map_sum id (\<lambda>m'. m'\<lparr>invalidorientation := p\<rparr>) (bind (f m) k)"
  using assms by (cases "f m") simp_all

lemma finish_io:
  assumes np: "\<not> processed m"
  shows "finish env (m\<lparr>invalidorientation := p\<rparr>) =
         map_sum id (\<lambda>m'. m'\<lparr>invalidorientation := p\<rparr>) (finish env m)"
proof -
  let ?io = "\<lambda>m'. m'\<lparr>invalidorientation := p\<rparr>"
  define s1 where "s1 = (\<lambda>m. if (convexhull env \<and> needhull m) \<or> face m = None
              then bind (MakeGraph (qhull env) m) (\<lambda>(m', warnings). Inr m')
              else Inr m)"
  define s2 where "s2 = (\<lambda>m1. if face m1 = None then CopyGraph m1 else Inr m1)"
  define s3 where "s3 = (\<lambda>m2. if normal m2 = None then MakeNormal env m2 else Inr m2)"
  define k7 where "k7 = (\<lambda>m7 :: mjCMesh. (Inr (m7\<lparr>processed := True\<rparr>) :: mjCMesh result))"
  define k6 where "k6 = (\<lambda>m6. bind (Process env m6) k7)"
  define k5 where "k5 = (\<lambda>m5. bind (default_facenormal m5) k6)"
  define k4 where "k4 = (\<lambda>m4. bind (copy_userfacetexcoord m4) k5)"
  define k3 where "k3 = (\<lambda>m3. bind (copy_userfacenormal m3) k4)"
  define k2 where "k2 = (\<lambda>m2. bind (s3 m2) k3)"
  define k1 where "k1 = (\<lambda>m1. bind (s2 m1) k2)"
  have fin: "\<And>m. finish env m = (if vert m = None then Inl (mjCError ''no vertices'') else bind (s1 m) k1)"
    by (simp add: finish_def s1_def s2_def s3_def k1_def k2_def k3_def k4_def k5_def k6_def k7_def)
  have s1_io: "\<And>m. s1 (?io m) = map_sum id ?io (s1 m)"
    by (simp add: s1_def MakeGraph_io ms bind_map_sum split_def)
  have s1_p: "\<And>m m'. s1 m = Inr m' \<Longrightarrow> processed m' = processed m"
    by (auto simp: s1_def bind_Inr_iff split: if_splits dest: MakeGraph_processed)
  have s2_io: "\<And>m. s2 (?io m) = map_sum id ?io (s2 m)"
    by (simp add: s2_def CopyGraph_io)
  have s2_p: "\<And>m m'. s2 m = Inr m' \<Longrightarrow> processed m' = processed m"
    by (auto simp: s2_def split: if_splits dest: CopyGraph_processed)
  have s3_io: "\<And>m. s3 (?io m) = map_sum id ?io (s3 m)"
    by (simp add: s3_def MakeNormal_io)
  have s3_p: "\<And>m m'. s3 m = Inr m' \<Longrightarrow> processed m' = processed m"
    by (auto simp: s3_def split: if_splits dest: MakeNormal_processed)
  have k6: "\<And>m. \<not> processed m \<Longrightarrow> k6 (?io m) = map_sum id ?io (k6 m)"
    by (simp add: k6_def k7_def Process_io ms bind_map_sum io_commute)
  have k5: "\<And>m. \<not> processed m \<Longrightarrow> k5 (?io m) = map_sum id ?io (k5 m)"
    unfolding k5_def
    by (rule compose_io) (simp_all add: default_facenormal_io default_facenormal_processed k6)
  have k4: "\<And>m. \<not> processed m \<Longrightarrow> k4 (?io m) = map_sum id ?io (k4 m)"
    unfolding k4_def
    by (rule compose_io) (simp_all add: copy_userfacetexcoord_io copy_userfacetexcoord_processed k5)
  have k3: "\<And>m. \<not> processed m \<Longrightarrow> k3 (?io m) = map_sum id ?io (k3 m)"
    unfolding k3_def
    by (rule compose_io) (simp_all add: copy_userfacenormal_io copy_userfacenormal_processed k4)
  have k2: "\<And>m. \<not> processed m \<Longrightarrow> k2 (?io m) = map_sum id ?io (k2 m)"
    unfolding k2_def
    by (rule compose_io) (simp_all add: s3_io s3_p k3)
  have k1: "\<And>m. \<not> processed m \<Longrightarrow> k1 (?io m) = map_sum id ?io (k1 m)"
    unfolding k1_def
    by (rule compose_io) (simp_all add: s2_io s2_p k2)
  have "bind (s1 (?io m)) k1 = map_sum id ?io (bind (s1 m) k1)"
    by (rule compose_io) (simp_all add: s1_io s1_p k1 np)
  then show ?thesis by (simp add: fin)
qed

lemma finish_invalidorientation:
  assumes "\<not> processed m" "finish env m = Inr m'"
  shows "invalidorientation m' = invalidorientation m \<and> processed m'"
proof -
  have "finish env (m\<lparr>invalidorientation := invalidorientation m\<rparr>) =
        map_sum id (\<lambda>m'. m'\<lparr>invalidorientation := invalidorientation m\<rparr>) (finish env m)"
    using assms(1) by (rule finish_io)
  then have "m' = m'\<lparr>invalidorientation := invalidorientation m\<rparr>"
    using assms(2) by simp
  then have "invalidorientation m' = invalidorientation m"
    by (metis mjCMesh.select_convs(36) mjCMesh.surjective mjCMesh.update_convs(36))
  moreover have "processed m'"
    using assms(2) by (auto simp: finish_def bind_Inr_iff split: if_splits)
  ultimately show ?thesis by simp
qed

lemma edges_ok_Nil [simp]: "edges_ok []"
  by (simp add: edges_ok_def)

lemma copy_words_Inr:
  "copy_words buffer off n = Inr ws \<Longrightarrow> length ws = nat n \<and> 0 \<le> n"
  by (auto simp: copy_words_def split: if_splits)

lemma msh_steps:
  "msh_vert buffer nv m = Inr (m', fd') \<Longrightarrow>
     processed m' = processed m \<and> useredge m' = useredge m \<and> usertexcoord m' = usertexcoord m \<and>
     texcoord m' = texcoord m \<and> ntexcoord m' = ntexcoord m \<and> nface m' = nface m \<and>
     face m' = face m \<and> facenormal m' = facenormal m \<and> fd' = 16 + 12 * nv"
  "msh_normal buffer nv nn (m, fd) = Inr (m', fd') \<Longrightarrow>
     processed m' = processed m \<and> useredge m' = useredge m \<and> usertexcoord m' = usertexcoord m \<and>
     texcoord m' = texcoord m \<and> ntexcoord m' = ntexcoord m \<and> nface m' = nface m \<and>
     face m' = face m \<and> facenormal m' = facenormal m \<and>
     fd' = (if nn \<noteq> 0 then fd + 12 * nv else fd)"
  "msh_texcoord buffer nv nt (m, fd) = Inr (m', fd') \<Longrightarrow>
     processed m' = processed m \<and> useredge m' = useredge m \<and> usertexcoord m' = usertexcoord m \<and>
     ntexcoord m' = ntexcoord m \<and> nface m' = nface m \<and>
     face m' = face m \<and> facenormal m' = facenormal m \<and>
     fd' = (if nt \<noteq> 0 then fd + 8 * nv else fd) \<and>
     (if nt \<noteq> 0 then \<exists>tc. texcoord m' = Some tc \<and> int (length tc) = 2 * nv
      else texcoord m' = texcoord m)"
  "msh_face buffer nf (m, fd) = Inr (m', fd') \<Longrightarrow>
     processed m' = processed m \<and> useredge m' = useredge m \<and> usertexcoord m' = usertexcoord m \<and>
     texcoord m' = texcoord m \<and> ntexcoord m' = ntexcoord m \<and> nface m' = nface m \<and> fd' = fd \<and>
     (if nf \<noteq> 0 then \<exists>F. copy_words buffer fd (3 * nf) = Inr F \<and> face m' = Some (map s32 F) \<and>
                          facenormal m' = Some (map s32 F)
      else face m' = face m \<and> facenormal m' = facenormal m)"
  "msh_facetexcoord buffer nf (m, fd) = Inr m' \<Longrightarrow>
     processed m' = processed m \<and> useredge m' = useredge m \<and> usertexcoord m' = usertexcoord m \<and>
     texcoord m' = texcoord m \<and> ntexcoord m' = ntexcoord m \<and> nface m' = nface m \<and>
     face m' = face m \<and> facenormal m' = facenormal m"
  by (auto simp: msh_vert_def msh_normal_def msh_texcoord_def msh_face_def msh_facetexcoord_def
      bind_Inr_iff split: if_split_asm dest: copy_words_Inr)

lemma msh_lefthanded_frame:
  "msh_lefthanded rh nf m = Inr m' \<Longrightarrow>
     processed m' = processed m \<and> useredge m' = useredge m \<and> usertexcoord m' = usertexcoord m \<and>
     texcoord m' = texcoord m \<and> ntexcoord m' = ntexcoord m \<and> nface m' = nface m \<and>
     facenormal m' = facenormal m"
  by (auto simp: msh_lefthanded_def bind_Inr_iff split: if_split_asm option.splits)

lemma msh_header_Inr:
  "msh_header buffer = Inr (nv, nn, nt, nf) \<Longrightarrow>
     nv = s32 (u32_at buffer 0) \<and> nn = s32 (u32_at buffer 4) \<and> nt = s32 (u32_at buffer 8) \<and>
     nf = s32 (u32_at buffer 12) \<and> 4 \<le> nv \<and> 0 \<le> nf \<and> (nn = 0 \<or> nn = nv) \<and> (nt = 0 \<or> nt = nv) \<and>
     int (length buffer) = 16 + 12 * nv + 12 * nn + 8 * nt + 12 * nf"
  by (auto simp: msh_header_def Let_def split: if_split_asm)

text \<open>The steps of a successful MSH load.\<close>

lemma LoadMSH_steps:
  assumes "LoadMSH env m = Inr m'"
  obtains buffer nv nn nt nf m1 fd1 m2 fd2 m3 fd3 m4 fd4 m5 where
    "files env (meshfile m) = Some buffer" "msh_header buffer = Inr (nv, nn, nt, nf)"
    "msh_vert buffer nv (m\<lparr>nvert := nv, nnormal := nn, ntexcoord := nt, nface := nf\<rparr>) = Inr (m1, fd1)"
    "msh_normal buffer nv nn (m1, fd1) = Inr (m2, fd2)"
    "msh_texcoord buffer nv nt (m2, fd2) = Inr (m3, fd3)"
    "msh_face buffer nf (m3, fd3) = Inr (m4, fd4)"
    "msh_facetexcoord buffer nf (m4, fd4) = Inr m5"
    "msh_lefthanded (righthand m) nf m5 = Inr m'"
proof -
  obtain buffer where b: "files env (meshfile m) = Some buffer"
    using assms by (cases "files env (meshfile m)") (simp_all add: LoadMSH_def)
  from assms b obtain h s1 s2 s3 s4 m5 where
    "msh_header buffer = Inr h"
    "msh_vert buffer (fst h) (m\<lparr>nvert := fst h, nnormal := fst (snd h),
        ntexcoord := fst (snd (snd h)), nface := snd (snd (snd h))\<rparr>) = Inr s1"
    "msh_normal buffer (fst h) (fst (snd h)) s1 = Inr s2"
    "msh_texcoord buffer (fst h) (fst (snd (snd h))) s2 = Inr s3"
    "msh_face buffer (snd (snd (snd h))) s3 = Inr s4"
    "msh_facetexcoord buffer (snd (snd (snd h))) s4 = Inr m5"
    "msh_lefthanded (righthand m) (snd (snd (snd h))) m5 = Inr m'"
    by (auto simp: LoadMSH_def bind_Inr_iff split_def)
  then show ?thesis
    using that [of buffer "fst h" "fst (snd h)" "fst (snd (snd h))" "snd (snd (snd h))"
        "fst s1" "snd s1" "fst s2" "snd s2" "fst s3" "snd s3" "fst s4" "snd s4" m5] b
    by simp
qed

lemma LoadMSH_frame:
  assumes "LoadMSH env m = Inr m'"
  shows "processed m' = processed m \<and> useredge m' = useredge m \<and> usertexcoord m' = usertexcoord m"
proof -
  from assms obtain buffer nv nn nt nf m1 fd1 m2 fd2 m3 fd3 m4 fd4 m5 where
    s: "msh_vert buffer nv (m\<lparr>nvert := nv, nnormal := nn, ntexcoord := nt, nface := nf\<rparr>) = Inr (m1, fd1)"
    "msh_normal buffer nv nn (m1, fd1) = Inr (m2, fd2)"
    "msh_texcoord buffer nv nt (m2, fd2) = Inr (m3, fd3)"
    "msh_face buffer nf (m3, fd3) = Inr (m4, fd4)"
    "msh_facetexcoord buffer nf (m4, fd4) = Inr m5"
    "msh_lefthanded (righthand m) nf m5 = Inr m'"
    by (rule LoadMSH_steps)
  show ?thesis
    using msh_steps(1) [OF s(1)] msh_steps(2) [OF s(2)] msh_steps(3) [OF s(3)] msh_steps(4) [OF s(4)]
      msh_steps(5) [OF s(5)] msh_lefthanded_frame [OF s(6)]
    by simp
qed

lemma LoadMSH_tex:
  assumes "LoadMSH env m = Inr m'" and "texcoord m = None"
  shows "tex_ok m'"
proof -
  from assms(1) obtain buffer nv nn nt nf m1 fd1 m2 fd2 m3 fd3 m4 fd4 m5 where
    h: "msh_header buffer = Inr (nv, nn, nt, nf)" and
    s: "msh_vert buffer nv (m\<lparr>nvert := nv, nnormal := nn, ntexcoord := nt, nface := nf\<rparr>) = Inr (m1, fd1)"
    "msh_normal buffer nv nn (m1, fd1) = Inr (m2, fd2)"
    "msh_texcoord buffer nv nt (m2, fd2) = Inr (m3, fd3)"
    "msh_face buffer nf (m3, fd3) = Inr (m4, fd4)"
    "msh_facetexcoord buffer nf (m4, fd4) = Inr m5"
    "msh_lefthanded (righthand m) nf m5 = Inr m'"
    by (rule LoadMSH_steps)
  have nt: "nt = 0 \<or> nt = nv" using msh_header_Inr [OF h] by blast
  have 2: "texcoord m2 = None" "ntexcoord m2 = nt"
    using msh_steps(1) [OF s(1)] msh_steps(2) [OF s(2)] assms(2) by simp_all
  have 3: "ntexcoord m3 = nt"
    "if nt \<noteq> 0 then \<exists>tc. texcoord m3 = Some tc \<and> int (length tc) = 2 * nv else texcoord m3 = None"
    using msh_steps(3) [OF s(3)] 2 by (simp_all split: if_split_asm)
  have e: "texcoord m' = texcoord m3" "ntexcoord m' = ntexcoord m3"
    using msh_steps(4) [OF s(4)] msh_steps(5) [OF s(5)] msh_lefthanded_frame [OF s(6)] by simp_all
  show ?thesis
    using 3 e nt by (auto simp: tex_ok_def split: if_split_asm)
qed

lemma RemoveRepeated_frame:
  "RemoveRepeated env m = Inr m' \<Longrightarrow>
     processed m' = processed m \<and> useredge m' = useredge m \<and> usertexcoord m' = usertexcoord m
     \<and> texcoord m' = texcoord m \<and> ntexcoord m' = ntexcoord m"
  apply (simp add: RemoveRepeated_def Let_def split: option.splits if_splits)
  apply (simp add: bind_def split: sum.splits prod.splits if_splits)
  apply auto
  done

lemma stl_read_frame:
  "stl_read env m = Inr m' \<Longrightarrow>
     processed m' = processed m \<and> useredge m' = useredge m \<and> usertexcoord m' = usertexcoord m
     \<and> texcoord m' = texcoord m \<and> ntexcoord m' = ntexcoord m"
  apply (simp add: stl_read_def Let_def split: option.splits if_splits)
  apply (simp add: bind_def split: sum.splits prod.splits if_splits)
  apply auto
  done

lemma LoadSTL_frame:
  "LoadSTL env m = Inr m' \<Longrightarrow>
     processed m' = processed m \<and> useredge m' = useredge m \<and> usertexcoord m' = usertexcoord m
     \<and> texcoord m' = texcoord m \<and> ntexcoord m' = ntexcoord m"
  by (auto simp: LoadSTL_def bind_Inr_iff dest!: stl_read_frame RemoveRepeated_frame)

lemma load3_nonneg: "load3 v i = Inr p \<Longrightarrow> 0 \<le> i"
  by (simp add: load3_def split: if_splits)

lemma obj_edges_ok:
  "obj_edges uv fi es = Inr es' \<Longrightarrow> edges_ok es \<Longrightarrow> edges_ok es'"
proof (induction uv fi es rule: obj_edges.induct)
  case (1 uv a b c rest es)
  from "1.prems"(1) obtain v0 v1 v2 where
    l: "load3 uv (vertex_index a) = Inr v0" "load3 uv (vertex_index b) = Inr v1"
       "load3 uv (vertex_index c) = Inr v2"
    and r: "(if fst (triangle v0 v1 v2) > sqrt mjMINVAL
       then obj_edges uv rest (es @ edges_of (vertex_index a) (vertex_index b) (vertex_index c))
       else obj_edges uv rest es) = Inr es'"
    by (auto simp: bind_Inr_iff)
  have nn: "0 \<le> vertex_index a" "0 \<le> vertex_index b" "0 \<le> vertex_index c"
    using l by (auto dest: load3_nonneg)
  have ok': "edges_ok (es @ edges_of (vertex_index a) (vertex_index b) (vertex_index c))"
    using "1.prems"(2) nn by (auto simp: edges_ok_def edges_of_def)
  show ?case
  proof (cases "fst (triangle v0 v1 v2) > sqrt mjMINVAL")
    case True
    then show ?thesis using "1.IH"(1) [OF True _ ok'] r by simp
  next
    case False
    then show ?thesis using "1.IH"(2) [OF False _ "1.prems"(2)] r by simp
  qed
qed simp_all

lemma LoadOBJ_frame:
  "LoadOBJ env m = Inr m' \<Longrightarrow>
     processed m' = processed m \<and> texcoord m' = texcoord m \<and> ntexcoord m' = ntexcoord m
     \<and> (edges_ok (useredge m) \<longrightarrow> edges_ok (useredge m'))"
  apply (simp add: LoadOBJ_def Let_def split: if_splits)
  apply (simp add: bind_def split: sum.splits list.splits)
  apply (auto dest: obj_edges_ok)
  done

lemma tex_ok_cong: "texcoord m' = texcoord m \<Longrightarrow> ntexcoord m' = ntexcoord m \<Longrightarrow> tex_ok m' = tex_ok m"
  by (simp add: tex_ok_def)

lemma load_file_frame:
  assumes "load_file env m = Inr m'"
  shows "processed m' = processed m \<and> (edges_ok (useredge m) \<longrightarrow> edges_ok (useredge m'))
     \<and> (texcoord m = None \<and> ntexcoord m = 0 \<longrightarrow> tex_ok m')"
proof (cases "meshfile m = []")
  case True
  then show ?thesis using assms by (auto simp add: load_file_def tex_ok_def)
next
  case False
  define m0 where "m0 = (if strippath env then m\<lparr>meshfile := mjuu_strippath env (meshfile m)\<rparr> else m)"
  have m0: "processed m0 = processed m" "useredge m0 = useredge m" "texcoord m0 = texcoord m"
    "ntexcoord m0 = ntexcoord m"
    by (simp_all add: m0_def)
  consider "LoadSTL env m0 = Inr m'" | "LoadOBJ env m0 = Inr m'" | "LoadMSH env m0 = Inr m'"
    using assms False by (auto simp: load_file_def m0_def Let_def split: if_splits)
  then show ?thesis
  proof cases
    case 1
    from LoadSTL_frame [OF 1] show ?thesis using m0 by (auto simp: tex_ok_def)
  next
    case 2
    from LoadOBJ_frame [OF 2] show ?thesis using m0 by (auto simp: tex_ok_def)
  next
    case 3
    from LoadMSH_frame [OF 3] LoadMSH_tex [OF 3] show ?thesis using m0 by simp
  qed
qed

lemma face_edges_ok:
  "face_edges v uf is es = Inr es' \<Longrightarrow> edges_ok es \<Longrightarrow> edges_ok es'"
proof (induction v uf "is" es rule: face_edges.induct)
  case (2 v uf i rest es)
  from "2.prems"(1) obtain v0 v1 v2 p0 p1 p2 where
    l: "load3 v v0 = Inr p0" "load3 v v1 = Inr p1" "load3 v v2 = Inr p2"
    and r: "(if fst (triangle p0 p1 p2) > sqrt mjMINVAL
       then face_edges v uf rest (es @ edges_of v0 v1 v2)
       else face_edges v uf rest es) = Inr es'"
    by (auto simp: bind_Inr_iff)
  have nn: "0 \<le> v0" "0 \<le> v1" "0 \<le> v2"
    using l by (auto dest: load3_nonneg)
  have ok': "edges_ok (es @ edges_of v0 v1 v2)"
    using "2.prems"(2) nn by (auto simp: edges_ok_def edges_of_def)
  show ?case
  proof (cases "fst (triangle p0 p1 p2) > sqrt mjMINVAL")
    case True
    then show ?thesis using "2.IH"(1) [OF True _ ok'] r by simp
  next
    case False
    then show ?thesis using "2.IH"(2) [OF False _ "2.prems"(2)] r by simp
  qed
qed simp_all

lemma copy_frames:
  "copy_uservert m = Inr m' \<Longrightarrow> processed m' = processed m \<and> useredge m' = useredge m \<and> tex_ok m' = tex_ok m"
  "copy_usernormal m = Inr m' \<Longrightarrow> processed m' = processed m \<and> useredge m' = useredge m \<and> tex_ok m' = tex_ok m"
  by (auto simp: copy_uservert_def copy_usernormal_def tex_ok_def split: if_splits)

lemma copy_usertexcoord_frame:
  "copy_usertexcoord m = Inr m' \<Longrightarrow>
     processed m' = processed m \<and> useredge m' = useredge m \<and> (tex_ok m \<longrightarrow> tex_ok m')"
  by (auto simp: copy_usertexcoord_def tex_ok_def split: if_splits)

lemma copy_userface_frame:
  "copy_userface m = Inr m' \<Longrightarrow>
     processed m' = processed m \<and> (edges_ok (useredge m) \<longrightarrow> edges_ok (useredge m'))
     \<and> tex_ok m' = tex_ok m"
  apply (simp add: copy_userface_def Let_def split: if_splits option.splits)
       apply (auto simp: tex_ok_def bind_Inr_iff dest!: face_edges_ok)
  done

lemma stage_frame:
  assumes "stage env m = Inr s"
  shows "processed s = processed m \<and> (edges_ok (useredge m) \<longrightarrow> edges_ok (useredge s))
     \<and> (texcoord m = None \<and> ntexcoord m = 0 \<longrightarrow> tex_ok s)"
proof -
  from assms obtain m1 m2 m3 m4 where
    a: "load_file env m = Inr m1" "copy_uservert m1 = Inr m2" "copy_usernormal m2 = Inr m3"
       "copy_usertexcoord m3 = Inr m4" "copy_userface m4 = Inr s"
    by (auto simp: stage_def bind_Inr_iff)
  show ?thesis
    using load_file_frame [OF a(1)] copy_frames(1) [OF a(2)] copy_frames(2) [OF a(3)]
      copy_usertexcoord_frame [OF a(4)] copy_userface_frame [OF a(5)]
    by simp
qed

lemma mjMINVAL_pos: "0 < mjMINVAL" by (simp add: mjMINVAL_def)

lemma sqrt_mjMINVAL: "sqrt mjMINVAL < 1 / 2"
proof -
  have "sqrt mjMINVAL < sqrt (1 / 4)"
    by (simp add: mjMINVAL_def del: real_sqrt_lt_1_iff)
  also have "sqrt (1 / 4) = 1 / 2" by (simp add: real_sqrt_divide)
  finally show ?thesis .
qed

lemma mjMINVAL_facts: "\<not> 1 < mjMINVAL" "\<not> mjMINVAL < 0" "mjMINVAL < 1" "0 < mjMINVAL"
  "sqrt mjMINVAL * 2 < 1"
  using sqrt_mjMINVAL by (simp_all add: mjMINVAL_def)

lemma upto_eval: "[0..0] = [0]" "[0..1] = [0, 1]"
  by (simp_all add: upto.simps)

lemmas eval_defs = stage_def load_file_def new_mjCMesh_def copy_uservert_def copy_usernormal_def
     copy_usertexcoord_def copy_userface_def cleared_def Let_def load_def load3_def triangle_def
     edges_of_def upto_eval sqrt_mjMINVAL mjMINVAL_facts

lemmas fin_defs = finish_def plain_env_def copy_userfacenormal_def copy_userfacetexcoord_def
   default_facenormal_def Process_def process_type_def CheckMesh_def prepass_vert_def prepass_normal_def
   translate_vert_def rotate_array_def scale_array_def renormalize_def face_ids_def face_triangle_def
   pyramid_vol_def vadd_def vsub_def smul_def set_volume_def

lemma edges_ok_count:
  "edges_ok es \<Longrightarrow> 2 \<le> count_list es (a, b) \<Longrightarrow> 0 \<le> a \<and> 0 \<le> b"
proof -
  assume ok: "edges_ok es" and c: "2 \<le> count_list es (a, b)"
  have "(a, b) \<in> set es" using c by (metis count_list_0_iff not_numeral_le_zero)
  then show ?thesis using ok by (auto simp: edges_ok_def)
qed

text \<open>
  C7. Let \<open>s\<close> be the mesh after staging (a new mesh: not processed, no
  edges given). \<^verbatim>\<open>Compile\<close> continues with the check of the orientation,
  which sorts the directed edges and looks at neighbours, and cannot fail.
  If no edge occurs twice, \<^verbatim>\<open>invalidorientation\<close> is left as it was. If
  some edge occurs at least twice, \<^verbatim>\<open>invalidorientation\<close> becomes
  \<open>(a + 1, b + 1)\<close> for an edge \<open>(a, b)\<close> that occurs at least twice, the
  least such edge in the lexicographic order. Whatever pair is recorded, the
  remaining steps of \<^verbatim>\<open>Compile\<close> end in the same way (the same error, or
  the same mesh up to that pair), and when \<^verbatim>\<open>Compile\<close> returns the mesh is
  processed, carries the pair, and \<^verbatim>\<open>CheckMesh\<close> then raises the error of
  inconsistent orientation if an edge occurred twice.
\<close>

theorem Compile_orientation_check:
  assumes st: "stage env m = Inr s" and np: "\<not> processed m" and ue: "useredge m = []"
  shows "Compile env m = finish env (check_orientation s) \<and>
    ((\<forall>e. count_list (useredge s) e < 2) \<longrightarrow>
       invalidorientation (check_orientation s) = invalidorientation s) \<and>
    ((\<exists>e. 2 \<le> count_list (useredge s) e) \<longrightarrow>
       (\<exists>a b. 2 \<le> count_list (useredge s) (a, b) \<and>
              (\<forall>e'. 2 \<le> count_list (useredge s) e' \<longrightarrow> (a, b) \<le> e') \<and>
              invalidorientation (check_orientation s) = (a + 1, b + 1))) \<and>
    (\<forall>p. finish env ((check_orientation s)\<lparr>invalidorientation := p\<rparr>) =
         map_sum id (\<lambda>m'. m'\<lparr>invalidorientation := p\<rparr>) (finish env (check_orientation s))) \<and>
    (\<forall>m'. Compile env m = Inr m' \<longrightarrow>
         processed m' \<and> invalidorientation m' = invalidorientation (check_orientation s) \<and>
         ((\<exists>e. 2 \<le> count_list (useredge s) e) \<longrightarrow> CheckMesh m' = Inl (err_orientation m')))"
proof -
  have fr: "processed s = processed m" "edges_ok (useredge s)"
    using stage_frame [OF st] ue by simp_all
  have nps: "\<not> processed (check_orientation s)"
    using fr np by (simp add: check_orientation_def Let_def split: option.splits prod.splits)
  have A: "Compile env m = finish env (check_orientation s)"
    by (simp add: Compile_def st)
  have B: "(\<forall>e. count_list (useredge s) e < 2) \<longrightarrow>
       invalidorientation (check_orientation s) = invalidorientation s"
    using check_orientation_distinct by blast
  have C: "(\<exists>e. 2 \<le> count_list (useredge s) e) \<longrightarrow>
       (\<exists>a b. 2 \<le> count_list (useredge s) (a, b) \<and>
              (\<forall>e'. 2 \<le> count_list (useredge s) e' \<longrightarrow> (a, b) \<le> e') \<and>
              invalidorientation (check_orientation s) = (a + 1, b + 1))"
    using check_orientation_duplicate by blast
  have D: "\<forall>p. finish env ((check_orientation s)\<lparr>invalidorientation := p\<rparr>) =
         map_sum id (\<lambda>m'. m'\<lparr>invalidorientation := p\<rparr>) (finish env (check_orientation s))"
    using finish_io [OF nps] by blast
  have E: "\<And>m'. Compile env m = Inr m' \<Longrightarrow>
         processed m' \<and> invalidorientation m' = invalidorientation (check_orientation s) \<and>
         ((\<exists>e. 2 \<le> count_list (useredge s) e) \<longrightarrow> CheckMesh m' = Inl (err_orientation m'))"
  proof -
    fix m' assume c: "Compile env m = Inr m'"
    then have f: "finish env (check_orientation s) = Inr m'" using A by simp
    have pi: "invalidorientation m' = invalidorientation (check_orientation s)" "processed m'"
      using finish_invalidorientation [OF nps f] by simp_all
    have "(\<exists>e. 2 \<le> count_list (useredge s) e) \<longrightarrow> CheckMesh m' = Inl (err_orientation m')"
    proof
      assume "\<exists>e. 2 \<le> count_list (useredge s) e"
      then obtain a b where ab: "2 \<le> count_list (useredge s) (a, b)"
        "invalidorientation (check_orientation s) = (a + 1, b + 1)"
        using C by blast
      have "0 \<le> a" using edges_ok_count [OF fr(2) ab(1)] by simp
      then show "CheckMesh m' = Inl (err_orientation m')"
        using pi ab(2) by (simp add: CheckMesh_def)
    qed
    then show "processed m' \<and> invalidorientation m' = invalidorientation (check_orientation s) \<and>
         ((\<exists>e. 2 \<le> count_list (useredge s) e) \<longrightarrow> CheckMesh m' = Inl (err_orientation m'))"
      using pi by simp
  qed
  show ?thesis
    apply (intro conjI)
    apply (rule A)
    apply (rule B)
    apply (rule C)
    apply (rule D)
    apply (intro allI impI)
    apply (erule E)
    done
qed

lemma dup_stage: "stage plain_env dup_mesh = Inr dup_staged"
  by (simp add: dup_mesh_def dup_staged_def eval_defs)

lemma dup_orient: "check_orientation dup_staged =
   dup_staged\<lparr>useredge := [(0, 1), (0, 1), (1, 2), (1, 2), (2, 0), (2, 0)], invalidorientation := (1, 2)\<rparr>"
  by (simp add: dup_staged_def check_orientation_def less_eq_prod_def less_prod_def)

lemma map_vec3_eval:
  "map_vec3 f n (x # y # z # rest) =
     (if n = 0 then x # y # z # rest
      else case f (x, y, z) of (a, b, c) \<Rightarrow> a # b # c # map_vec3 f (n - 1) rest)"
  "map_vec3 f n [] = []"
  by (cases n; simp)+

lemma dup_finish: "finish plain_env (check_orientation dup_staged) = Inr dup_compiled"
  by (subst dup_orient) (simp add: dup_compiled_def dup_staged_def dup_mesh_def eval_defs fin_defs map_vec3_eval)

theorem Compile_orientation_check_witness:
  "stage plain_env dup_mesh = Inr dup_staged \<and> \<not> processed dup_mesh \<and> useredge dup_mesh = [] \<and>
   2 \<le> count_list (useredge dup_staged) (0, 1) \<and>
   invalidorientation (check_orientation dup_staged) = (1, 2) \<and>
   Compile plain_env dup_mesh = Inr dup_compiled \<and>
   CheckMesh dup_compiled = Inl (err_orientation dup_compiled)"
proof -
  have h1: "stage plain_env dup_mesh = Inr dup_staged" by (rule dup_stage)
  have h2: "\<not> processed dup_mesh" by (simp add: dup_mesh_def new_mjCMesh_def)
  have h3: "useredge dup_mesh = []" by (simp add: dup_mesh_def new_mjCMesh_def)
  have c: "2 \<le> count_list (useredge dup_staged) (0, 1)" by (simp add: dup_staged_def)
  note T = Compile_orientation_check [OF h1 h2 h3]
  have A: "Compile plain_env dup_mesh = finish plain_env (check_orientation dup_staged)"
    using T by (rule conjunct1)
  then have m': "Compile plain_env dup_mesh = Inr dup_compiled" using dup_finish by simp
  have E: "\<forall>m'. Compile plain_env dup_mesh = Inr m' \<longrightarrow>
         processed m' \<and> invalidorientation m' = invalidorientation (check_orientation dup_staged) \<and>
         ((\<exists>e. 2 \<le> count_list (useredge dup_staged) e) \<longrightarrow> CheckMesh m' = Inl (err_orientation m'))"
    using T by (elim conjE)
  have ex: "\<exists>e. 2 \<le> count_list (useredge dup_staged) e" using c by (rule exI)
  have "CheckMesh dup_compiled = Inl (err_orientation dup_compiled)"
    using E [rule_format, OF m'] ex by simp
  then show ?thesis using h1 h2 h3 c m' by (simp add: dup_orient)
qed

subsection \<open>The texture coordinates of a compiled mesh\<close>

lemma process_type_tex:
  "process_type env type fc m = Inr (m', r) \<Longrightarrow>
     texcoord m' = texcoord m \<and> ntexcoord m' = ntexcoord m \<and> nvert m' = nvert m"
  apply (cases type)
   apply (simp_all add: process_type_def bind_def Let_def split_def
      set_volume_def set_pos_def set_boxsz_def split: option.splits sum.splits if_splits)
         apply auto
  done

lemma Process_tex:
  "Process env m = Inr m' \<Longrightarrow> texcoord m' = texcoord m \<and> ntexcoord m' = ntexcoord m \<and> nvert m' = nvert m"
  apply (simp add: Process_def bind_def Let_def split_def split: option.splits sum.splits if_splits)
     apply (auto dest!: process_type_tex)
  done

lemma build_graph_tex:
  "build_graph m qh = Inr (m', g, fr, w) \<Longrightarrow> texcoord m' = texcoord m \<and> ntexcoord m' = ntexcoord m \<and> nvert m' = nvert m"
  apply (simp add: build_graph_def bind_def Let_def split_def split: sum.splits if_splits)
   apply auto
  done

lemma MakeGraph_tex:
  "MakeGraph q m = Inr (m', w) \<Longrightarrow> texcoord m' = texcoord m \<and> ntexcoord m' = ntexcoord m \<and> nvert m' = nvert m"
  apply (simp add: MakeGraph_def bind_def Let_def split_def split: option.splits sum.splits if_splits)
  apply (auto dest!: build_graph_tex)
  done

lemma CopyGraph_tex:
  "CopyGraph m = Inr m' \<Longrightarrow> texcoord m' = texcoord m \<and> ntexcoord m' = ntexcoord m \<and> nvert m' = nvert m"
  apply (simp add: CopyGraph_def bind_def split: option.splits sum.splits if_splits)
  apply auto
  done

lemma MakeNormal_tex:
  "MakeNormal env m = Inr m' \<Longrightarrow> texcoord m' = texcoord m \<and> ntexcoord m' = ntexcoord m \<and> nvert m' = nvert m"
  apply (simp add: MakeNormal_def bind_def Let_def split_def split: option.splits sum.splits if_splits)
  apply auto
  done

lemma copy_face_tex:
  "copy_userfacenormal m = Inr m' \<Longrightarrow> texcoord m' = texcoord m \<and> ntexcoord m' = ntexcoord m \<and> nvert m' = nvert m"
  "copy_userfacetexcoord m = Inr m' \<Longrightarrow> texcoord m' = texcoord m \<and> ntexcoord m' = ntexcoord m \<and> nvert m' = nvert m"
  "default_facenormal m = Inr m' \<Longrightarrow> texcoord m' = texcoord m \<and> ntexcoord m' = ntexcoord m \<and> nvert m' = nvert m"
  by (auto simp add: copy_userfacenormal_def copy_userfacetexcoord_def default_facenormal_def
      split: if_splits option.splits)

lemma finish_tex:
  assumes "finish env m = Inr m'"
  shows "texcoord m' = texcoord m \<and> ntexcoord m' = ntexcoord m \<and> nvert m' = nvert m"
proof -
  have v: "vert m \<noteq> None" using assms by (cases "vert m") (simp_all add: finish_def)
  from assms obtain m1 m2 m3 m4 m5 m6 m7 where
    a: "(if (convexhull env \<and> needhull m) \<or> face m = None
              then bind (MakeGraph (qhull env) m) (\<lambda>(m', warnings). Inr m')
              else Inr m) = Inr m1"
       "(if face m1 = None then CopyGraph m1 else Inr m1) = Inr m2"
       "(if normal m2 = None then MakeNormal env m2 else Inr m2) = Inr m3"
       "copy_userfacenormal m3 = Inr m4" "copy_userfacetexcoord m4 = Inr m5"
       "default_facenormal m5 = Inr m6" "Process env m6 = Inr m7" "m' = m7\<lparr>processed := True\<rparr>"
    using v by (auto simp: finish_def bind_Inr_iff)
  have 1: "texcoord m1 = texcoord m \<and> ntexcoord m1 = ntexcoord m \<and> nvert m1 = nvert m"
    using a(1) by (auto simp: bind_Inr_iff split: if_splits dest!: MakeGraph_tex)
  have 2: "texcoord m2 = texcoord m1 \<and> ntexcoord m2 = ntexcoord m1 \<and> nvert m2 = nvert m1"
    using a(2) by (auto split: if_splits dest!: CopyGraph_tex)
  have 3: "texcoord m3 = texcoord m2 \<and> ntexcoord m3 = ntexcoord m2 \<and> nvert m3 = nvert m2"
    using a(3) by (auto split: if_splits dest!: MakeNormal_tex)
  show ?thesis
    using 1 2 3 copy_face_tex(1) [OF a(4)] copy_face_tex(2) [OF a(5)] copy_face_tex(3) [OF a(6)]
      Process_tex [OF a(7)] a(8) by simp
qed

lemma check_orientation_tex:
  "texcoord (check_orientation m) = texcoord m \<and> ntexcoord (check_orientation m) = ntexcoord m
     \<and> nvert (check_orientation m) = nvert m"
  by (simp add: check_orientation_def Let_def split: option.splits prod.splits)

lemma msh_steps_vert:
  "msh_vert buffer nv m = Inr (m', fd') \<Longrightarrow> nvert m' = nvert m \<and> vert m' \<noteq> None"
  "msh_normal buffer nv nn (m, fd) = Inr (m', fd') \<Longrightarrow> nvert m' = nvert m \<and> vert m' = vert m"
  "msh_texcoord buffer nv nt (m, fd) = Inr (m', fd') \<Longrightarrow> nvert m' = nvert m \<and> vert m' = vert m"
  "msh_face buffer nf (m, fd) = Inr (m', fd') \<Longrightarrow> nvert m' = nvert m \<and> vert m' = vert m"
  "msh_facetexcoord buffer nf (m, fd) = Inr m' \<Longrightarrow> nvert m' = nvert m \<and> vert m' = vert m"
  "msh_lefthanded rh nf m = Inr m' \<Longrightarrow> nvert m' = nvert m \<and> vert m' = vert m"
  by (auto simp: msh_vert_def msh_normal_def msh_texcoord_def msh_face_def msh_facetexcoord_def
      msh_lefthanded_def bind_Inr_iff split: if_split_asm option.splits)

lemma LoadMSH_tex_nvert:
  assumes "LoadMSH env m = Inr m'" and "texcoord m = None"
  shows "vert m' \<noteq> None \<and> usertexcoord m' = usertexcoord m \<and>
     ((texcoord m' = None \<and> ntexcoord m' = 0) \<or>
      (\<exists>tc. texcoord m' = Some tc \<and> int (length tc) = 2 * nvert m' \<and> ntexcoord m' = nvert m'))"
proof -
  from assms(1) obtain buffer nv nn nt nf m1 fd1 m2 fd2 m3 fd3 m4 fd4 m5 where
    h: "msh_header buffer = Inr (nv, nn, nt, nf)" and
    s: "msh_vert buffer nv (m\<lparr>nvert := nv, nnormal := nn, ntexcoord := nt, nface := nf\<rparr>) = Inr (m1, fd1)"
    "msh_normal buffer nv nn (m1, fd1) = Inr (m2, fd2)"
    "msh_texcoord buffer nv nt (m2, fd2) = Inr (m3, fd3)"
    "msh_face buffer nf (m3, fd3) = Inr (m4, fd4)"
    "msh_facetexcoord buffer nf (m4, fd4) = Inr m5"
    "msh_lefthanded (righthand m) nf m5 = Inr m'"
    by (rule LoadMSH_steps)
  have nt: "nt = 0 \<or> nt = nv" using msh_header_Inr [OF h] by blast
  have 2: "texcoord m2 = None" "ntexcoord m2 = nt"
    using msh_steps(1) [OF s(1)] msh_steps(2) [OF s(2)] assms(2) by simp_all
  have 3: "ntexcoord m3 = nt"
    "if nt \<noteq> 0 then \<exists>tc. texcoord m3 = Some tc \<and> int (length tc) = 2 * nv else texcoord m3 = None"
    using msh_steps(3) [OF s(3)] 2 by (simp_all split: if_split_asm)
  have e: "texcoord m' = texcoord m3" "ntexcoord m' = ntexcoord m3"
    using msh_steps(4) [OF s(4)] msh_steps(5) [OF s(5)] msh_lefthanded_frame [OF s(6)] by simp_all
  have v: "nvert m' = nv" "vert m' \<noteq> None"
    using msh_steps_vert(1) [OF s(1)] msh_steps_vert(2) [OF s(2)] msh_steps_vert(3) [OF s(3)]
      msh_steps_vert(4) [OF s(4)] msh_steps_vert(5) [OF s(5)] msh_steps_vert(6) [OF s(6)]
    by simp_all
  have u: "usertexcoord m' = usertexcoord m" using LoadMSH_frame [OF assms(1)] by simp
  show ?thesis
    using 3 e nt v u by (auto split: if_split_asm)
qed

lemma ext_distinct:
  "\<not> strcasecmp e ''.msh'' \<Longrightarrow> strcasecmp e ''.stl'' \<and> strcasecmp e ''.obj''"
  "\<not> strcasecmp e ''.obj'' \<Longrightarrow> strcasecmp e ''.stl''"
  by (auto simp: strcasecmp_def to_lower_def)

lemma load_file_cases:
  assumes "load_file env m = Inr m'" and "meshfile m \<noteq> []"
  shows "(\<not> strcasecmp (file_ext env m) ''.stl'' \<longrightarrow>
            LoadSTL env (if strippath env then m\<lparr>meshfile := mjuu_strippath env (meshfile m)\<rparr> else m) = Inr m') \<and>
         (\<not> strcasecmp (file_ext env m) ''.obj'' \<longrightarrow>
            LoadOBJ env (if strippath env then m\<lparr>meshfile := mjuu_strippath env (meshfile m)\<rparr> else m) = Inr m') \<and>
         (\<not> strcasecmp (file_ext env m) ''.msh'' \<longrightarrow>
            LoadMSH env (if strippath env then m\<lparr>meshfile := mjuu_strippath env (meshfile m)\<rparr> else m) = Inr m')"
  using assms ext_distinct [of "file_ext env m"]
  by (auto simp: load_file_def file_ext_def Let_def split: if_split_asm)

lemma copy_vert_tex:
  "copy_uservert m = Inr m' \<Longrightarrow> texcoord m' = texcoord m \<and> ntexcoord m' = ntexcoord m \<and>
     usertexcoord m' = usertexcoord m \<and> meshfile m' = meshfile m \<and>
     (vert m \<noteq> None \<longrightarrow> nvert m' = nvert m)"
  "copy_usernormal m = Inr m' \<Longrightarrow> texcoord m' = texcoord m \<and> ntexcoord m' = ntexcoord m \<and>
     usertexcoord m' = usertexcoord m \<and> meshfile m' = meshfile m \<and> nvert m' = nvert m"
  by (auto simp: copy_uservert_def copy_usernormal_def split: if_split_asm)

lemma copy_usertexcoord_tex:
  "copy_usertexcoord m = Inr m' \<Longrightarrow> nvert m' = nvert m \<and>
     (if usertexcoord m = [] then texcoord m' = texcoord m \<and> ntexcoord m' = ntexcoord m
      else texcoord m = None \<and> even (length (usertexcoord m)) \<and>
           texcoord m' = Some (usertexcoord m) \<and>
           ntexcoord m' = int (length (usertexcoord m)) div 2)"
  by (auto simp: copy_usertexcoord_def split: if_split_asm)

lemma copy_userface_tex:
  "copy_userface m = Inr m' \<Longrightarrow>
     texcoord m' = texcoord m \<and> ntexcoord m' = ntexcoord m \<and> nvert m' = nvert m"
  apply (simp add: copy_userface_def Let_def split: if_splits option.splits)
       apply (auto simp: bind_Inr_iff)
  done

text \<open>The texture coordinates after staging, by the origin of the mesh.\<close>

lemma stage_tex:
  assumes st: "stage env m = Inr s" and fresh: "texcoord m = None" "ntexcoord m = 0"
  shows "(meshfile m = [] \<longrightarrow>
            (if usertexcoord m = [] then texcoord s = None \<and> ntexcoord s = 0
             else even (length (usertexcoord m)) \<and> texcoord s = Some (usertexcoord m) \<and>
                  ntexcoord s = int (length (usertexcoord m)) div 2))"
    and "(meshfile m \<noteq> [] \<and> \<not> strcasecmp (file_ext env m) ''.msh'' \<and> usertexcoord m = [] \<longrightarrow>
            (texcoord s = None \<and> ntexcoord s = 0) \<or>
            (\<exists>tc. texcoord s = Some tc \<and> int (length tc) = 2 * nvert s \<and> ntexcoord s = nvert s))"
    and "(meshfile m \<noteq> [] \<and> \<not> strcasecmp (file_ext env m) ''.stl'' \<and> usertexcoord m = [] \<longrightarrow>
            texcoord s = None \<and> ntexcoord s = 0)"
proof -
  from st obtain m1 m2 m3 m4 where
    a: "load_file env m = Inr m1" "copy_uservert m1 = Inr m2" "copy_usernormal m2 = Inr m3"
       "copy_usertexcoord m3 = Inr m4" "copy_userface m4 = Inr s"
    by (auto simp: stage_def bind_Inr_iff)
  note c2 = copy_vert_tex(1) [OF a(2)]
  note c3 = copy_vert_tex(2) [OF a(3)]
  note c4 = copy_usertexcoord_tex [OF a(4)]
  note c5 = copy_userface_tex [OF a(5)]
  define m0 where "m0 = (if strippath env then m\<lparr>meshfile := mjuu_strippath env (meshfile m)\<rparr> else m)"
  have m0: "texcoord m0 = None" "ntexcoord m0 = 0" "usertexcoord m0 = usertexcoord m"
    using fresh by (simp_all add: m0_def)
  show "meshfile m = [] \<longrightarrow>
            (if usertexcoord m = [] then texcoord s = None \<and> ntexcoord s = 0
             else even (length (usertexcoord m)) \<and> texcoord s = Some (usertexcoord m) \<and>
                  ntexcoord s = int (length (usertexcoord m)) div 2)"
  proof
    assume "meshfile m = []"
    then have "m1 = m" using a(1) by (simp add: load_file_def)
    then show "if usertexcoord m = [] then texcoord s = None \<and> ntexcoord s = 0
             else even (length (usertexcoord m)) \<and> texcoord s = Some (usertexcoord m) \<and>
                  ntexcoord s = int (length (usertexcoord m)) div 2"
      using c2 c3 c4 c5 fresh by (auto split: if_split_asm)
  qed
  show "meshfile m \<noteq> [] \<and> \<not> strcasecmp (file_ext env m) ''.msh'' \<and> usertexcoord m = [] \<longrightarrow>
            (texcoord s = None \<and> ntexcoord s = 0) \<or>
            (\<exists>tc. texcoord s = Some tc \<and> int (length tc) = 2 * nvert s \<and> ntexcoord s = nvert s)"
  proof
    assume h: "meshfile m \<noteq> [] \<and> \<not> strcasecmp (file_ext env m) ''.msh'' \<and> usertexcoord m = []"
    then have "LoadMSH env m0 = Inr m1"
      using load_file_cases [OF a(1)] by (simp add: m0_def)
    from LoadMSH_tex_nvert [OF this m0(1)] have
      1: "vert m1 \<noteq> None" "usertexcoord m1 = []"
      "(texcoord m1 = None \<and> ntexcoord m1 = 0) \<or>
       (\<exists>tc. texcoord m1 = Some tc \<and> int (length tc) = 2 * nvert m1 \<and> ntexcoord m1 = nvert m1)"
      using h m0 by simp_all
    have "texcoord s = texcoord m1" "ntexcoord s = ntexcoord m1" "nvert s = nvert m1"
      using c2 c3 c4 c5 1(1,2) by (simp_all split: if_split_asm)
    then show "(texcoord s = None \<and> ntexcoord s = 0) \<or>
            (\<exists>tc. texcoord s = Some tc \<and> int (length tc) = 2 * nvert s \<and> ntexcoord s = nvert s)"
      using 1(3) by simp
  qed
  show "meshfile m \<noteq> [] \<and> \<not> strcasecmp (file_ext env m) ''.stl'' \<and> usertexcoord m = [] \<longrightarrow>
            texcoord s = None \<and> ntexcoord s = 0"
  proof
    assume h: "meshfile m \<noteq> [] \<and> \<not> strcasecmp (file_ext env m) ''.stl'' \<and> usertexcoord m = []"
    then have "LoadSTL env m0 = Inr m1"
      using load_file_cases [OF a(1)] by (simp add: m0_def)
    from LoadSTL_frame [OF this] have
      1: "usertexcoord m1 = []" "texcoord m1 = None" "ntexcoord m1 = 0"
      using h m0 by simp_all
    show "texcoord s = None \<and> ntexcoord s = 0"
      using c2 c3 c4 c5 1 by (simp split: if_split_asm)
  qed
qed

lemma stage_tex_obj:
  assumes st: "stage env m = Inr s" and fresh: "texcoord m = None" "ntexcoord m = 0"
    and h: "meshfile m \<noteq> []" "\<not> strcasecmp (file_ext env m) ''.obj''"
  shows "if attrib_texcoords (ParseFromFile env
              (if strippath env then mjuu_strippath env (meshfile m) else meshfile m)) = []
         then texcoord s = None \<and> ntexcoord s = 0
         else \<exists>tc. texcoord s = Some tc \<and> int (length tc) = 2 * ntexcoord s \<and>
              length tc = length (attrib_texcoords (ParseFromFile env
                (if strippath env then mjuu_strippath env (meshfile m) else meshfile m)))"
proof -
  from st obtain m1 m2 m3 m4 where
    a: "load_file env m = Inr m1" "copy_uservert m1 = Inr m2" "copy_usernormal m2 = Inr m3"
       "copy_usertexcoord m3 = Inr m4" "copy_userface m4 = Inr s"
    by (auto simp: stage_def bind_Inr_iff)
  note c2 = copy_vert_tex(1) [OF a(2)]
  note c3 = copy_vert_tex(2) [OF a(3)]
  note c4 = copy_usertexcoord_tex [OF a(4)]
  note c5 = copy_userface_tex [OF a(5)]
  define m0 where "m0 = (if strippath env then m\<lparr>meshfile := mjuu_strippath env (meshfile m)\<rparr> else m)"
  define tcs where "tcs = attrib_texcoords (ParseFromFile env
      (if strippath env then mjuu_strippath env (meshfile m) else meshfile m))"
  have m0: "texcoord m0 = None" "ntexcoord m0 = 0"
    "meshfile m0 = (if strippath env then mjuu_strippath env (meshfile m) else meshfile m)"
    using fresh by (simp_all add: m0_def)
  have L: "LoadOBJ env m0 = Inr m1"
    using load_file_cases [OF a(1) h(1)] h(2) by (simp add: m0_def)
  have 1: "usertexcoord m1 = flip_texcoord tcs" "texcoord m1 = None" "ntexcoord m1 = 0"
    using LoadOBJ_usertexcoord [OF L] LoadOBJ_frame [OF L] m0 by (simp_all add: tcs_def)
  have len: "length (flip_texcoord tcs) = length tcs"
    using flip_texcoord_nth [of tcs] by simp
  have e: "flip_texcoord tcs = [] \<longleftrightarrow> tcs = []"
    using len by (metis length_0_conv)
  have "if tcs = [] then texcoord s = None \<and> ntexcoord s = 0
         else \<exists>tc. texcoord s = Some tc \<and> int (length tc) = 2 * ntexcoord s \<and> length tc = length tcs"
    using c2 c3 c4 c5 1 len e by (auto split: if_split_asm)
  then show ?thesis unfolding tcs_def .
qed

text \<open>
  C9 (as amended). For every new mesh that \<^verbatim>\<open>Compile\<close> accepts, the
  compiled \<^verbatim>\<open>texcoord\<close> array is either absent (with \<^verbatim>\<open>ntexcoord\<close> 0) or
  holds exactly \<^verbatim>\<open>ntexcoord\<close> pairs. By the origin of the mesh:

  \<^item> given by arrays, without a file: the array is absent when no texture
    coordinates are supplied; otherwise it is the array supplied, of even
    length, and \<^verbatim>\<open>ntexcoord\<close> is half that length, whatever \<^verbatim>\<open>nvert\<close> is;
  \<^item> read from an MSH file, no texture coordinates supplied besides: the array
    is absent or holds exactly \<^verbatim>\<open>nvert\<close> pairs, and \<^verbatim>\<open>ntexcoord\<close> is 0 or
    \<^verbatim>\<open>nvert\<close>;
  \<^item> read from an STL file, no texture coordinates supplied besides: the
    array is absent;
  \<^item> read from an OBJ file: the array is absent when the file has no texture
    coordinates, and otherwise has as many numbers as the file gives,
    whatever \<^verbatim>\<open>nvert\<close> is.
\<close>

theorem Compile_texcoord:
  assumes c: "Compile env m = Inr m'" and fresh: "texcoord m = None" "ntexcoord m = 0"
  shows "((texcoord m' = None \<and> ntexcoord m' = 0) \<or>
          (\<exists>tc. texcoord m' = Some tc \<and> int (length tc) = 2 * ntexcoord m')) \<and>
         (meshfile m = [] \<longrightarrow>
            (if usertexcoord m = [] then texcoord m' = None \<and> ntexcoord m' = 0
             else even (length (usertexcoord m)) \<and> texcoord m' = Some (usertexcoord m) \<and>
                  ntexcoord m' = int (length (usertexcoord m)) div 2)) \<and>
         (meshfile m \<noteq> [] \<and> \<not> strcasecmp (file_ext env m) ''.msh'' \<and> usertexcoord m = [] \<longrightarrow>
            (texcoord m' = None \<and> ntexcoord m' = 0) \<or>
            (\<exists>tc. texcoord m' = Some tc \<and> int (length tc) = 2 * nvert m' \<and>
                  ntexcoord m' = nvert m')) \<and>
         (meshfile m \<noteq> [] \<and> \<not> strcasecmp (file_ext env m) ''.stl'' \<and> usertexcoord m = [] \<longrightarrow>
            texcoord m' = None \<and> ntexcoord m' = 0) \<and>
         (meshfile m \<noteq> [] \<and> \<not> strcasecmp (file_ext env m) ''.obj'' \<longrightarrow>
            (if attrib_texcoords (ParseFromFile env
                  (if strippath env then mjuu_strippath env (meshfile m) else meshfile m)) = []
             then texcoord m' = None \<and> ntexcoord m' = 0
             else \<exists>tc. texcoord m' = Some tc \<and> int (length tc) = 2 * ntexcoord m' \<and>
                  length tc = length (attrib_texcoords (ParseFromFile env
                    (if strippath env then mjuu_strippath env (meshfile m) else meshfile m)))))"
proof -
  from c obtain s where s: "stage env m = Inr s" "finish env (check_orientation s) = Inr m'"
    by (auto simp: Compile_def bind_Inr_iff)
  have eq: "texcoord m' = texcoord s" "ntexcoord m' = ntexcoord s" "nvert m' = nvert s"
    using finish_tex [OF s(2)] check_orientation_tex [of s] by simp_all
  have "tex_ok s" using stage_frame [OF s(1)] fresh by simp
  then have 1: "(texcoord m' = None \<and> ntexcoord m' = 0) \<or>
          (\<exists>tc. texcoord m' = Some tc \<and> int (length tc) = 2 * ntexcoord m')"
    using eq by (simp add: tex_ok_def)
  note t = stage_tex [OF s(1) fresh]
  have 2: "meshfile m = [] \<longrightarrow>
            (if usertexcoord m = [] then texcoord m' = None \<and> ntexcoord m' = 0
             else even (length (usertexcoord m)) \<and> texcoord m' = Some (usertexcoord m) \<and>
                  ntexcoord m' = int (length (usertexcoord m)) div 2)"
    using t(1) unfolding eq .
  have 3: "meshfile m \<noteq> [] \<and> \<not> strcasecmp (file_ext env m) ''.msh'' \<and> usertexcoord m = [] \<longrightarrow>
            (texcoord m' = None \<and> ntexcoord m' = 0) \<or>
            (\<exists>tc. texcoord m' = Some tc \<and> int (length tc) = 2 * nvert m' \<and>
                  ntexcoord m' = nvert m')"
    using t(2) unfolding eq .
  have 4: "meshfile m \<noteq> [] \<and> \<not> strcasecmp (file_ext env m) ''.stl'' \<and> usertexcoord m = [] \<longrightarrow>
            texcoord m' = None \<and> ntexcoord m' = 0"
    using t(3) unfolding eq .
  have 5: "meshfile m \<noteq> [] \<and> \<not> strcasecmp (file_ext env m) ''.obj'' \<longrightarrow>
            (if attrib_texcoords (ParseFromFile env
                  (if strippath env then mjuu_strippath env (meshfile m) else meshfile m)) = []
             then texcoord m' = None \<and> ntexcoord m' = 0
             else \<exists>tc. texcoord m' = Some tc \<and> int (length tc) = 2 * ntexcoord m' \<and>
                  length tc = length (attrib_texcoords (ParseFromFile env
                    (if strippath env then mjuu_strippath env (meshfile m) else meshfile m))))"
    using stage_tex_obj [OF s(1) fresh] unfolding eq by blast
  from 1 2 3 4 5 show ?thesis by blast
qed

lemma mjMINVAL_half: "\<not> 1 < mjMINVAL * 2" "mjMINVAL * 2 < 1"
  by (simp_all add: mjMINVAL_def)

lemma tex_stage: "stage plain_env tex_mesh = Inr tex_staged"
  by (simp add: tex_mesh_def tex_staged_def eval_defs)

lemma tex_orient: "check_orientation tex_staged = tex_staged"
  by (simp add: tex_staged_def tex_mesh_def new_mjCMesh_def check_orientation_def less_eq_prod_def less_prod_def)

lemma tex_finish: "finish plain_env tex_staged = Inr tex_compiled"
  by (simp add: tex_compiled_def tex_staged_def tex_mesh_def eval_defs fin_defs map_vec3_eval mjMINVAL_half)

lemma tex_Compile: "Compile plain_env tex_mesh = Inr tex_compiled"
  by (simp add: Compile_def tex_stage tex_orient tex_finish)

lemma msh_tex_header:
  "length msh_tex = 156" "u32_at msh_tex 0 = 4" "u32_at msh_tex 4 = 4" "u32_at msh_tex 8 = 4"
  "u32_at msh_tex 12 = 1"
  by (simp_all add: msh_tex_def u32_at_def nth_append)

lemma msh_tex_header_ok: "msh_header msh_tex = Inr (4, 4, 4, 1)"
  by (simp add: msh_header_def Let_def msh_tex_header s32_def INT_MAX_def)

lemma msh_tex_words:
  "copy_words msh_tex 16 12 = Inr [0, 0, 0, 1065353216, 0, 0, 0, 1065353216, 0, 0, 0, 1065353216]"
  "copy_words msh_tex 64 12 = Inr [0, 0, 1065353216, 0, 0, 1065353216, 0, 0, 1065353216, 0, 0, 1065353216]"
  "copy_words msh_tex 112 8 = Inr [1056964608, 1056964608, 1056964608, 1056964608,
      1056964608, 1056964608, 1056964608, 1056964608]"
  "copy_words msh_tex 144 3 = Inr [0, 1, 2]"
  by (simp_all add: copy_words_def msh_tex_header upt_rec) (simp_all add: msh_tex_def u32_at_def nth_append)

lemma float_units: "float_val 0 = 0" "float_val 1065353216 = 1" "float_val 1056964608 = 1 / 2"
  by (simp_all add: float_val_def float_exponent_def float_fraction_def Let_def)

lemma msh_mesh_load: "LoadMSH msh_tex_env msh_mesh = Inr msh_staged"
  by (simp add: LoadMSH_def msh_tex_env_def plain_env_def msh_tex_header_ok msh_vert_def msh_normal_def
      msh_texcoord_def msh_face_def msh_facetexcoord_def msh_lefthanded_def msh_tex_words
      float_units s32_def msh_mesh_def msh_staged_def new_mjCMesh_def righthand_def)

lemma msh_ext: "\<not> strcasecmp (file_ext msh_tex_env msh_mesh) ''.msh''"
  by (simp add: file_ext_def msh_tex_env_def plain_env_def msh_mesh_def new_mjCMesh_def
      strcasecmp_def to_lower_def)

lemma msh_stage: "stage msh_tex_env msh_mesh = Inr msh_staged"
proof -
  have l: "load_file msh_tex_env msh_mesh = Inr msh_staged"
    using msh_ext ext_distinct(1) [OF msh_ext] msh_mesh_load
    by (simp add: load_file_def file_ext_def Let_def msh_tex_env_def plain_env_def msh_mesh_def
        new_mjCMesh_def)
  show ?thesis
    unfolding stage_def l
    by (simp add: msh_staged_def msh_mesh_def new_mjCMesh_def copy_uservert_def copy_usernormal_def
        copy_usertexcoord_def copy_userface_def)
qed

lemma msh_orient: "check_orientation msh_staged = msh_staged"
  by (simp add: msh_staged_def msh_mesh_def new_mjCMesh_def check_orientation_def)

lemma msh_finish: "finish msh_tex_env msh_staged = Inr msh_compiled"
  by (simp add: msh_compiled_def msh_staged_def msh_mesh_def msh_tex_env_def eval_defs fin_defs
      map_vec3_eval mjMINVAL_half)

lemma msh_Compile: "Compile msh_tex_env msh_mesh = Inr msh_compiled"
  by (simp add: Compile_def msh_stage msh_orient msh_finish)

theorem Compile_texcoord_witness:
  "Compile plain_env tex_mesh = Inr tex_compiled \<and> texcoord tex_mesh = None \<and> ntexcoord tex_mesh = 0 \<and>
   meshfile tex_mesh = [] \<and> usertexcoord tex_mesh = [1 / 2, 1 / 2] \<and>
   texcoord tex_compiled = Some (usertexcoord tex_mesh) \<and>
   ntexcoord tex_compiled = int (length (usertexcoord tex_mesh)) div 2 \<and>
   Compile msh_tex_env msh_mesh = Inr msh_compiled \<and> texcoord msh_mesh = None \<and>
   ntexcoord msh_mesh = 0 \<and> meshfile msh_mesh = ''m.msh'' \<and>
   \<not> strcasecmp (file_ext msh_tex_env msh_mesh) ''.msh'' \<and> usertexcoord msh_mesh = [] \<and>
   texcoord msh_compiled = Some [1 / 2, 1 / 2, 1 / 2, 1 / 2, 1 / 2, 1 / 2, 1 / 2, 1 / 2] \<and>
   ntexcoord msh_compiled = nvert msh_compiled \<and> nvert msh_compiled = 4"
proof -
  have h1: "Compile plain_env tex_mesh = Inr tex_compiled" by (rule tex_Compile)
  have h2: "texcoord tex_mesh = None" by (simp add: tex_mesh_def new_mjCMesh_def)
  have h3: "ntexcoord tex_mesh = 0" by (simp add: tex_mesh_def new_mjCMesh_def)
  have h4: "meshfile tex_mesh = []" "usertexcoord tex_mesh = [1 / 2, 1 / 2]"
    by (simp_all add: tex_mesh_def new_mjCMesh_def)
  have k: "texcoord msh_mesh = None" "ntexcoord msh_mesh = 0" "meshfile msh_mesh = ''m.msh''"
    "usertexcoord msh_mesh = []"
    by (simp_all add: msh_mesh_def new_mjCMesh_def)
  have c: "texcoord msh_compiled = Some [1 / 2, 1 / 2, 1 / 2, 1 / 2, 1 / 2, 1 / 2, 1 / 2, 1 / 2]"
    "nvert msh_compiled = 4"
    by (simp_all add: msh_compiled_def msh_staged_def)
  have a: "texcoord tex_compiled = Some (usertexcoord tex_mesh) \<and>
     ntexcoord tex_compiled = int (length (usertexcoord tex_mesh)) div 2"
    using Compile_texcoord [OF h1 h2 h3] h4 by simp
  have "(texcoord msh_compiled = None \<and> ntexcoord msh_compiled = 0) \<or>
     (\<exists>tc. texcoord msh_compiled = Some tc \<and> int (length tc) = 2 * nvert msh_compiled \<and>
           ntexcoord msh_compiled = nvert msh_compiled)"
    using Compile_texcoord [OF msh_Compile k(1) k(2)] k msh_ext by simp
  then have b: "ntexcoord msh_compiled = nvert msh_compiled" using c by auto
  from a b c h1 h2 h3 h4 k msh_ext msh_Compile show ?thesis by blast
qed

text \<open>
  The claim as stated fails: \<^verbatim>\<open>Compile\<close> accepts a mesh with four vertices
  and one pair of texture coordinates, and the compiled array has one pair.
\<close>

theorem Compile_texcoord_counterexample:
  "Compile plain_env tex_mesh = Inr tex_compiled \<and>
   texcoord tex_compiled = Some [1 / 2, 1 / 2] \<and> ntexcoord tex_compiled = 1 \<and>
   nvert tex_compiled = 4"
  by (simp add: tex_Compile) (simp add: tex_compiled_def tex_staged_def)

subsection \<open>Process on a mesh of one triangle\<close>

lemma same_geom_refl: "same_geom m m"
  by (simp add: same_geom_def)

lemma same_geom_trans: "same_geom m2 m1 \<Longrightarrow> same_geom m1 m \<Longrightarrow> same_geom m2 m"
  by (simp add: same_geom_def)

lemma build_graph_keeps:
  "build_graph m qh = Inr (m', g, fr, w) \<Longrightarrow> same_geom m' m"
  apply (simp add: build_graph_def bind_def Let_def split_def split: sum.splits if_splits)
   apply (auto simp: same_geom_def)
  done

lemma MakeGraph_keeps:
  "MakeGraph q m = Inr (m', w) \<Longrightarrow> same_geom m' m"
  apply (simp add: MakeGraph_def bind_def Let_def split_def split: option.splits sum.splits if_splits)
  apply (auto simp: same_geom_refl dest!: build_graph_keeps)
   apply (auto simp: same_geom_def)
  done

lemma MakeNormal_keeps:
  "MakeNormal env m = Inr m' \<Longrightarrow> same_geom m' m"
  apply (simp add: MakeNormal_def bind_def Let_def split_def split: option.splits sum.splits if_splits)
  apply (auto simp: same_geom_def)
  done

lemma copy_face_keeps:
  "copy_userfacenormal m = Inr m' \<Longrightarrow> same_geom m' m"
  "copy_userfacetexcoord m = Inr m' \<Longrightarrow> same_geom m' m"
  "default_facenormal m = Inr m' \<Longrightarrow> same_geom m' m"
  by (auto simp add: copy_userfacenormal_def copy_userfacetexcoord_def default_facenormal_def
      same_geom_def split: if_splits option.splits)

lemma prepass_vert_cong:
  "same_geom m' m \<Longrightarrow> prepass_vert env m' v = prepass_vert env m v"
  by (simp add: prepass_vert_def translate_vert_def rotate_array_def scale_array_def same_geom_def)

lemma Process_invalidorientation:
  assumes "\<not> processed m" "Process env m = Inr m'"
  shows "invalidorientation m' = invalidorientation m"
proof -
  have "Process env (m\<lparr>invalidorientation := invalidorientation m\<rparr>) =
        map_sum id (\<lambda>x. x\<lparr>invalidorientation := invalidorientation m\<rparr>) (Process env m)"
    using assms(1) by (rule Process_io)
  then have "m' = m'\<lparr>invalidorientation := invalidorientation m\<rparr>" using assms(2) by simp
  then show ?thesis
    by (metis mjCMesh.select_convs(36) mjCMesh.surjective mjCMesh.update_convs(36))
qed

text \<open>What \<open>finish\<close> hands to \<open>Process\<close> when the faces are present.\<close>

lemma finish_Process:
  assumes fin: "finish env s = Inr m'" and f: "face s = Some f" and np: "\<not> processed s"
  shows "\<exists>m6 m7. Process env m6 = Inr m7 \<and> m' = m7\<lparr>processed := True\<rparr> \<and>
           same_geom m6 s \<and> invalidorientation m7 = invalidorientation s \<and> \<not> processed m6"
proof -
  have v: "vert s \<noteq> None" using fin by (cases "vert s") (simp_all add: finish_def)
  from fin obtain m1 m2 m3 m4 m5 m6 m7 where
    a: "(if (convexhull env \<and> needhull s) \<or> face s = None
              then bind (MakeGraph (qhull env) s) (\<lambda>(m', warnings). Inr m')
              else Inr s) = Inr m1"
       "(if face m1 = None then CopyGraph m1 else Inr m1) = Inr m2"
       "(if normal m2 = None then MakeNormal env m2 else Inr m2) = Inr m3"
       "copy_userfacenormal m3 = Inr m4" "copy_userfacetexcoord m4 = Inr m5"
       "default_facenormal m5 = Inr m6" "Process env m6 = Inr m7" "m' = m7\<lparr>processed := True\<rparr>"
    using v by (auto simp: finish_def bind_Inr_iff)
  have 1: "same_geom m1 s \<and> processed m1 = processed s"
  proof (cases "(convexhull env \<and> needhull s) \<or> face s = None")
    case True
    then obtain w where "MakeGraph (qhull env) s = Inr (m1, w)"
      using a(1) by (auto simp: bind_Inr_iff)
    then show ?thesis using MakeGraph_keeps MakeGraph_processed by blast
  next
    case False
    then have "m1 = s" using a(1) by auto
    then show ?thesis by (simp add: same_geom_refl)
  qed
  have "face m1 = Some f" using 1 f by (simp add: same_geom_def)
  then have m2: "m2 = m1" using a(2) by simp
  have 3: "same_geom m3 m1 \<and> processed m3 = processed m1"
  proof (cases "normal m2 = None")
    case True
    then have "MakeNormal env m1 = Inr m3" using a(3) m2 by simp
    then show ?thesis using MakeNormal_keeps MakeNormal_processed by blast
  next
    case False
    then have "m3 = m1" using a(3) m2 by auto
    then show ?thesis by (simp add: same_geom_refl)
  qed
  have g6: "same_geom m6 s"
    using 1 3 copy_face_keeps(1) [OF a(4)] copy_face_keeps(2) [OF a(5)] copy_face_keeps(3) [OF a(6)]
    by (meson same_geom_trans)
  have p6: "\<not> processed m6"
    using 1 3 np copy_userfacenormal_processed [OF a(4)] copy_userfacetexcoord_processed [OF a(5)]
      default_facenormal_processed [OF a(6)] by simp
  have "invalidorientation m' = invalidorientation s"
    using finish_invalidorientation [OF np fin] by simp
  then have io: "invalidorientation m7 = invalidorientation s" using a(8) by simp
  show ?thesis
    apply (rule exI [of _ m6], rule exI [of _ m7])
    using a(7) a(8) g6 p6 io apply simp
    done
qed

lemma vsub_self: "vsub c c = (0, 0, 0)"
  by (cases c) (simp add: vsub_def)

lemma dot3_zero: "mjuu_dot3 (0, 0, 0) n = 0"
  by (cases n) simp

lemma smul_inverse: "a \<noteq> 0 \<Longrightarrow> smul (1 / a) (vadd (0, 0, 0) (smul a c)) = c"
  by (cases c) (simp add: smul_def vadd_def)

lemma pyramid_vol_centre:
  "pyramid_vol env mjVOLUME_MESH cen (a, nrm, cen) = 0"
  by (simp add: pyramid_vol_def vsub_self dot3_zero)

lemma Process_one_triangle:
  assumes P: "Process env m = Inr m'" and np: "\<not> processed m" and nf: "nface m = 1"
    and v: "vert m = Some v" and f: "face m = Some f"
    and tri: "face_triangle (prepass_vert env m v) f 0 = Inr (a, nrm, cen)"
    and area: "mjMINVAL \<le> a"
  shows "validarea m' = validarea m \<and> \<not> validvolume m'"
proof -
  obtain n where n: "normal m = Some n"
    using P v f by (cases "normal m") (simp_all add: Process_def)
  define v1 where "v1 = prepass_vert env m v"
  define m1 where "m1 = m\<lparr>vert := Some v1, normal := Some (prepass_normal env m n)\<rparr>"
  have apos: "0 < a" using area mjMINVAL_pos by linarith
  obtain ids where ids: "face_ids f 0 = Inr ids"
    using tri by (cases "face_ids f 0") (simp_all add: face_triangle_def)
  obtain i0 i1 i2 where i: "ids = (i0, i1, i2)" by (cases ids)
  have up: "[0..nface m - 1] = [0]" using nf by (simp add: upto.simps)
  have ok: "\<not> (int (length v) < 3 * nvert m \<or> int (length n) < 3 * nnormal m)"
    using P v f n by (auto simp: Process_def split: if_splits)
  have fc: "face_centroid (nvert m) v1 f [0] ((0, 0, 0), 0) =
     (if i0 < 0 \<or> i0 \<ge> nvert m \<or> i1 < 0 \<or> i1 \<ge> nvert m \<or> i2 < 0 \<or> i2 \<ge> nvert m
         then Inl (mjCError ''vertex index out of range'')
      else Inr (vadd (0, 0, 0) (smul a cen), a))"
    using tri by (simp add: ids i v1_def)
  have inrange: "\<not> (i0 < 0 \<or> i0 \<ge> nvert m \<or> i1 < 0 \<or> i1 \<ge> nvert m \<or> i2 < 0 \<or> i2 \<ge> nvert m)"
  proof
    assume "i0 < 0 \<or> i0 \<ge> nvert m \<or> i1 < 0 \<or> i1 \<ge> nvert m \<or> i2 < 0 \<or> i2 \<ge> nvert m"
    then have "face_centroid (nvert m) v1 f [0] ((0, 0, 0), 0) = Inl (mjCError ''vertex index out of range'')"
      using fc by simp
    then show False using P v f n ok up by (simp add: Process_def Let_def v1_def)
  qed
  have fc': "face_centroid (nvert m) v1 f [0] ((0, 0, 0), 0) = Inr (vadd (0, 0, 0) (smul a cen), a)"
    using fc inrange by simp
  have fv: "face_volume env mjVOLUME_MESH cen v1 f [0] (0, (0, 0, 0)) =
     Inr (0, vadd (0, 0, 0) (smul 0 (vadd (smul (3 / 4) cen) (smul (1 / 4) cen))))"
    using tri by (simp add: v1_def pyramid_vol_centre)
  have pt: "process_type env mjVOLUME_MESH cen m1 = Inr (m1\<lparr>volume := 0, validvolume := False\<rparr>, True)"
    using np f nf fv mjMINVAL_pos
    by (simp add: process_type_def m1_def CheckMesh_def up set_volume_def split_def)
  have "Process env m = Inr (m1\<lparr>volume := 0, validvolume := False\<rparr>)"
    using v f n ok up fc' area apos pt
    by (simp add: Process_def Let_def v1_def [symmetric] m1_def [symmetric] smul_inverse)
  then have "m' = m1\<lparr>volume := 0, validvolume := False\<rparr>" using P by simp
  then show ?thesis by (simp add: m1_def)
qed

subsection \<open>The order of the vertices of a face\<close>

lemma length_swap23 [simp]: "length (swap23 xs) = length xs"
  by (induction xs rule: swap23.induct) simp_all

lemma swap23_map: "swap23 (map g xs) = map g (swap23 xs)"
  by (induction xs rule: swap23.induct) simp_all

lemma swap23_append3: "length xs = 3 * k \<Longrightarrow> swap23 (xs @ ys) = swap23 xs @ swap23 ys"
proof (induction k arbitrary: xs)
  case 0
  then show ?case by simp
next
  case (Suc k)
  then obtain a b c rest where "xs = a # b # c # rest" "length rest = 3 * k"
    by (cases xs; cases "tl xs"; cases "tl (tl xs)") auto
  then show ?case using Suc.IH by simp
qed

lemma obj_faces_swap:
  "obj_faces False nfvs ids = Inr r \<Longrightarrow>
   \<exists>r0. obj_faces True nfvs ids = Inr r0 \<and> r = swap23 r0"
proof (induction nfvs arbitrary: ids r)
  case Nil
  then show ?case by (cases ids) simp_all
next
  case (Cons n nfvs)
  show ?case
  proof (cases ids)
    case Nil
    then show ?thesis using Cons.prems by simp
  next
    case (Cons x xs)
    from Cons.prems Cons have ok: "\<not> (n < 3 \<or> n > 4)" "\<not> int (length ids) < n"
      by (auto simp: Let_def split: if_splits)
    from Cons.prems Cons ok obtain later where
      l: "obj_faces False nfvs (drop (nat n) ids) = Inr later"
      by (auto simp: Let_def bind_Inr_iff split: if_splits)
    from Cons.IH [OF l] obtain l0 where
      l0: "obj_faces True nfvs (drop (nat n) ids) = Inr l0" "later = swap23 l0"
      by auto
    have "n = 3 \<or> n = 4" using ok by auto
    then show ?thesis
      using Cons.prems Cons ok l l0 by (auto simp: Let_def)
  qed
qed

lemma swap_faces_append:
  "length xs = 3 * j \<Longrightarrow>
   swap_faces [int (length pre div 3)..int (length pre div 3) + int j - 1] (pre @ xs) = Inr (pre @ swap23 xs)"
  if "3 dvd length pre"
  using that
proof (induction j arbitrary: pre xs)
  case 0
  then show ?case by simp
next
  case (Suc j)
  from Suc.prems obtain a b c xs' where xs: "xs = a # b # c # xs'" "length xs' = 3 * j"
    by (cases xs; cases "tl xs"; cases "tl (tl xs)") auto
  obtain k where k: "length pre = 3 * k" using Suc.prems(2) by (auto elim: dvdE)
  have up: "[int (length pre div 3)..int (length pre div 3) + int (Suc j) - 1] =
    int k # [int (length (pre @ [a, c, b]) div 3)..int (length (pre @ [a, c, b]) div 3) + int j - 1]"
    using k by (simp add: upto_rec1 add.commute)
  have "length (pre @ [a, c, b]) = 3 * (k + 1)" using k by simp
  then have d: "3 dvd length (pre @ [a, c, b])" by (metis dvd_triv_left)
  have ih: "swap_faces [int (length (pre @ [a, c, b]) div 3)..int (length (pre @ [a, c, b]) div 3) + int j - 1]
      ((pre @ [a, c, b]) @ xs') = Inr ((pre @ [a, c, b]) @ swap23 xs')"
    using Suc.IH [OF xs(2) d] .
  have n1: "nat (3 * int k + 1) = 3 * k + 1" "nat (3 * int k + 2) = 3 * k + 2" by simp_all
  have step: "swap_faces (int k # rest) (pre @ a # b # c # xs') = swap_faces rest (pre @ a # c # b # xs')"
    for rest
    using k by (simp add: load_def store_def n1 nth_append list_update_append)
  have "swap_faces [int (length pre div 3)..int (length pre div 3) + int (Suc j) - 1] (pre @ xs) =
     swap_faces (int k # [int (length (pre @ [a, c, b]) div 3)..int (length (pre @ [a, c, b]) div 3) + int j - 1])
       (pre @ a # b # c # xs')"
    by (simp only: up xs(1))
  also have "\<dots> = swap_faces [int (length (pre @ [a, c, b]) div 3)..int (length (pre @ [a, c, b]) div 3) + int j - 1]
       (pre @ a # c # b # xs')"
    by (rule step)
  also have "\<dots> = Inr (pre @ a # c # b # swap23 xs')" using ih by simp
  finally show ?case by (simp add: xs)
qed

lemma swap_faces_all:
  assumes "int (length f) = 3 * nf"
  shows "swap_faces [0..nf - 1] f = Inr (swap23 f)"
proof -
  have nf: "0 \<le> nf" using assms by linarith
  have "length f = 3 * nat nf" using assms nf by linarith
  from swap_faces_append [of "[]" f "nat nf"] this show ?thesis using nf by simp
qed

lemma LoadMSH_faces:
  assumes L: "LoadMSH env m = Inr m'" and nz: "nface m' \<noteq> 0"
  shows "\<exists>buffer F. files env (meshfile m) = Some buffer \<and>
     copy_words buffer (16 + 12 * s32 (u32_at buffer 0) + 12 * s32 (u32_at buffer 4)
          + 8 * s32 (u32_at buffer 8)) (3 * s32 (u32_at buffer 12)) = Inr F \<and>
     nface m' = s32 (u32_at buffer 12) \<and>
     facenormal m' = Some (map s32 F) \<and>
     face m' = Some (if righthand m then map s32 F else swap23 (map s32 F))"
proof -
  from L obtain buffer nv nn nt nf m1 fd1 m2 fd2 m3 fd3 m4 fd4 m5 where
    b: "files env (meshfile m) = Some buffer" and
    h: "msh_header buffer = Inr (nv, nn, nt, nf)" and
    s: "msh_vert buffer nv (m\<lparr>nvert := nv, nnormal := nn, ntexcoord := nt, nface := nf\<rparr>) = Inr (m1, fd1)"
    "msh_normal buffer nv nn (m1, fd1) = Inr (m2, fd2)"
    "msh_texcoord buffer nv nt (m2, fd2) = Inr (m3, fd3)"
    "msh_face buffer nf (m3, fd3) = Inr (m4, fd4)"
    "msh_facetexcoord buffer nf (m4, fd4) = Inr m5"
    "msh_lefthanded (righthand m) nf m5 = Inr m'"
    by (rule LoadMSH_steps)
  note hd = msh_header_Inr [OF h]
  have nfm: "nface m' = nf"
    using msh_steps(1) [OF s(1)] msh_steps(2) [OF s(2)] msh_steps(3) [OF s(3)] msh_steps(4) [OF s(4)]
      msh_steps(5) [OF s(5)] msh_lefthanded_frame [OF s(6)]
    by simp
  then have nf0: "nf \<noteq> 0" using nz by simp
  have fd1: "fd1 = 16 + 12 * nv" using msh_steps(1) [OF s(1)] by simp
  have fd2: "fd2 = 16 + 12 * nv + 12 * nn"
    using msh_steps(2) [OF s(2)] fd1 hd by auto
  have fd3: "fd3 = 16 + 12 * nv + 12 * nn + 8 * nt"
    using msh_steps(3) [OF s(3)] fd2 hd by auto
  from msh_steps(4) [OF s(4)] nf0 obtain F where
    F: "copy_words buffer fd3 (3 * nf) = Inr F" "face m4 = Some (map s32 F)"
      "facenormal m4 = Some (map s32 F)"
    by auto
  have 5: "face m5 = Some (map s32 F)" "facenormal m5 = Some (map s32 F)"
    using msh_steps(5) [OF s(5)] F by simp_all
  have fn: "facenormal m' = Some (map s32 F)"
    using msh_lefthanded_frame [OF s(6)] 5 by simp
  have len: "int (length (map s32 F)) = 3 * nf"
    using copy_words_Inr [OF F(1)] by simp
  have fc: "face m' = Some (if righthand m then map s32 F else swap23 (map s32 F))"
  proof (cases "righthand m")
    case True
    then show ?thesis using s(6) 5 by (simp add: msh_lefthanded_def)
  next
    case False
    then show ?thesis
      using s(6) 5 nf0 swap_faces_all [OF len] by (auto simp: msh_lefthanded_def)
  qed
  show ?thesis
    using b F(1) fn fc nfm hd fd3 by auto
qed

lemma stl_check_ok: "list_all stl_coord_ok ws \<Longrightarrow> stl_check ws = Inr ()"
  by (induction ws) (auto simp: stl_coord_ok_def)

lemma stl_check_bad: "\<not> list_all stl_coord_ok ws \<Longrightarrow> stl_error (stl_check ws)"
  by (induction ws) (auto simp: stl_coord_ok_def stl_error_def)

lemma stl_error_bind [simp]: "stl_error r \<Longrightarrow> stl_error (bind r f)"
  by (auto simp: stl_error_def)

lemma length_stl_words [simp]: "length (stl_words buffer i j) = 3"
  by (simp add: stl_words_def)

lemma stl_words_eq: "stl_words buffer i j = [stl_words buffer i j ! 0, stl_words buffer i j ! 1, stl_words buffer i j ! 2]"
  by (simp add: stl_words_def)

lemma stl_ids_Suc: "stl_ids rh (Suc n) = stl_ids rh n @
   (if rh then [int (3 * n), int (3 * n + 1), int (3 * n + 2)] else [int (3 * n), int (3 * n + 2), int (3 * n + 1)])"
proof -
  have up: "[0..<3 * Suc n] = [0..<3 * n] @ [3 * n, 3 * n + 1, 3 * n + 2]"
  proof -
    have "3 * Suc n = Suc (Suc (Suc (3 * n)))" by simp
    then show ?thesis by (simp only: upt_Suc_append) simp
  qed
  have l: "length (map int [0..<3 * n]) = 3 * n" by simp
  show ?thesis
    by (simp only: stl_ids_def up map_append swap23_append3 [OF l]) simp
qed

lemma stl_coords_Suc: "stl_coords buffer (Suc n) = stl_coords buffer n @
    stl_words buffer n 0 @ stl_words buffer n 1 @ stl_words buffer n 2"
  by (simp add: stl_coords_def)

lemma length_stl_ids [simp]: "length (stl_ids rh n) = 3 * n"
  by (simp add: stl_ids_def)

lemma length_stl_coords [simp]: "length (stl_coords buffer n) = 9 * n"
  by (induction n) (simp_all add: stl_coords_Suc, simp add: stl_coords_def)

lemma map3: "length ws = 3 \<Longrightarrow> map g ws = [g (ws ! 0), g (ws ! 1), g (ws ! 2)]"
  by (cases ws; cases "tl ws"; cases "tl (tl ws)") auto

lemma stl_corner_at:
  assumes "stl_check (stl_words buffer i j) = Inr ()"
    and "length F = p" and "length V = 3 * n" and "nv = int n"
    and "d = (if rh \<or> j = 0 then int (3 * i + j) else int (3 * i + 3 - j))" and "d = int p"
  shows "stl_corner rh buffer i j (nv, F @ x # R, V @ a # b # c # W) =
     Inr (int (Suc n), F @ int n # R,
          V @ map float_val (stl_words buffer i j) @ W)"
  using assms(1) assms(5) [symmetric] assms(2,3,4,6)
  by (simp add: stl_corner_def Let_def map3 store_def store3_def nth_append list_update_append
      nat_add_distrib nat_mult_distrib del: of_nat_add of_nat_mult)

lemma stl_triangle_ok:
  assumes F: "length F = 3 * i" and V: "length V = 9 * i"
    and ok: "list_all stl_coord_ok (stl_words buffer i 0 @ stl_words buffer i 1 @ stl_words buffer i 2)"
  shows "stl_corners rh buffer i [0, 1, 2]
           (int (3 * i), F @ x # y # z # R, V @ a1 # a2 # a3 # a4 # a5 # a6 # a7 # a8 # a9 # W) =
     Inr (int (3 * Suc i),
          F @ (if rh then [int (3 * i), int (3 * i + 1), int (3 * i + 2)]
               else [int (3 * i), int (3 * i + 2), int (3 * i + 1)]) @ R,
          V @ map float_val (stl_words buffer i 0 @ stl_words buffer i 1 @ stl_words buffer i 2) @ W)"
proof -
  have c: "stl_check (stl_words buffer i 0) = Inr ()" "stl_check (stl_words buffer i 1) = Inr ()"
    "stl_check (stl_words buffer i 2) = Inr ()"
    using ok by (simp_all add: stl_check_ok)
  let ?w0 = "map float_val (stl_words buffer i 0)"
  let ?w1 = "map float_val (stl_words buffer i 1)"
  let ?w2 = "map float_val (stl_words buffer i 2)"
  have s0: "stl_corner rh buffer i 0 (int (3 * i), F @ x # y # z # R,
        V @ a1 # a2 # a3 # a4 # a5 # a6 # a7 # a8 # a9 # W) =
      Inr (int (Suc (3 * i)), F @ int (3 * i) # y # z # R, V @ ?w0 @ a4 # a5 # a6 # a7 # a8 # a9 # W)"
    by (rule stl_corner_at [OF c(1), where p = "3 * i" and d = "int (3 * i)"]) (simp_all add: F V)
  show ?thesis
  proof (cases rh)
    case True
    have s1: "stl_corner rh buffer i 1 (int (Suc (3 * i)), (F @ [int (3 * i)]) @ y # z # R,
        (V @ ?w0) @ a4 # a5 # a6 # a7 # a8 # a9 # W) =
      Inr (int (Suc (Suc (3 * i))), (F @ [int (3 * i)]) @ int (Suc (3 * i)) # z # R,
           (V @ ?w0) @ ?w1 @ a7 # a8 # a9 # W)"
      by (rule stl_corner_at [OF c(2), where p = "3 * i + 1" and d = "int (3 * i + 1)"])
        (simp_all add: F V True)
    have s2: "stl_corner rh buffer i 2 (int (Suc (Suc (3 * i))),
        (F @ [int (3 * i), int (Suc (3 * i))]) @ z # R, (V @ ?w0 @ ?w1) @ a7 # a8 # a9 # W) =
      Inr (int (Suc (Suc (Suc (3 * i)))), (F @ [int (3 * i), int (Suc (3 * i))]) @ int (Suc (Suc (3 * i))) # R,
           (V @ ?w0 @ ?w1) @ ?w2 @ W)"
      by (rule stl_corner_at [OF c(3), where p = "3 * i + 2" and d = "int (3 * i + 2)"])
        (simp_all add: F V True)
    show ?thesis
      using s0 s1 s2 True by simp
  next
    case False
    have s1: "stl_corner rh buffer i 1 (int (Suc (3 * i)), (F @ [int (3 * i), y]) @ z # R,
        (V @ ?w0) @ a4 # a5 # a6 # a7 # a8 # a9 # W) =
      Inr (int (Suc (Suc (3 * i))), (F @ [int (3 * i), y]) @ int (Suc (3 * i)) # R,
           (V @ ?w0) @ ?w1 @ a7 # a8 # a9 # W)"
      by (rule stl_corner_at [OF c(2), where p = "3 * i + 2" and d = "int (3 * i + 2)"])
        (simp_all add: F V False)
    have s2: "stl_corner rh buffer i 2 (int (Suc (Suc (3 * i))),
        (F @ [int (3 * i)]) @ y # int (Suc (3 * i)) # R, (V @ ?w0 @ ?w1) @ a7 # a8 # a9 # W) =
      Inr (int (Suc (Suc (Suc (3 * i)))), (F @ [int (3 * i)]) @ int (Suc (Suc (3 * i))) # int (Suc (3 * i)) # R,
           (V @ ?w0 @ ?w1) @ ?w2 @ W)"
      by (rule stl_corner_at [OF c(3), where p = "3 * i + 1" and d = "int (3 * i + 1)"])
        (simp_all add: F V False)
    show ?thesis
      using s0 s1 s2 False by simp
  qed
qed

lemma stl_corner_bad:
  "\<not> list_all stl_coord_ok (stl_words buffer i j) \<Longrightarrow> stl_error (stl_corner rh buffer i j st)"
  by (cases st) (simp add: stl_corner_def Let_def stl_check_bad)

lemma stl_triangle_bad:
  assumes F: "length F = 3 * i" and V: "length V = 9 * i"
    and bad: "\<not> list_all stl_coord_ok (stl_words buffer i 0 @ stl_words buffer i 1 @ stl_words buffer i 2)"
  shows "stl_error (stl_corners rh buffer i [0, 1, 2]
           (int (3 * i), F @ x # y # z # R, V @ a1 # a2 # a3 # a4 # a5 # a6 # a7 # a8 # a9 # W))"
proof (cases "list_all stl_coord_ok (stl_words buffer i 0)")
  case False
  then show ?thesis by (simp add: stl_corner_bad)
next
  case ok0: True
  let ?w0 = "map float_val (stl_words buffer i 0)"
  let ?w1 = "map float_val (stl_words buffer i 1)"
  have s0: "stl_corner rh buffer i 0 (int (3 * i), F @ x # y # z # R,
        V @ a1 # a2 # a3 # a4 # a5 # a6 # a7 # a8 # a9 # W) =
      Inr (int (Suc (3 * i)), F @ int (3 * i) # y # z # R, V @ ?w0 @ a4 # a5 # a6 # a7 # a8 # a9 # W)"
    by (rule stl_corner_at [OF stl_check_ok [OF ok0], where p = "3 * i" and d = "int (3 * i)"])
      (simp_all add: F V)
  show ?thesis
  proof (cases "list_all stl_coord_ok (stl_words buffer i 1)")
    case False
    then show ?thesis using s0 by (simp add: stl_corner_bad)
  next
    case ok1: True
    then have bad2: "\<not> list_all stl_coord_ok (stl_words buffer i 2)" using bad ok0 by simp
    obtain st2 where s1: "stl_corner rh buffer i 1 (int (Suc (3 * i)), F @ int (3 * i) # y # z # R,
        V @ ?w0 @ a4 # a5 # a6 # a7 # a8 # a9 # W) = Inr st2"
    proof (cases rh)
      case True
      have "stl_corner rh buffer i 1 (int (Suc (3 * i)), (F @ [int (3 * i)]) @ y # z # R,
          (V @ ?w0) @ a4 # a5 # a6 # a7 # a8 # a9 # W) =
        Inr (int (Suc (Suc (3 * i))), (F @ [int (3 * i)]) @ int (Suc (3 * i)) # z # R,
             (V @ ?w0) @ ?w1 @ a7 # a8 # a9 # W)"
        by (rule stl_corner_at [OF stl_check_ok [OF ok1], where p = "3 * i + 1" and d = "int (3 * i + 1)"])
          (simp_all add: F V True)
      then show ?thesis using that by simp
    next
      case False
      have "stl_corner rh buffer i 1 (int (Suc (3 * i)), (F @ [int (3 * i), y]) @ z # R,
          (V @ ?w0) @ a4 # a5 # a6 # a7 # a8 # a9 # W) =
        Inr (int (Suc (Suc (3 * i))), (F @ [int (3 * i), y]) @ int (Suc (3 * i)) # R,
             (V @ ?w0) @ ?w1 @ a7 # a8 # a9 # W)"
        by (rule stl_corner_at [OF stl_check_ok [OF ok1], where p = "3 * i + 2" and d = "int (3 * i + 2)"])
          (simp_all add: F V False)
      then show ?thesis using that by simp
    qed
    show ?thesis using s0 s1 bad2 by (simp add: stl_corner_bad)
  qed
qed

lemma stl_coords_all:
  "list_all P (stl_coords buffer n) \<longleftrightarrow>
   (\<forall>i<n. list_all P (stl_words buffer i 0 @ stl_words buffer i 1 @ stl_words buffer i 2))"
  by (induction n) (auto simp: stl_coords_Suc less_Suc_eq, simp add: stl_coords_def)

lemma replicate3: "0 < j \<Longrightarrow> replicate (3 * j) x = x # x # x # replicate (3 * (j - 1)) x"
proof -
  assume "0 < j"
  then have "3 * j = Suc (Suc (Suc (3 * (j - 1))))" by simp
  then show ?thesis by (simp only: replicate_Suc)
qed

lemma replicate9:
  "0 < j \<Longrightarrow> replicate (9 * j) x = x # x # x # x # x # x # x # x # x # replicate (9 * (j - 1)) x"
proof -
  assume "0 < j"
  then have "9 * j = Suc (Suc (Suc (Suc (Suc (Suc (Suc (Suc (Suc (9 * (j - 1))))))))))" by simp
  then show ?thesis by (simp only: replicate_Suc)
qed

lemma stl_faces_step:
  assumes "k < n"
    and True: "list_all stl_coord_ok (stl_words buffer k 0 @ stl_words buffer k 1 @ stl_words buffer k 2)"
  shows "stl_faces rh buffer [k..<n]
           (int (3 * k), stl_ids rh k @ replicate (3 * (n - k)) 0,
            map float_val (stl_coords buffer k) @ replicate (9 * (n - k)) 0) =
         stl_faces rh buffer [Suc k..<n]
           (int (3 * Suc k), stl_ids rh (Suc k) @ replicate (3 * (n - Suc k)) 0,
            map float_val (stl_coords buffer (Suc k)) @ replicate (9 * (n - Suc k)) 0)"
proof -
  have up: "[k..<n] = k # [Suc k..<n]" using assms by (simp add: upt_conv_Cons)
  have r: "replicate (3 * (n - k)) (0::int) = 0 # 0 # 0 # replicate (3 * (n - Suc k)) 0"
    "replicate (9 * (n - k)) (0::real) = 0 # 0 # 0 # 0 # 0 # 0 # 0 # 0 # 0 # replicate (9 * (n - Suc k)) 0"
    using assms replicate3 [of "n - k"] replicate9 [of "n - k"] by simp_all
  have t: "stl_corners rh buffer k [0, 1, 2]
           (int (3 * k), stl_ids rh k @ 0 # 0 # 0 # replicate (3 * (n - Suc k)) 0,
            map float_val (stl_coords buffer k) @ 0 # 0 # 0 # 0 # 0 # 0 # 0 # 0 # 0 # replicate (9 * (n - Suc k)) 0) =
     Inr (int (3 * Suc k),
          stl_ids rh k @ (if rh then [int (3 * k), int (3 * k + 1), int (3 * k + 2)]
               else [int (3 * k), int (3 * k + 2), int (3 * k + 1)]) @ replicate (3 * (n - Suc k)) 0,
          map float_val (stl_coords buffer k) @
            map float_val (stl_words buffer k 0 @ stl_words buffer k 1 @ stl_words buffer k 2) @
            replicate (9 * (n - Suc k)) 0)"
    by (rule stl_triangle_ok [OF _ _ True]) simp_all
  show ?thesis
    unfolding up r using t
    by (simp add: stl_ids_Suc stl_coords_Suc del: stl_corners.simps)
qed

lemma stl_faces_run:
  assumes "k \<le> n"
  shows "stl_faces rh buffer [k..<n]
           (int (3 * k), stl_ids rh k @ replicate (3 * (n - k)) 0,
            map float_val (stl_coords buffer k) @ replicate (9 * (n - k)) 0) =
         Inr (int (3 * n), stl_ids rh n, map float_val (stl_coords buffer n)) \<and>
         (\<forall>i. k \<le> i \<and> i < n \<longrightarrow>
            list_all stl_coord_ok (stl_words buffer i 0 @ stl_words buffer i 1 @ stl_words buffer i 2))
       \<or>
         stl_error (stl_faces rh buffer [k..<n]
           (int (3 * k), stl_ids rh k @ replicate (3 * (n - k)) 0,
            map float_val (stl_coords buffer k) @ replicate (9 * (n - k)) 0)) \<and>
         (\<exists>i. k \<le> i \<and> i < n \<and>
            \<not> list_all stl_coord_ok (stl_words buffer i 0 @ stl_words buffer i 1 @ stl_words buffer i 2))"
  using assms
proof (induction "n - k" arbitrary: k)
  case 0
  then show ?case by auto
next
  case (Suc d)
  then have kn: "k < n" "d = n - Suc k" "Suc k \<le> n" by simp_all
  show ?case
  proof (cases "list_all stl_coord_ok (stl_words buffer k 0 @ stl_words buffer k 1 @ stl_words buffer k 2)")
    case True
    note st = stl_faces_step [OF kn(1) True, of rh]
    from Suc.hyps(1) [OF kn(2) kn(3)] show ?thesis
    proof
      assume a: "stl_faces rh buffer [Suc k..<n]
           (int (3 * Suc k), stl_ids rh (Suc k) @ replicate (3 * (n - Suc k)) 0,
            map float_val (stl_coords buffer (Suc k)) @ replicate (9 * (n - Suc k)) 0) =
         Inr (int (3 * n), stl_ids rh n, map float_val (stl_coords buffer n)) \<and>
         (\<forall>i. Suc k \<le> i \<and> i < n \<longrightarrow>
            list_all stl_coord_ok (stl_words buffer i 0 @ stl_words buffer i 1 @ stl_words buffer i 2))"
      have "\<forall>i. k \<le> i \<and> i < n \<longrightarrow>
            list_all stl_coord_ok (stl_words buffer i 0 @ stl_words buffer i 1 @ stl_words buffer i 2)"
        using a True by (metis Suc_leI le_neq_implies_less)
      then show ?thesis using a st by simp
    next
      assume a: "stl_error (stl_faces rh buffer [Suc k..<n]
           (int (3 * Suc k), stl_ids rh (Suc k) @ replicate (3 * (n - Suc k)) 0,
            map float_val (stl_coords buffer (Suc k)) @ replicate (9 * (n - Suc k)) 0)) \<and>
         (\<exists>i. Suc k \<le> i \<and> i < n \<and>
            \<not> list_all stl_coord_ok (stl_words buffer i 0 @ stl_words buffer i 1 @ stl_words buffer i 2))"
      then have "\<exists>i. k \<le> i \<and> i < n \<and>
            \<not> list_all stl_coord_ok (stl_words buffer i 0 @ stl_words buffer i 1 @ stl_words buffer i 2)"
        using Suc_leD by blast
      then show ?thesis using a st by simp
    qed
  next
    case False
    have r: "replicate (3 * (n - k)) (0::int) = 0 # 0 # 0 # replicate (3 * (n - Suc k)) 0"
      "replicate (9 * (n - k)) (0::real) = 0 # 0 # 0 # 0 # 0 # 0 # 0 # 0 # 0 # replicate (9 * (n - Suc k)) 0"
      using kn(1) replicate3 [of "n - k"] replicate9 [of "n - k"] by simp_all
    have up: "[k..<n] = k # [Suc k..<n]" using kn(1) by (simp add: upt_conv_Cons)
    have "stl_error (stl_corners rh buffer k [0, 1, 2]
           (int (3 * k), stl_ids rh k @ replicate (3 * (n - k)) 0,
            map float_val (stl_coords buffer k) @ replicate (9 * (n - k)) 0))"
      unfolding r by (rule stl_triangle_bad [OF _ _ False]) simp_all
    then have "stl_error (stl_faces rh buffer [k..<n]
           (int (3 * k), stl_ids rh k @ replicate (3 * (n - k)) 0,
            map float_val (stl_coords buffer k) @ replicate (9 * (n - k)) 0))"
      unfolding up by (simp only: stl_faces.simps stl_error_bind)
    then show ?thesis using False kn(1) by blast
  qed
qed

lemma stl_ids_0 [simp]: "stl_ids rh 0 = []"
  by (simp add: stl_ids_def)

lemma stl_coords_0 [simp]: "stl_coords buffer 0 = []"
  by (simp add: stl_coords_def)

lemma stl_faces_all:
  "stl_faces rh buffer [0..<n] (0, mju_malloc (3 * int n), replicate (nat (9 * int n)) 0) =
         Inr (int (3 * n), stl_ids rh n, map float_val (stl_coords buffer n)) \<and>
         list_all stl_coord_ok (stl_coords buffer n)
       \<or>
         stl_error (stl_faces rh buffer [0..<n] (0, mju_malloc (3 * int n), replicate (nat (9 * int n)) 0)) \<and>
         \<not> list_all stl_coord_ok (stl_coords buffer n)"
proof -
  have n: "nat (3 * int n) = 3 * n" "nat (9 * int n) = 9 * n" by simp_all
  from stl_faces_run [of 0 n rh buffer] show ?thesis
    by (simp add: mju_malloc_def n stl_coords_all [of stl_coord_ok buffer n])
qed

lemma u32_at_less: "u32_at buf off < 2 ^ 32"
proof -
  have b: "\<And>w :: byte. unat w < 256"
  proof -
    fix w :: byte
    have "unat w < 2 ^ LENGTH(8)" by (rule unsigned_less)
    then show "unat w < 256" by simp
  qed
  have "unat (buf ! off) + 256 * unat (buf ! (off + 1)) + 65536 * unat (buf ! (off + 2))
       + 16777216 * unat (buf ! (off + 3)) < 4294967296"
    using b [of "buf ! off"] b [of "buf ! (off + 1)"] b [of "buf ! (off + 2)"] b [of "buf ! (off + 3)"]
    by linarith
  then show ?thesis by (simp add: u32_at_def)
qed

lemma s32_range: "n < 2 ^ 32 \<Longrightarrow> (s32 n < 1 \<or> 200000 < s32 n) = (n < 1 \<or> 200000 < n)"
  by (auto simp: s32_def)

lemma stl_read_unfold:
  assumes f: "files env (meshfile m) = Some buffer" and fresh: "nvert m = 0"
    and sz: "84 \<le> length buffer"
    and n: "1 \<le> u32_at buffer 80" "u32_at buffer 80 \<le> 200000"
    and len: "length buffer = 84 + 50 * u32_at buffer 80"
  shows "stl_read env m =
     bind (stl_faces (righthand m) buffer [0..<u32_at buffer 80]
             (0, mju_malloc (3 * int (u32_at buffer 80)), replicate (nat (9 * int (u32_at buffer 80))) 0))
       (\<lambda>(nv, f, v). Inr (m\<lparr>nface := int (u32_at buffer 80), nvert := nv, face := Some f, vert := Some v\<rparr>))"
proof -
  have s: "s32 (u32_at buffer 80) = int (u32_at buffer 80)"
    using n by (simp add: s32_def)
  show ?thesis
    using f fresh sz n len by (simp add: stl_read_def Let_def s)
qed


lemma stl_one_count: "length stl_one = 134" "u32_at stl_one 80 = 1"
  by (simp_all add: stl_one_def u32_at_def nth_append)

lemma stl_one_coords:
  "stl_coords stl_one (Suc 0) = [0, 0, 0, 1065353216, 0, 0, 0, 1065353216, 0]"
  by (simp add: stl_coords_def stl_words_def u32_at_def stl_one_def nth_append)

lemma float_examples:
  "float_val 0 = 0" "float_val 1065353216 = 1"
  "stl_coord_ok 0" "stl_coord_ok 1065353216"
  by (simp_all add: stl_coord_ok_def float_val_def float_isnan_def float_isinf_def
      float_exponent_def float_fraction_def Let_def)

lemma stl_ids_1: "stl_ids True (Suc 0) = [0, 1, 2]" "stl_ids False (Suc 0) = [0, 2, 1]"
  by (simp_all add: stl_ids_def upt_rec)


lemma stl_read_Inr:
  assumes r: "stl_read env m = Inr m'" and fresh: "nvert m = 0"
  shows "\<exists>buffer. files env (meshfile m) = Some buffer \<and> 1 \<le> u32_at buffer 80 \<and>
     length buffer = 84 + 50 * u32_at buffer 80 \<and>
     list_all stl_coord_ok (stl_coords buffer (u32_at buffer 80)) \<and>
     m' = m\<lparr>nface := int (u32_at buffer 80), nvert := int (3 * u32_at buffer 80),
            face := Some (stl_ids (righthand m) (u32_at buffer 80)),
            vert := Some (map float_val (stl_coords buffer (u32_at buffer 80)))\<rparr>"
proof -
  obtain buffer where f: "files env (meshfile m) = Some buffer"
    using r by (cases "files env (meshfile m)") (simp_all add: stl_read_def)
  let ?N = "u32_at buffer 80"
  have g: "\<not> int (length buffer) < 84" "\<not> (s32 ?N < 1 \<or> 200000 < s32 ?N)"
    "s32 ?N * 50 = int (length buffer) - 84"
    using r f by (auto simp: stl_read_def Let_def split: if_split_asm)
  have n: "1 \<le> ?N" "?N \<le> 200000"
    using g(2) s32_range [OF u32_at_less [of buffer 80]] by auto
  then have s: "s32 ?N = int ?N" by (simp add: s32_def)
  have sz: "84 \<le> length buffer" "length buffer = 84 + 50 * ?N"
    using g(1,3) s by linarith+
  note u = stl_read_unfold [OF f fresh sz(1) n sz(2)]
  have ok: "list_all stl_coord_ok (stl_coords buffer ?N)"
  proof (rule ccontr)
    assume "\<not> list_all stl_coord_ok (stl_coords buffer ?N)"
    then have "stl_error (stl_faces (righthand m) buffer [0..<?N]
             (0, mju_malloc (3 * int ?N), replicate (nat (9 * int ?N)) 0))"
      using stl_faces_all [of "righthand m" buffer ?N] by blast
    then have "stl_error (stl_read env m)" unfolding u by (intro stl_error_bind)
    then show False using r by (simp add: stl_error_def)
  qed
  then have run: "stl_faces (righthand m) buffer [0..<?N]
             (0, mju_malloc (3 * int ?N), replicate (nat (9 * int ?N)) 0) =
         Inr (int (3 * ?N), stl_ids (righthand m) ?N, map float_val (stl_coords buffer ?N))"
    using stl_faces_all [of "righthand m" buffer ?N] by blast
  have "m' = m\<lparr>nface := int ?N, nvert := int (3 * ?N),
            face := Some (stl_ids (righthand m) ?N),
            vert := Some (map float_val (stl_coords buffer ?N))\<rparr>"
    using r unfolding u run by simp
  then show ?thesis using f n sz ok by blast
qed

lemma LoadOBJ_faces:
  assumes L: "LoadOBJ env m = Inr m'"
    and sh: "GetShapes (ParseFromFile env (meshfile m)) = shape # rest"
  shows "\<exists>r0. obj_faces True (num_face_vertices shape) (indices shape) = Inr r0 \<and>
     userface m' = userface m @
       (if righthand m then map vertex_index r0 else swap23 (map vertex_index r0))"
proof -
  from L sh obtain fi where
    fi: "obj_faces (righthand m) (num_face_vertices shape) (indices shape) = Inr fi"
    and uf: "userface m' = userface m @ map vertex_index fi"
    apply (simp add: LoadOBJ_def Let_def split: if_split_asm)
    apply (auto simp: bind_Inr_iff)
    done
  show ?thesis
  proof (cases "righthand m")
    case True
    then show ?thesis using fi uf by simp
  next
    case False
    from obj_faces_swap [OF fi [unfolded False [THEN eq_False [THEN iffD2]]]] obtain r0 where
      "obj_faces True (num_face_vertices shape) (indices shape) = Inr r0" "fi = swap23 r0"
      by blast
    then show ?thesis using uf False by (simp add: swap23_map)
  qed
qed

lemma msh_one_header:
  "length msh_one = 76" "u32_at msh_one 0 = 4" "u32_at msh_one 4 = 0" "u32_at msh_one 8 = 0"
  "u32_at msh_one 12 = 1"
  by (simp_all add: msh_one_def u32_at_def nth_append)

lemma msh_one_header_ok: "msh_header msh_one = Inr (4, 0, 0, 1)"
  by (simp add: msh_header_def Let_def msh_one_header s32_def INT_MAX_def)

lemma msh_one_vert:
  "copy_words msh_one 16 12 = Inr [0, 0, 0, 1065353216, 0, 0, 0, 1065353216, 0, 0, 0, 1065353216]"
  by (simp add: copy_words_def msh_one_header upt_rec) (simp add: msh_one_def u32_at_def nth_append)

lemma msh_one_face: "copy_words msh_one 64 3 = Inr [0, 1, 2]"
  by (simp add: copy_words_def msh_one_header upt_rec) (simp add: msh_one_def u32_at_def nth_append)

lemma left_mesh_load:
  "LoadMSH msh_env left_mesh =
     Inr (left_mesh\<lparr>nvert := 4, nnormal := 0, ntexcoord := 0, nface := 1,
            vert := Some [0, 0, 0, 1, 0, 0, 0, 1, 0, 0, 0, 1],
            face := Some [0, 2, 1], facenormal := Some [0, 1, 2]\<rparr>)"
  by (simp add: LoadMSH_def msh_env_def plain_env_def msh_one_header_ok msh_vert_def msh_normal_def
      msh_texcoord_def msh_face_def msh_facetexcoord_def msh_lefthanded_def msh_one_vert msh_one_face
      float_examples s32_def left_mesh_def new_mjCMesh_def righthand_def upto_eval load_def store_def)

lemma obj_triangle_order:
  "obj_faces True (num_face_vertices (hd (GetShapes obj_triangle))) (indices (hd (GetShapes obj_triangle))) =
     Inr (indices (hd (GetShapes obj_triangle)))"
  "map vertex_index (indices (hd (GetShapes obj_triangle))) = [0, 1, 2]"
  by (simp_all add: obj_triangle_def Let_def)

lemma left_mesh_obj:
  "LoadOBJ obj_env left_mesh =
     Inr (left_mesh\<lparr>uservert := [0, 0, 0, 1, 0, 0, 0, 1, 0, 0, 0, 1], userface := [0, 2, 1],
            useredge := [(0, 2), (2, 1), (1, 0)]\<rparr>)"
  by (simp add: LoadOBJ_def obj_env_def plain_env_def obj_triangle_def left_mesh_def new_mjCMesh_def
      righthand_def Let_def flip_texcoord_def load3_def triangle_def edges_of_def
      sqrt_mjMINVAL mjMINVAL_facts)

lemma zero_mesh_obj:
  "LoadOBJ obj_env zero_mesh =
     Inr (zero_mesh\<lparr>uservert := [0, 0, 0, 1, 0, 0, 0, 1, 0, 0, 0, 1], userface := [0, 2, 1],
            useredge := [(0, 2), (2, 1), (1, 0)]\<rparr>)"
  by (simp add: LoadOBJ_def obj_env_def plain_env_def obj_triangle_def zero_mesh_def new_mjCMesh_def
      righthand_def Let_def flip_texcoord_def load3_def triangle_def edges_of_def
      sqrt_mjMINVAL mjMINVAL_facts)

lemma stl_read_valid:
  assumes f: "files env (meshfile m) = Some buffer" and fresh: "nvert m = 0"
    and sz: "84 \<le> length buffer"
    and n: "1 \<le> u32_at buffer 80" "u32_at buffer 80 \<le> 200000"
    and len: "length buffer = 84 + 50 * u32_at buffer 80"
    and ok: "list_all stl_coord_ok (stl_coords buffer (u32_at buffer 80))"
  shows "stl_read env m =
         Inr (m\<lparr>nface := int (u32_at buffer 80), nvert := int (3 * u32_at buffer 80),
                face := Some (stl_ids (righthand m) (u32_at buffer 80)),
                vert := Some (map float_val (stl_coords buffer (u32_at buffer 80)))\<rparr>)"
proof -
  let ?N = "u32_at buffer 80"
  note u = stl_read_unfold [OF f fresh sz n len]
  have run: "stl_faces (righthand m) buffer [0..<?N]
             (0, mju_malloc (3 * int ?N), replicate (nat (9 * int ?N)) 0) =
         Inr (int (3 * ?N), stl_ids (righthand m) ?N, map float_val (stl_coords buffer ?N))"
    using stl_faces_all [of "righthand m" buffer ?N] ok by blast
  show ?thesis unfolding u run by simp
qed

lemma left_mesh_stl:
  "stl_read stl_env left_mesh =
     Inr (left_mesh\<lparr>nface := 1, nvert := 3, face := Some [0, 2, 1],
            vert := Some [0, 0, 0, 1, 0, 0, 0, 1, 0]\<rparr>)"
proof -
  have f: "files stl_env (meshfile left_mesh) = Some stl_one" by (simp add: stl_env_def)
  have n: "nvert left_mesh = 0" by (simp add: left_mesh_def new_mjCMesh_def)
  have rh: "\<not> righthand left_mesh" by (simp add: righthand_def left_mesh_def)
  have ok: "list_all stl_coord_ok (stl_coords stl_one (u32_at stl_one 80))"
    by (simp add: stl_one_count stl_one_coords float_examples)
  from stl_read_valid [OF f n _ _ _ _ ok] show ?thesis
    by (simp add: stl_one_count stl_one_coords float_examples stl_ids_1 rh)
qed

text \<open>
  C6 (as amended). A load is right-handed exactly when the product of
  the three scales is positive, and left-handed otherwise, also when the
  product is 0. The OBJ loader appends the triangles of the first shape, the
  MSH loader stores the faces of the file, and the STL loader numbers the
  corners as it reads them (before \<^verbatim>\<open>RemoveRepeated\<close> renames them): each in
  the order read when the load is right-handed, and with the second and third
  vertex of every triangle exchanged when it is left-handed.
\<close>

theorem load_handedness:
  "(righthand m \<longleftrightarrow> 0 < fst (scale m) * fst (snd (scale m)) * snd (snd (scale m))) \<and>
   (LoadOBJ env m = Inr m' \<and> GetShapes (ParseFromFile env (meshfile m)) \<noteq> [] \<longrightarrow>
      (\<exists>r0. obj_faces True (num_face_vertices (hd (GetShapes (ParseFromFile env (meshfile m)))))
                (indices (hd (GetShapes (ParseFromFile env (meshfile m))))) = Inr r0 \<and>
            userface m' = userface m @
              (if righthand m then map vertex_index r0 else swap23 (map vertex_index r0)))) \<and>
   (LoadMSH env m = Inr m' \<and> nface m' \<noteq> 0 \<longrightarrow>
      (\<exists>buffer F. files env (meshfile m) = Some buffer \<and>
         copy_words buffer (16 + 12 * s32 (u32_at buffer 0) + 12 * s32 (u32_at buffer 4)
              + 8 * s32 (u32_at buffer 8)) (3 * s32 (u32_at buffer 12)) = Inr F \<and>
         face m' = Some (if righthand m then map s32 F else swap23 (map s32 F)))) \<and>
   (stl_read env m = Inr m' \<and> nvert m = 0 \<longrightarrow>
      (\<exists>buffer. files env (meshfile m) = Some buffer \<and>
         vert m' = Some (map float_val (stl_coords buffer (u32_at buffer 80))) \<and>
         face m' = Some (if righthand m then map int [0..<3 * u32_at buffer 80]
                         else swap23 (map int [0..<3 * u32_at buffer 80]))))"
proof -
  have 1: "righthand m \<longleftrightarrow> 0 < fst (scale m) * fst (snd (scale m)) * snd (snd (scale m))"
    by (simp add: righthand_def split_def)
  have 2: "LoadOBJ env m = Inr m' \<and> GetShapes (ParseFromFile env (meshfile m)) \<noteq> [] \<longrightarrow>
      (\<exists>r0. obj_faces True (num_face_vertices (hd (GetShapes (ParseFromFile env (meshfile m)))))
                (indices (hd (GetShapes (ParseFromFile env (meshfile m))))) = Inr r0 \<and>
            userface m' = userface m @
              (if righthand m then map vertex_index r0 else swap23 (map vertex_index r0)))"
  proof
    assume h: "LoadOBJ env m = Inr m' \<and> GetShapes (ParseFromFile env (meshfile m)) \<noteq> []"
    then obtain shape rest where "GetShapes (ParseFromFile env (meshfile m)) = shape # rest"
      by (cases "GetShapes (ParseFromFile env (meshfile m))") auto
    from LoadOBJ_faces [OF _ this] h this
    show "\<exists>r0. obj_faces True (num_face_vertices (hd (GetShapes (ParseFromFile env (meshfile m)))))
                (indices (hd (GetShapes (ParseFromFile env (meshfile m))))) = Inr r0 \<and>
            userface m' = userface m @
              (if righthand m then map vertex_index r0 else swap23 (map vertex_index r0))"
      by simp
  qed
  have 3: "LoadMSH env m = Inr m' \<and> nface m' \<noteq> 0 \<longrightarrow>
      (\<exists>buffer F. files env (meshfile m) = Some buffer \<and>
         copy_words buffer (16 + 12 * s32 (u32_at buffer 0) + 12 * s32 (u32_at buffer 4)
              + 8 * s32 (u32_at buffer 8)) (3 * s32 (u32_at buffer 12)) = Inr F \<and>
         face m' = Some (if righthand m then map s32 F else swap23 (map s32 F)))"
    using LoadMSH_faces [of env m m'] by blast
  have 4: "stl_read env m = Inr m' \<and> nvert m = 0 \<longrightarrow>
      (\<exists>buffer. files env (meshfile m) = Some buffer \<and>
         vert m' = Some (map float_val (stl_coords buffer (u32_at buffer 80))) \<and>
         face m' = Some (if righthand m then map int [0..<3 * u32_at buffer 80]
                         else swap23 (map int [0..<3 * u32_at buffer 80])))"
  proof
    assume h: "stl_read env m = Inr m' \<and> nvert m = 0"
    from stl_read_Inr [of env m m'] h obtain buffer where
      b: "files env (meshfile m) = Some buffer"
      "m' = m\<lparr>nface := int (u32_at buffer 80), nvert := int (3 * u32_at buffer 80),
            face := Some (stl_ids (righthand m) (u32_at buffer 80)),
            vert := Some (map float_val (stl_coords buffer (u32_at buffer 80)))\<rparr>"
      by blast
    have "vert m' = Some (map float_val (stl_coords buffer (u32_at buffer 80)))"
      "face m' = Some (if righthand m then map int [0..<3 * u32_at buffer 80]
                         else swap23 (map int [0..<3 * u32_at buffer 80]))"
      by (simp_all add: b(2) stl_ids_def)
    then show "\<exists>buffer. files env (meshfile m) = Some buffer \<and>
         vert m' = Some (map float_val (stl_coords buffer (u32_at buffer 80))) \<and>
         face m' = Some (if righthand m then map int [0..<3 * u32_at buffer 80]
                         else swap23 (map int [0..<3 * u32_at buffer 80]))"
      using b(1) by blast
  qed
  from 1 2 3 4 show ?thesis by blast
qed

theorem load_handedness_witness:
  "\<not> righthand left_mesh \<and> scale left_mesh = (- 1, 1, 1) \<and>
   LoadOBJ obj_env left_mesh =
     Inr (left_mesh\<lparr>uservert := [0, 0, 0, 1, 0, 0, 0, 1, 0, 0, 0, 1], userface := [0, 2, 1],
            useredge := [(0, 2), (2, 1), (1, 0)]\<rparr>) \<and>
   map vertex_index (indices (hd (GetShapes obj_triangle))) = [0, 1, 2] \<and>
   LoadMSH msh_env left_mesh =
     Inr (left_mesh\<lparr>nvert := 4, nnormal := 0, ntexcoord := 0, nface := 1,
            vert := Some [0, 0, 0, 1, 0, 0, 0, 1, 0, 0, 0, 1],
            face := Some [0, 2, 1], facenormal := Some [0, 1, 2]\<rparr>) \<and>
   copy_words msh_one 64 3 = Inr [0, 1, 2] \<and>
   stl_read stl_env left_mesh =
     Inr (left_mesh\<lparr>nface := 1, nvert := 3, face := Some [0, 2, 1],
            vert := Some [0, 0, 0, 1, 0, 0, 0, 1, 0]\<rparr>) \<and>
   nvert left_mesh = 0"
proof -
  have s: "GetShapes (ParseFromFile obj_env (meshfile left_mesh)) \<noteq> []"
    by (simp add: obj_env_def obj_triangle_def)
  have n: "nface (left_mesh\<lparr>nvert := 4, nnormal := 0, ntexcoord := 0, nface := 1,
            vert := Some [0, 0, 0, 1, 0, 0, 0, 1, 0, 0, 0, 1],
            face := Some [0, 2, 1], facenormal := Some [0, 1, 2]\<rparr>) \<noteq> 0"
    by simp
  have v: "nvert left_mesh = 0" "scale left_mesh = (- 1, 1, 1)"
    by (simp_all add: left_mesh_def new_mjCMesh_def)
  note a = load_handedness [of left_mesh obj_env, THEN conjunct2, THEN conjunct1, rule_format,
      OF conjI [OF left_mesh_obj s]]
  note b = load_handedness [of left_mesh msh_env, THEN conjunct2, THEN conjunct2, THEN conjunct1,
      rule_format, OF conjI [OF left_mesh_load n]]
  note c = load_handedness [of left_mesh stl_env, THEN conjunct2, THEN conjunct2, THEN conjunct2,
      rule_format, OF conjI [OF left_mesh_stl v(1)]]
  have rh: "\<not> righthand left_mesh"
    using load_handedness [of left_mesh, THEN conjunct1] by (simp add: v)
  show ?thesis
    using a b c rh v left_mesh_obj left_mesh_load left_mesh_stl msh_one_face obj_triangle_order(2)
    by blast
qed

text \<open>
  The claim as stated fails: with the scale \<open>(0, 1, 1)\<close> the product is
  not negative, and the triangle \<open>(0, 1, 2)\<close> of the file is stored as
  \<open>(0, 2, 1)\<close>.
\<close>

theorem load_handedness_counterexample:
  "scale zero_mesh = (0, 1, 1) \<and> \<not> (0 * 1 * 1 < (0::real)) \<and>
   map vertex_index (indices (hd (GetShapes obj_triangle))) = [0, 1, 2] \<and>
   LoadOBJ obj_env zero_mesh =
     Inr (zero_mesh\<lparr>uservert := [0, 0, 0, 1, 0, 0, 0, 1, 0, 0, 0, 1], userface := [0, 2, 1],
            useredge := [(0, 2), (2, 1), (1, 0)]\<rparr>)"
  by (simp add: zero_mesh_obj obj_triangle_order) (simp add: zero_mesh_def)

text \<open>
  C5. The MSH loader copies the faces to \<^verbatim>\<open>face\<close> and to \<^verbatim>\<open>facenormal\<close>
  and then exchanges the second and third index of every face in \<^verbatim>\<open>face\<close>
  only. For a valid file of 76 bytes with the face \<open>(0, 1, 2)\<close> and a
  left-handed scale, \<^verbatim>\<open>face\<close> is \<open>(0, 2, 1)\<close> and \<^verbatim>\<open>facenormal\<close> is
  \<open>(0, 1, 2)\<close>: not a copy of \<^verbatim>\<open>face\<close>.
\<close>

theorem LoadMSH_lefthanded_facenormal:
  "LoadMSH msh_env left_mesh =
     Inr (left_mesh\<lparr>nvert := 4, nnormal := 0, ntexcoord := 0, nface := 1,
            vert := Some [0, 0, 0, 1, 0, 0, 0, 1, 0, 0, 0, 1],
            face := Some [0, 2, 1], facenormal := Some [0, 1, 2]\<rparr>) \<and>
   msh_header msh_one = Inr (4, 0, 0, 1) \<and> int (length msh_one) = 16 + 12 * 4 + 12 * 0 + 8 * 0 + 12 * 1"
  by (simp add: left_mesh_load msh_one_header_ok msh_one_header)

subsection \<open>The weights of a skin\<close>
















subsection \<open>The hull graph with a facet that is not a triangle or an id out of range\<close>









lemma hull_stray_ids: "\<not> ids_ok (nvert hull_mesh) (vertex_list qh_stray)"
  by code_simp



subsection \<open>The accessors and CheckMesh\<close>








end
